(* ===== verification/Prelude.thy ===== *)
theory Prelude
  imports Complex_Main
begin

text \<open>
  Shared vocabulary of the development: Python exceptions as values, the effect type
  that threads a state through code that may raise, decimal and \<open>repr\<close> printing as the
  f-strings of the source use them, and the generic list lemmas the components share.

  Texts. A Python \<open>str\<close> is a sequence of code points. Here it is a HOL \<open>string\<close>, whose
  characters are the code points 0 to 255 (Latin-1), so every text operation below is
  exact on texts in that range, and a longer code point is outside the model.
\<close>

named_theorems eff_simps \<open>unfolding rules of the effect combinators\<close>

section \<open>Exceptions\<close>

text \<open>
  The exception classes the source raises or lets through, each with the message that
  \<open>str(exc)\<close> shows. \<open>OtherError\<close> is any exception of a class the source never names.
\<close>

datatype exn =
    ProviderError string
  | ProviderTimeoutError string
  | ProviderUnavailableError string
  | ProviderAuthError string
  | NoHealthyProviderError string
  | CircuitOpenError string
  | ToolExecutionError string
  | TimeoutError string
  | ValidationError string
  | ValueError string
  | KeyError string
  | AssertionError string
  | OutputValidationError string
  | HTTPException nat string
  | OtherError string

fun exn_str :: "exn \<Rightarrow> string" where
  "exn_str (ProviderError m) = m"
| "exn_str (ProviderTimeoutError m) = m"
| "exn_str (ProviderUnavailableError m) = m"
| "exn_str (ProviderAuthError m) = m"
| "exn_str (NoHealthyProviderError m) = m"
| "exn_str (CircuitOpenError m) = m"
| "exn_str (ToolExecutionError m) = m"
| "exn_str (TimeoutError m) = m"
| "exn_str (ValidationError m) = m"
| "exn_str (ValueError m) = m"
| "exn_str (KeyError m) = m"
| "exn_str (AssertionError m) = m"
| "exn_str (OutputValidationError m) = m"
| "exn_str (HTTPException n m) = m"
| "exn_str (OtherError m) = m"

text \<open>\<open>isinstance(exc, ProviderError)\<close>: the base class and its four subclasses.\<close>

fun is_provider_error :: "exn \<Rightarrow> bool" where
  "is_provider_error (ProviderError _) = True"
| "is_provider_error (ProviderTimeoutError _) = True"
| "is_provider_error (ProviderUnavailableError _) = True"
| "is_provider_error (ProviderAuthError _) = True"
| "is_provider_error (NoHealthyProviderError _) = True"
| "is_provider_error _ = False"

fun is_auth_error :: "exn \<Rightarrow> bool" where
  "is_auth_error (ProviderAuthError _) = True"
| "is_auth_error _ = False"

lemma auth_error_is_provider_error: "is_auth_error e \<Longrightarrow> is_provider_error e"
  by (cases e) auto

section \<open>Effects\<close>

text \<open>
  A piece of effectful code over a state \<open>'s\<close> that may raise: it returns the exception or
  the value, and the state it leaves behind (a Python exception does not undo writes).
\<close>

type_synonym 'a result = "exn + 'a"
type_synonym ('s, 'a) eff = "'s \<Rightarrow> 'a result \<times> 's"

definition ret :: "'a \<Rightarrow> ('s, 'a) eff" where
  "ret x s = (Inr x, s)"

definition throw :: "exn \<Rightarrow> ('s, 'a) eff" where
  "throw e s = (Inl e, s)"

definition bind_e :: "('s, 'a) eff \<Rightarrow> ('a \<Rightarrow> ('s, 'b) eff) \<Rightarrow> ('s, 'b) eff" where
  "bind_e m f s = (case m s of (Inl e, s') \<Rightarrow> (Inl e, s') | (Inr x, s') \<Rightarrow> f x s')"

text \<open>\<open>for x in xs: body(x)\<close>, stopping at the first exception.\<close>

fun for_e :: "('a \<Rightarrow> ('s, unit) eff) \<Rightarrow> 'a list \<Rightarrow> ('s, unit) eff" where
  "for_e f [] s = (Inr (), s)"
| "for_e f (x # xs) s = bind_e (f x) (\<lambda>_. for_e f xs) s"

lemmas [eff_simps] = ret_def throw_def bind_e_def

lemma bind_e_Inr:
  "m s = (Inr x, s') \<Longrightarrow> bind_e m f s = f x s'"
  by (simp add: bind_e_def)

lemma bind_e_Inl:
  "m s = (Inl e, s') \<Longrightarrow> bind_e m f s = (Inl e, s')"
  by (simp add: bind_e_def)

lemma bind_e_InrE:
  assumes "bind_e m f s = (Inr y, s2)"
  obtains x s1 where "m s = (Inr x, s1)" and "f x s1 = (Inr y, s2)"
  using assms by (auto simp: bind_e_def split: prod.splits sum.splits)

text \<open>
  A relation between the state before and after that is reflexive and transitive and
  holds over every step of a loop body holds over the loop.
\<close>

lemma for_e_rel:
  assumes refl: "\<And>s. R s s"
    and trans: "\<And>a b c. R a b \<Longrightarrow> R b c \<Longrightarrow> R a c"
    and step: "\<And>x s. x \<in> set xs \<Longrightarrow> R s (snd (f x s))"
  shows "R s (snd (for_e f xs s))"
  using step
proof (induction xs arbitrary: s)
  case Nil
  then show ?case by (simp add: refl)
next
  case (Cons x xs)
  obtain r s1 where fx: "f x s = (r, s1)" by fastforce
  have R1: "R s s1" using Cons.prems [of x s] fx by simp
  show ?case
  proof (cases r)
    case (Inl e)
    then show ?thesis using fx R1 by (simp add: bind_e_def)
  next
    case (Inr u)
    have "R s1 (snd (for_e f xs s1))" using Cons by auto
    then show ?thesis using fx Inr R1 by (auto simp: bind_e_def intro: trans)
  qed
qed

text \<open>
  \<open>try: m except Exception as exc\<close>: the outcome of \<open>m\<close> as a value, for the handlers to look
  at.
\<close>

definition catch_e :: "('s, 'a) eff \<Rightarrow> ('s, 'a result) eff" where
  "catch_e m s = (case m s of (r, s') \<Rightarrow> (Inr r, s'))"

text \<open>A call whose result is not used.\<close>

definition discard :: "('s, 'a) eff \<Rightarrow> ('s, unit) eff" where
  "discard m = bind_e m (\<lambda>_. ret ())"

lemma discard_cases:
  "discard m s = (case m s of (Inl e, s') \<Rightarrow> (Inl e, s') | (Inr x, s') \<Rightarrow> (Inr (), s'))"
  by (simp add: discard_def bind_e_def ret_def split: prod.splits sum.splits)

lemma snd_discard [simp]: "snd (discard m s) = snd (m s)"
  by (simp add: discard_cases split: prod.splits sum.splits)

lemma discard_Inr: "discard m s = (Inr (), s') \<longleftrightarrow> (\<exists>x. m s = (Inr x, s'))"
  by (auto simp: discard_cases split: prod.splits sum.splits)

text \<open>
  The contract of effectful code with respect to a reflexive and transitive relation between
  the state before and the state after, and that every combinator keeps it. A component
  proves the contract of its operations once; code composed of them has it by composition.
\<close>

locale effect_rel =
  fixes R :: "'s \<Rightarrow> 's \<Rightarrow> bool"
  assumes R_refl: "R s s"
    and R_trans: "R a b \<Longrightarrow> R b c \<Longrightarrow> R a c"
begin

definition keeps :: "('s, 'a) eff \<Rightarrow> bool" where
  "keeps m \<longleftrightarrow> (\<forall>s. R s (snd (m s)))"

lemma keepsI: "(\<And>s. R s (snd (m s))) \<Longrightarrow> keeps m"
  by (simp add: keeps_def)

lemma keepsD: "keeps m \<Longrightarrow> m s = (r, s') \<Longrightarrow> R s s'"
  using snd_conv [of r s'] unfolding keeps_def by metis

lemma keepsR: "keeps m \<Longrightarrow> R s (snd (m s))"
  by (simp add: keeps_def)

lemma keeps_ret: "keeps (ret x)"
  by (simp add: keeps_def ret_def R_refl)

lemma keeps_throw: "keeps (throw e)"
  by (simp add: keeps_def throw_def R_refl)

lemma keeps_bind:
  assumes "keeps m" and "\<And>x. keeps (f x)"
  shows "keeps (bind_e m f)"
proof (rule keepsI)
  fix s
  obtain r s1 where m: "m s = (r, s1)" by fastforce
  have R1: "R s s1" using keepsD [OF assms(1) m] .
  show "R s (snd (bind_e m f s))"
  proof (cases r)
    case (Inl e)
    then show ?thesis using m R1 by (simp add: bind_e_def)
  next
    case (Inr x)
    then have "R s1 (snd (bind_e m f s))" using assms(2) m by (simp add: bind_e_def keeps_def)
    then show ?thesis by (rule R_trans [OF R1])
  qed
qed

lemma keeps_catch: "keeps m \<Longrightarrow> keeps (catch_e m)"
  by (auto simp: keeps_def catch_e_def split: prod.splits) (metis snd_conv)

lemma keeps_discard: "keeps m \<Longrightarrow> keeps (discard m)"
  by (simp add: keeps_def)

lemma keeps_for:
  assumes "\<And>x. x \<in> set xs \<Longrightarrow> keeps (f x)"
  shows "keeps (for_e f xs)"
  by (rule keepsI, rule for_e_rel) (use assms R_refl R_trans in \<open>auto simp: keeps_def\<close>)

lemma keeps_if: "keeps m \<Longrightarrow> keeps n \<Longrightarrow> keeps (if b then m else n)"
  by simp

lemma keeps_option:
  "keeps m \<Longrightarrow> (\<And>x. keeps (f x)) \<Longrightarrow> keeps (case o' of None \<Rightarrow> m | Some x \<Rightarrow> f x)"
  by (cases o') simp_all

lemma keeps_sum:
  "(\<And>e. keeps (f e)) \<Longrightarrow> (\<And>x. keeps (g x)) \<Longrightarrow> keeps (case r of Inl e \<Rightarrow> f e | Inr x \<Rightarrow> g x)"
  by (cases r) simp_all

lemma keeps_prod: "(\<And>x y. keeps (f x y)) \<Longrightarrow> keeps (case p of (x, y) \<Rightarrow> f x y)"
  by (cases p) simp

lemmas keeps_rules =
  keeps_ret keeps_throw keeps_bind keeps_discard keeps_catch keeps_for keeps_if keeps_option keeps_sum keeps_prod

end

text \<open>
  Pre- and postconditions: started in a state with \<open>P\<close>, the code either returns a value and a
  state with \<open>Q\<close> or raises an exception with \<open>E\<close>. The functions of the model are total, so
  this is total correctness.
\<close>

definition triple :: "('s \<Rightarrow> bool) \<Rightarrow> ('s, 'a) eff \<Rightarrow> ('a \<Rightarrow> 's \<Rightarrow> bool) \<Rightarrow> (exn \<Rightarrow> bool) \<Rightarrow> bool" where
  "triple P m Q E \<longleftrightarrow>
     (\<forall>s. P s \<longrightarrow> (case m s of (Inl e, s') \<Rightarrow> E e | (Inr x, s') \<Rightarrow> Q x s'))"

lemma tripleI:
  assumes "\<And>s e s'. P s \<Longrightarrow> m s = (Inl e, s') \<Longrightarrow> E e"
    and "\<And>s x s'. P s \<Longrightarrow> m s = (Inr x, s') \<Longrightarrow> Q x s'"
  shows "triple P m Q E"
  unfolding triple_def using assms by (auto split: prod.splits sum.splits)

lemma triple_InrD: "triple P m Q E \<Longrightarrow> P s \<Longrightarrow> m s = (Inr x, s') \<Longrightarrow> Q x s'"
  unfolding triple_def by (drule spec [of _ s]) simp

lemma triple_InlD: "triple P m Q E \<Longrightarrow> P s \<Longrightarrow> m s = (Inl e, s') \<Longrightarrow> E e"
  unfolding triple_def by (drule spec [of _ s]) simp

lemma triple_ret: "(\<And>s. P s \<Longrightarrow> Q x s) \<Longrightarrow> triple P (ret x) Q E"
  by (simp add: triple_def ret_def)

lemma triple_throw: "E e \<Longrightarrow> triple P (throw e) Q E"
  by (simp add: triple_def throw_def)

lemma triple_bind:
  assumes "triple P m Q E" and "\<And>x. triple (Q x) (f x) Q' E"
  shows "triple P (bind_e m f) Q' E"
  unfolding triple_def
proof (intro allI impI)
  fix s
  assume P: "P s"
  obtain r s1 where m: "m s = (r, s1)" by fastforce
  show "case bind_e m f s of (Inl e, s') \<Rightarrow> E e | (Inr x, s') \<Rightarrow> Q' x s'"
  proof (cases r)
    case (Inl e)
    with m have "m s = (Inl e, s1)" by simp
    then show ?thesis using triple_InlD [OF assms(1) P] by (simp add: bind_e_def)
  next
    case (Inr x)
    with m have mx: "m s = (Inr x, s1)" by simp
    then have "Q x s1" by (rule triple_InrD [OF assms(1) P])
    then show ?thesis using assms(2) [of x] mx by (simp add: bind_e_def triple_def)
  qed
qed

lemma triple_weaken:
  assumes "triple P m Q E" and "\<And>s. P' s \<Longrightarrow> P s" and "\<And>x s. Q x s \<Longrightarrow> Q' x s"
    and "\<And>e. E e \<Longrightarrow> E' e"
  shows "triple P' m Q' E'"
proof (rule tripleI)
  fix s e s'
  assume "P' s" "m s = (Inl e, s')"
  then show "E' e" using assms(2,4) triple_InlD [OF assms(1)] by blast
next
  fix s x s'
  assume "P' s" "m s = (Inr x, s')"
  then show "Q' x s'" using assms(2,3) triple_InrD [OF assms(1)] by blast
qed

lemma triple_if:
  "(b \<Longrightarrow> triple P m Q E) \<Longrightarrow> (\<not> b \<Longrightarrow> triple P n Q E) \<Longrightarrow> triple P (if b then m else n) Q E"
  by simp

lemma triple_pure:
  "(b \<Longrightarrow> triple P m Q E) \<Longrightarrow> triple (\<lambda>s. P s \<and> b) m Q E"
  by (auto simp: triple_def)

section \<open>Printing\<close>

text \<open>\<open>str(n)\<close> of an integer.\<close>

definition digit_char :: "nat \<Rightarrow> char" where
  "digit_char d = char_of (48 + d)"

fun nat_str :: "nat \<Rightarrow> string" where
  "nat_str n = (if n < 10 then [digit_char n] else nat_str (n div 10) @ [digit_char (n mod 10)])"

declare nat_str.simps [simp del]

definition int_str :: "int \<Rightarrow> string" where
  "int_str n = (if n < 0 then ''-'' @ nat_str (nat (- n)) else nat_str (nat n))"

definition hex_digit :: "nat \<Rightarrow> char" where
  "hex_digit d = (if d < 10 then char_of (48 + d) else char_of (87 + d))"

text \<open>
  \<open>repr(s)\<close> of a string: single quotes unless the text has a single quote and no double
  quote; backslash, the quote, tab, newline and carriage return escaped; other
  unprintable characters of the Latin-1 range as \<open>\x..\<close>.
\<close>

definition printable :: "char \<Rightarrow> bool" where
  "printable c = (let n = of_char c :: nat in
     (32 \<le> n \<and> n \<le> 126) \<or> (161 \<le> n \<and> n \<noteq> 173))"

definition repr_char :: "char \<Rightarrow> char \<Rightarrow> string" where
  "repr_char q c =
     (if c = q \<or> c = CHR 0x5C then [CHR 0x5C, c]
      else if c = CHR 0x09 then [CHR 0x5C, CHR ''t'']
      else if c = CHR 0x0A then [CHR 0x5C, CHR ''n'']
      else if c = CHR 0x0D then [CHR 0x5C, CHR ''r'']
      else if printable c then [c]
      else [CHR 0x5C, CHR ''x'', hex_digit (of_char c div 16), hex_digit (of_char c mod 16)])"

definition py_repr :: "string \<Rightarrow> string" where
  "py_repr s =
     (let q = (if CHR 0x27 \<in> set s \<and> CHR 0x22 \<notin> set s then CHR 0x22 else CHR 0x27)
      in [q] @ concat (map (repr_char q) s) @ [q])"

fun join_with :: "string \<Rightarrow> string list \<Rightarrow> string" where
  "join_with sep [] = []"
| "join_with sep [x] = x"
| "join_with sep (x # y # zs) = x @ sep @ join_with sep (y # zs)"

text \<open>\<open>str(xs)\<close> of a list of strings.\<close>

definition list_repr :: "string list \<Rightarrow> string" where
  "list_repr xs = ''['' @ join_with '', '' (map py_repr xs) @ '']''"

text \<open>
  The dash of some messages is U+2014, beyond the characters of the model; this one stands for it.
\<close>

definition dash :: string where "dash = [CHR 0x97]"

section \<open>Python values in conditions\<close>

text \<open>\<open>x or y\<close> on strings, and on an optional string.\<close>

definition str_or :: "string \<Rightarrow> string \<Rightarrow> string" where
  "str_or x y = (if x = [] then y else x)"

definition opt_str_or :: "string option \<Rightarrow> string \<Rightarrow> string" where
  "opt_str_or x y = (case x of None \<Rightarrow> y | Some v \<Rightarrow> str_or v y)"

lemma opt_str_or_None [simp]: "opt_str_or None y = y"
  by (simp add: opt_str_or_def)

text \<open>The slice \<open>xs[:n]\<close>: a negative bound counts from the end.\<close>

definition slice_to :: "int \<Rightarrow> 'a list \<Rightarrow> 'a list" where
  "slice_to n xs = take (nat (if n < 0 then int (length xs) + n else n)) xs"

section \<open>Lists\<close>

lemma set_slice_to: "set (slice_to n xs) \<subseteq> set xs"
  by (simp add: slice_to_def set_take_subset)

lemma slice_to_length: "n \<ge> 0 \<Longrightarrow> length (slice_to n xs) = min (nat n) (length xs)"
  by (simp add: slice_to_def min.commute)

lemma map_of_Some_key_in: "map_of xs k = Some v \<Longrightarrow> k \<in> fst ` set xs"
  by (metis fst_conv image_eqI map_of_SomeD)

lemma filter_append_single:
  "filter P (xs @ [x]) = filter P xs @ (if P x then [x] else [])"
  by simp

end
