(* ===== verification/Regex.thy ===== *)
theory Regex
  imports Prelude
begin

text \<open>
  The part of Python's \<open>re\<close> module that the guardrails and the SQL tool use: a
  backtracking matcher over character classes, sequence, ordered choice, greedy bounded
  repetition, \<open>\b\<close>, and the one-character lookarounds \<open>(?<!c)\<close> and \<open>(?!c)\<close>, with
  \<open>search\<close>, \<open>match\<close> and \<open>finditer\<close> on top.

  A position in a text is a zipper: the text before it, reversed, and the text after it.
  The matcher returns the positions where a match may end in the order in which the
  backtracking engine tries them; the match is the first one. A repetition makes no
  optional turn that consumes nothing (no pattern of the source has a repetition whose
  body can match the empty text, so the engine's special rule for that case never acts).
  For the same reason \<open>finditer\<close> after an empty match simply moves on by one character.
\<close>

datatype pos = Pos (behind: string) (ahead: string)

datatype rx =
    Eps
  | Class "char \<Rightarrow> bool"
  | Seq rx rx
  | Alt rx rx
  | Rep nat "nat option" rx
  | Boundary
  | NotBehind "char \<Rightarrow> bool"
  | NotAhead "char \<Rightarrow> bool"

section \<open>Character classes\<close>

definition code :: "char \<Rightarrow> nat" where
  "code c = of_char c"

definition is_digit :: "char \<Rightarrow> bool" where
  "is_digit c \<longleftrightarrow> 48 \<le> code c \<and> code c \<le> 57"

definition is_upper :: "char \<Rightarrow> bool" where
  "is_upper c \<longleftrightarrow> 65 \<le> code c \<and> code c \<le> 90"

definition is_lower :: "char \<Rightarrow> bool" where
  "is_lower c \<longleftrightarrow> 97 \<le> code c \<and> code c \<le> 122"

definition is_ascii_alnum :: "char \<Rightarrow> bool" where
  "is_ascii_alnum c \<longleftrightarrow> is_digit c \<or> is_upper c \<or> is_lower c"

text \<open>\<open>\s\<close> and \<open>\w\<close> on code points up to 255.\<close>

definition is_space :: "char \<Rightarrow> bool" where
  "is_space c \<longleftrightarrow> (9 \<le> code c \<and> code c \<le> 13) \<or> (28 \<le> code c \<and> code c \<le> 32) \<or>
     code c = 133 \<or> code c = 160"

definition is_word :: "char \<Rightarrow> bool" where
  "is_word c \<longleftrightarrow> is_ascii_alnum c \<or> c = CHR ''_'' \<or>
     code c \<in> {170, 178, 179, 181, 185, 186, 188, 189, 190} \<or>
     (192 \<le> code c \<and> code c \<noteq> 215 \<and> code c \<noteq> 247)"

text \<open>ASCII lower case, and a literal compared under \<open>re.IGNORECASE\<close>.\<close>

definition ascii_lower :: "char \<Rightarrow> char" where
  "ascii_lower c = (if is_upper c then char_of (code c + 32) else c)"

text \<open>\<open>s.lower()\<close> on code points up to 255.\<close>

definition lower_char :: "char \<Rightarrow> char" where
  "lower_char c =
     (if is_upper c \<or> (192 \<le> code c \<and> code c \<le> 222 \<and> code c \<noteq> 215) then char_of (code c + 32) else c)"

definition py_lower :: "string \<Rightarrow> string" where
  "py_lower s = map lower_char s"

text \<open>\<open>s.strip()\<close>.\<close>

definition py_strip :: "string \<Rightarrow> string" where
  "py_strip s = rev (dropWhile is_space (rev (dropWhile is_space s)))"

text \<open>\<open>s.rstrip(c)\<close>.\<close>

definition rstrip_char :: "char \<Rightarrow> string \<Rightarrow> string" where
  "rstrip_char c s = rev (dropWhile ((=) c) (rev s))"

text \<open>\<open>s.split()\<close>.\<close>

fun split_words :: "string \<Rightarrow> string \<Rightarrow> string list" where
  "split_words word [] = (if word = [] then [] else [word])"
| "split_words word (c # s) =
     (if is_space c then (if word = [] then split_words [] s else word # split_words [] s)
      else split_words (word @ [c]) s)"

definition py_split :: "string \<Rightarrow> string list" where
  "py_split s = split_words [] s"

definition chr :: "char \<Rightarrow> rx" where
  "chr c = Class ((=) c)"

definition same_letter :: "char \<Rightarrow> char \<Rightarrow> bool" where
  "same_letter c d \<longleftrightarrow> ascii_lower d = ascii_lower c"

definition chr_i :: "char \<Rightarrow> rx" where
  "chr_i c = Class (same_letter c)"

fun lit :: "string \<Rightarrow> rx" where
  "lit [] = Eps"
| "lit [c] = chr c"
| "lit (c # cs) = Seq (chr c) (lit cs)"

fun lit_i :: "string \<Rightarrow> rx" where
  "lit_i [] = Eps"
| "lit_i [c] = chr_i c"
| "lit_i (c # cs) = Seq (chr_i c) (lit_i cs)"

fun seqs :: "rx list \<Rightarrow> rx" where
  "seqs [] = Eps"
| "seqs [r] = r"
| "seqs (r # rs) = Seq r (seqs rs)"

fun alts :: "rx list \<Rightarrow> rx" where
  "alts [] = Class (\<lambda>_. False)"
| "alts [r] = r"
| "alts (r # rs) = Alt r (alts rs)"

text \<open>\<open>r?\<close>, \<open>r*\<close>, \<open>r+\<close>, \<open>r{m}\<close>, \<open>r{m,}\<close> and \<open>r{m,n}\<close>, all greedy.\<close>

definition opt :: "rx \<Rightarrow> rx" where "opt r = Rep 0 (Some 1) r"
definition many :: "rx \<Rightarrow> rx" where "many r = Rep 0 None r"
definition some :: "rx \<Rightarrow> rx" where "some r = Rep 1 None r"
definition times :: "nat \<Rightarrow> rx \<Rightarrow> rx" where "times n r = Rep n (Some n) r"
definition at_least :: "nat \<Rightarrow> rx \<Rightarrow> rx" where "at_least n r = Rep n None r"
definition between :: "nat \<Rightarrow> nat \<Rightarrow> rx \<Rightarrow> rx" where "between m n r = Rep m (Some n) r"

lemmas rx_sugar = opt_def many_def some_def times_def at_least_def between_def chr_def chr_i_def same_letter_def

section \<open>The matcher\<close>

definition at_boundary :: "pos \<Rightarrow> bool" where
  "at_boundary p =
     ((case behind p of [] \<Rightarrow> False | c # _ \<Rightarrow> is_word c) \<noteq>
      (case ahead p of [] \<Rightarrow> False | c # _ \<Rightarrow> is_word c))"

fun exactly :: "(pos \<Rightarrow> pos list) \<Rightarrow> nat \<Rightarrow> pos \<Rightarrow> pos list" where
  "exactly f 0 p = [p]"
| "exactly f (Suc k) p = concat (map (exactly f k) (f p))"

fun up_to :: "(pos \<Rightarrow> pos list) \<Rightarrow> nat \<Rightarrow> pos \<Rightarrow> pos list" where
  "up_to f 0 p = [p]"
| "up_to f (Suc k) p =
     concat (map (\<lambda>q. if length (ahead q) < length (ahead p) then up_to f k q else []) (f p)) @ [p]"

primrec ends :: "rx \<Rightarrow> pos \<Rightarrow> pos list" where
  "ends Eps = (\<lambda>p. [p])"
| "ends (Class P) = (\<lambda>p. case ahead p of [] \<Rightarrow> [] | c # cs \<Rightarrow> if P c then [Pos (c # behind p) cs] else [])"
| "ends (Seq a b) = (\<lambda>p. concat (map (ends b) (ends a p)))"
| "ends (Alt a b) = (\<lambda>p. ends a p @ ends b p)"
| "ends (Rep m mx r) = (\<lambda>p. concat (map
     (\<lambda>q. up_to (ends r) (case mx of None \<Rightarrow> length (ahead q) | Some n \<Rightarrow> n - m) q)
     (exactly (ends r) m p)))"
| "ends Boundary = (\<lambda>p. if at_boundary p then [p] else [])"
| "ends (NotBehind P) = (\<lambda>p. case behind p of [] \<Rightarrow> [p] | c # _ \<Rightarrow> if P c then [] else [p])"
| "ends (NotAhead P) = (\<lambda>p. case ahead p of [] \<Rightarrow> [p] | c # _ \<Rightarrow> if P c then [] else [p])"

text \<open>\<open>pattern.match\<close> at a position, \<open>pattern.search\<close> and \<open>pattern.finditer\<close> from one on.\<close>

definition match_at :: "rx \<Rightarrow> pos \<Rightarrow> pos option" where
  "match_at r p = (case ends r p of [] \<Rightarrow> None | q # _ \<Rightarrow> Some q)"

fun search_from :: "rx \<Rightarrow> string \<Rightarrow> string \<Rightarrow> (pos \<times> pos) option" where
  "search_from r pre rest =
     (case match_at r (Pos pre rest) of
        Some q \<Rightarrow> Some (Pos pre rest, q)
      | None \<Rightarrow> (case rest of [] \<Rightarrow> None | c # cs \<Rightarrow> search_from r (c # pre) cs))"

declare search_from.simps [simp del]

definition search :: "rx \<Rightarrow> string \<Rightarrow> (pos \<times> pos) option" where
  "search r s = search_from r [] s"

lemma search_from_hit:
  "match_at r (Pos pre rest) = Some q \<Longrightarrow> search_from r pre rest = Some (Pos pre rest, q)"
  by (simp add: search_from.simps [of r pre rest])

lemma search_from_Nil:
  "match_at r (Pos pre []) = None \<Longrightarrow> search_from r pre [] = None"
  by (simp add: search_from.simps [of r pre "[]"])

lemma search_from_Cons:
  "match_at r (Pos pre (c # cs)) = None \<Longrightarrow> search_from r pre (c # cs) = search_from r (c # pre) cs"
  by (simp add: search_from.simps [of r pre "c # cs"])

lemma search_from_shorter:
  "search_from r pre rest = Some (p, q) \<Longrightarrow> length (ahead p) \<le> length rest"
proof (induction rest arbitrary: pre)
  case Nil
  then show ?case
    by (cases "match_at r (Pos pre [])") (auto simp: search_from_hit search_from_Nil)
next
  case (Cons c cs)
  show ?case
  proof (cases "match_at r (Pos pre (c # cs))")
    case None
    with Cons.prems have "search_from r (c # pre) cs = Some (p, q)" by (simp add: search_from_Cons)
    from Cons.IH [OF this] show ?thesis by simp
  next
    case (Some q')
    with Cons.prems show ?thesis by (auto simp: search_from_hit)
  qed
qed

function finditer_from :: "rx \<Rightarrow> string \<Rightarrow> string \<Rightarrow> (pos \<times> pos) list" where
  "finditer_from r pre rest =
     (case search_from r pre rest of
        None \<Rightarrow> []
      | Some (p, q) \<Rightarrow> (p, q) #
          (if length (ahead q) < length (ahead p) then finditer_from r (behind q) (ahead q)
           else case ahead p of [] \<Rightarrow> [] | c # cs \<Rightarrow> finditer_from r (c # behind p) cs))"
  by pat_completeness auto
termination
  by (relation "measure (\<lambda>(r, pre, rest). length rest)")
    (auto dest!: search_from_shorter)

declare finditer_from.simps [simp del]

definition finditer :: "rx \<Rightarrow> string \<Rightarrow> (pos \<times> pos) list" where
  "finditer r s = finditer_from r [] s"

text \<open>\<open>m.start()\<close>, \<open>m.end()\<close> and \<open>m.group()\<close> of a match.\<close>

definition m_start :: "pos \<times> pos \<Rightarrow> nat" where
  "m_start m = length (behind (fst m))"

definition m_end :: "pos \<times> pos \<Rightarrow> nat" where
  "m_end m = length (behind (snd m))"

definition m_group :: "pos \<times> pos \<Rightarrow> string" where
  "m_group m = take (m_end m - m_start m) (ahead (fst m))"

section \<open>What a pattern means\<close>

text \<open>
  The meaning of a pattern without any order of preference: between which positions it
  matches.
\<close>

primrec rx_match :: "rx \<Rightarrow> pos \<Rightarrow> pos \<Rightarrow> bool" where
  "rx_match Eps = (\<lambda>p q. q = p)"
| "rx_match (Class P) = (\<lambda>p q. \<exists>c cs. ahead p = c # cs \<and> P c \<and> q = Pos (c # behind p) cs)"
| "rx_match (Seq a b) = (\<lambda>p q. \<exists>t. rx_match a p t \<and> rx_match b t q)"
| "rx_match (Alt a b) = (\<lambda>p q. rx_match a p q \<or> rx_match b p q)"
| "rx_match (Rep m mx r) = (\<lambda>p q. \<exists>k. m \<le> k \<and>
     (case mx of None \<Rightarrow> True | Some n \<Rightarrow> k \<le> max m n) \<and> (rx_match r ^^ k) p q)"
| "rx_match Boundary = (\<lambda>p q. q = p \<and> at_boundary p)"
| "rx_match (NotBehind P) = (\<lambda>p q. q = p \<and> (\<forall>c pre. behind p = c # pre \<longrightarrow> \<not> P c))"
| "rx_match (NotAhead P) = (\<lambda>p q. q = p \<and> (\<forall>c rest. ahead p = c # rest \<longrightarrow> \<not> P c))"

text \<open>Moving forward over part of the text.\<close>

definition adv :: "pos \<Rightarrow> pos \<Rightarrow> bool" where
  "adv p q \<longleftrightarrow> (\<exists>w. ahead p = w @ ahead q \<and> behind q = rev w @ behind p)"

lemma adv_refl [simp]: "adv p p"
  by (simp add: adv_def)

lemma adv_trans: "adv p q \<Longrightarrow> adv q t \<Longrightarrow> adv p t"
  unfolding adv_def by (metis append.assoc rev_append)

lemma adv_one: "adv (Pos pre (c # cs)) (Pos (c # pre) cs)"
  by (auto simp: adv_def intro: exI [of _ "[c]"])

lemma adv_le: "adv p q \<Longrightarrow> length (ahead q) \<le> length (ahead p)"
  by (auto simp: adv_def)

lemma adv_same: "adv p q \<Longrightarrow> \<not> length (ahead q) < length (ahead p) \<Longrightarrow> q = p"
  by (auto simp: adv_def intro: pos.expand)

lemma adv_text: "adv p q \<Longrightarrow> rev (behind q) @ ahead q = rev (behind p) @ ahead p"
  by (auto simp: adv_def)

lemma relpowp_adv:
  assumes "\<And>p q. R p q \<Longrightarrow> adv p q"
  shows "(R ^^ k) p q \<Longrightarrow> adv p q"
proof (induction k arbitrary: q)
  case (Suc k)
  then show ?case using assms by (auto intro: adv_trans)
qed simp

lemma rx_match_adv: "rx_match r p q \<Longrightarrow> adv p q"
proof (induction r arbitrary: p q)
  case (Class P)
  then show ?case by (cases p) (auto intro: adv_one)
next
  case (Seq a b)
  then show ?case using adv_trans by fastforce
next
  case (Rep m mx r)
  then show ?case using relpowp_adv [of "rx_match r"] by auto
qed auto

section \<open>The matcher computes the meaning\<close>

lemma relpowp_Suc_left: "(R ^^ Suc k) p q \<longleftrightarrow> (\<exists>t. R p t \<and> (R ^^ k) t q)"
  by (blast elim: relpowp_Suc_E2 intro: relpowp_Suc_I2)

lemma set_exactly:
  assumes "\<And>p q. q \<in> set (f p) \<longleftrightarrow> R p q"
  shows "q \<in> set (exactly f k p) \<longleftrightarrow> (R ^^ k) p q"
proof (induction k arbitrary: p)
  case (Suc k)
  then show ?case
    using assms by (auto simp: relpowp_Suc_left simp del: relpowp.simps)
qed auto

lemma up_to_sound:
  assumes f: "\<And>p q. q \<in> set (f p) \<longleftrightarrow> R p q"
  shows "q \<in> set (up_to f k p) \<Longrightarrow> \<exists>j \<le> k. (R ^^ j) p q"
proof (induction k arbitrary: p)
  case (Suc k)
  then consider "q = p" | t where "R p t" "q \<in> set (up_to f k t)"
    using f by (auto split: if_splits)
  then show ?case
  proof cases
    case 1
    then show ?thesis by (intro exI [of _ 0]) simp
  next
    case 2
    then obtain j where "j \<le> k" "(R ^^ j) t q" using Suc.IH by blast
    with 2(1) show ?thesis
      by (intro exI [of _ "Suc j"]) (auto simp: relpowp_Suc_left simp del: relpowp.simps)
  qed
qed simp

lemma up_to_complete:
  assumes f: "\<And>p q. q \<in> set (f p) \<longleftrightarrow> R p q" and R: "\<And>p q. R p q \<Longrightarrow> adv p q"
  shows "(R ^^ j) p q \<Longrightarrow> j \<le> k \<or> length (ahead p) \<le> k \<Longrightarrow> q \<in> set (up_to f k p)"
proof (induction j arbitrary: k p)
  case 0
  then show ?case by (cases k) auto
next
  case (Suc j)
  from Suc.prems(1) obtain t where t: "R p t" "(R ^^ j) t q" by (rule relpowp_Suc_E2)
  show ?case
  proof (cases "length (ahead t) < length (ahead p)")
    case True
    with Suc.prems(2) obtain k' where k: "k = Suc k'" by (cases k) auto
    from True Suc.prems(2) k have "j \<le> k' \<or> length (ahead t) \<le> k'" by auto
    from Suc.IH [OF t(2) this] have "q \<in> set (up_to f k' t)" .
    with True t(1) k f show ?thesis by auto
  next
    case False
    with R [OF t(1)] have "t = p" by (rule adv_same)
    with t(2) Suc.prems(2) show ?thesis by (intro Suc.IH) auto
  qed
qed

lemma set_up_to:
  assumes f: "\<And>p q. q \<in> set (f p) \<longleftrightarrow> R p q" and R: "\<And>p q. R p q \<Longrightarrow> adv p q"
  shows "q \<in> set (up_to f k p) \<longleftrightarrow> (\<exists>j \<le> k. (R ^^ j) p q)"
    and "q \<in> set (up_to f (length (ahead p)) p) \<longleftrightarrow> (\<exists>j. (R ^^ j) p q)"
proof -
  have sound: "\<exists>j \<le> k. (R ^^ j) p q" if "q \<in> set (up_to f k p)" for k
    by (rule up_to_sound [OF _ that]) (rule f)
  have complete: "q \<in> set (up_to f k p)" if "(R ^^ j) p q" "j \<le> k \<or> length (ahead p) \<le> k" for j k
    by (rule up_to_complete [OF _ _ that]) (rule f, erule R)
  show "q \<in> set (up_to f k p) \<longleftrightarrow> (\<exists>j \<le> k. (R ^^ j) p q)"
    and "q \<in> set (up_to f (length (ahead p)) p) \<longleftrightarrow> (\<exists>j. (R ^^ j) p q)"
    using sound complete by blast+
qed

lemma rep_split:
  "(\<exists>t. (R ^^ m) p t \<and> (\<exists>j \<le> n - m. (R ^^ j) t q)) \<longleftrightarrow>
     (\<exists>k. m \<le> k \<and> k \<le> max m n \<and> (R ^^ k) p q)" (is "?A \<longleftrightarrow> ?B")
proof
  assume ?A
  then obtain t j where "(R ^^ m) p t" "j \<le> n - m" "(R ^^ j) t q" by blast
  then show ?B by (intro exI [of _ "m + j"]) (auto simp: relpowp_add)
next
  assume ?B
  then obtain k where k: "m \<le> k" "k \<le> max m n" "(R ^^ k) p q" by blast
  then have "(R ^^ (m + (k - m))) p q" by simp
  then obtain t where "(R ^^ m) p t" "(R ^^ (k - m)) t q" by (auto simp: relpowp_add)
  moreover have "k - m \<le> n - m" using k by auto
  ultimately show ?A by blast
qed

lemma rep_split_inf:
  "(\<exists>t. (R ^^ m) p t \<and> (\<exists>j. (R ^^ j) t q)) \<longleftrightarrow> (\<exists>k. m \<le> k \<and> (R ^^ k) p q)" (is "?A \<longleftrightarrow> ?B")
proof
  assume ?A
  then obtain t j where "(R ^^ m) p t" "(R ^^ j) t q" by blast
  then show ?B by (intro exI [of _ "m + j"]) (auto simp: relpowp_add)
next
  assume ?B
  then obtain k where k: "m \<le> k" "(R ^^ k) p q" by blast
  then have "(R ^^ (m + (k - m))) p q" by simp
  then show ?A by (auto simp: relpowp_add)
qed

lemma set_ends: "q \<in> set (ends r p) \<longleftrightarrow> rx_match r p q"
proof (induction r arbitrary: p q)
  case (Rep m mx r)
  have ex: "q \<in> set (exactly (ends r) k p) \<longleftrightarrow> (rx_match r ^^ k) p q" for k p q
    by (rule set_exactly) (rule Rep)
  have up: "q \<in> set (up_to (ends r) k p) \<longleftrightarrow> (\<exists>j \<le> k. (rx_match r ^^ j) p q)"
    "q \<in> set (up_to (ends r) (length (ahead p)) p) \<longleftrightarrow> (\<exists>j. (rx_match r ^^ j) p q)" for k p q
    by (rule set_up_to; (rule Rep | erule rx_match_adv))+
  show ?case
  proof (cases mx)
    case None
    have "q \<in> set (ends (Rep m mx r) p) \<longleftrightarrow>
        (\<exists>t. (rx_match r ^^ m) p t \<and> q \<in> set (up_to (ends r) (length (ahead t)) t))"
      by (simp add: None Bex_def ex)
    also have "\<dots> \<longleftrightarrow> (\<exists>t. (rx_match r ^^ m) p t \<and> (\<exists>j. (rx_match r ^^ j) t q))"
      by (simp only: up(2))
    also have "\<dots> \<longleftrightarrow> rx_match (Rep m mx r) p q"
      by (simp add: None rep_split_inf)
    finally show ?thesis .
  next
    case (Some n)
    then show ?thesis
      using rep_split [of m "rx_match r" p n q] by (simp add: ex up(1) Bex_def)
  qed
qed (auto split: list.splits)

section \<open>Searching\<close>

lemma match_at_Some: "match_at r p = Some q \<Longrightarrow> rx_match r p q"
  using set_ends [of q r p] by (auto simp: match_at_def split: list.splits)

lemma match_at_None: "match_at r p = None \<longleftrightarrow> (\<forall>q. \<not> rx_match r p q)"
proof -
  have "match_at r p = None \<longleftrightarrow> set (ends r p) = {}"
    by (simp add: match_at_def split: list.splits)
  also have "\<dots> \<longleftrightarrow> (\<forall>q. \<not> rx_match r p q)"
    by (auto simp flip: set_ends)
  finally show ?thesis .
qed

lemma adv_Nil: "adv (Pos pre []) p \<longleftrightarrow> p = Pos pre []"
  by (cases p) (auto simp: adv_def)

lemma adv_Cons: "adv (Pos pre (c # cs)) p \<longleftrightarrow> p = Pos pre (c # cs) \<or> adv (Pos (c # pre) cs) p"
  by (cases p) (auto simp: adv_def Cons_eq_append_conv)

lemma adv_start: "adv (Pos [] s) p \<longleftrightarrow> rev (behind p) @ ahead p = s"
  by (auto simp: adv_def intro: exI [of _ "rev (behind p)"])

lemma search_from_None:
  "search_from r pre rest = None \<longleftrightarrow> (\<forall>p q. adv (Pos pre rest) p \<longrightarrow> \<not> rx_match r p q)"
proof (induction rest arbitrary: pre)
  case Nil
  show ?case
    by (cases "match_at r (Pos pre [])")
      (auto simp: search_from_hit search_from_Nil adv_Nil match_at_None dest: match_at_Some)
next
  case (Cons c cs)
  show ?case
    by (cases "match_at r (Pos pre (c # cs))")
      (auto simp: search_from_hit search_from_Cons Cons adv_Cons match_at_None dest: match_at_Some)
qed

lemma search_from_Some:
  assumes "search_from r pre rest = Some (p, q)"
  shows "adv (Pos pre rest) p" and "match_at r p = Some q"
    and "adv (Pos pre rest) t \<Longrightarrow> length (ahead p) < length (ahead t) \<Longrightarrow> \<not> rx_match r t u"
  using assms
proof (induction rest arbitrary: pre)
  case Nil
  { case 1 then show ?case
      by (cases "match_at r (Pos pre [])") (auto simp: search_from_hit search_from_Nil)
  next
    case 2 then show ?case
      by (cases "match_at r (Pos pre [])") (auto simp: search_from_hit search_from_Nil)
  next
    case 3 then show ?case by (auto simp: adv_Nil) }
next
  case (Cons c cs)
  { case 1 then show ?case
      using Cons.IH(1) by (cases "match_at r (Pos pre (c # cs))")
        (auto simp: search_from_hit search_from_Cons adv_Cons)
  next
    case 2 then show ?case
      using Cons.IH(2) by (cases "match_at r (Pos pre (c # cs))")
        (auto simp: search_from_hit search_from_Cons)
  next
    case 3 then show ?case
      using Cons.IH(3) by (cases "match_at r (Pos pre (c # cs))")
        (auto simp: search_from_hit search_from_Cons adv_Cons match_at_None dest: adv_le) }
qed

lemma search_None:
  "search r s = None \<longleftrightarrow> (\<forall>p q. rev (behind p) @ ahead p = s \<longrightarrow> \<not> rx_match r p q)"
  by (simp add: search_def search_from_None adv_start)

section \<open>All matches\<close>

text \<open>Spans in the order of the text, none overlapping the one before.\<close>

fun chain :: "nat \<Rightarrow> (pos \<times> pos) list \<Rightarrow> bool" where
  "chain lo [] = True"
| "chain lo (m # ms) = (lo \<le> m_start m \<and> m_start m \<le> m_end m \<and> chain (m_end m) ms)"

lemma adv_behind: "adv p q \<Longrightarrow> length (behind p) \<le> length (behind q)"
  by (auto simp: adv_def)

lemma finditer_from_props:
  "(\<forall>(p, q) \<in> set (finditer_from r pre rest). adv (Pos pre rest) p \<and> rx_match r p q) \<and>
   chain (length pre) (finditer_from r pre rest)"
proof (induction r pre rest rule: finditer_from.induct)
  case (1 r pre rest)
  show ?case
  proof (cases "search_from r pre rest")
    case None
    then show ?thesis by (simp add: finditer_from.simps [of r pre rest])
  next
    case (Some pq)
    obtain p q where pq: "pq = (p, q)" by (cases pq)
    with Some have s: "search_from r pre rest = Some (p, q)" by simp
    note a = search_from_Some(1) [OF s]
    have m: "rx_match r p q" using search_from_Some(2) [OF s] by (rule match_at_Some)
    note q = rx_match_adv [OF m]
    have le: "length pre \<le> m_start (p, q)" "m_start (p, q) \<le> m_end (p, q)"
      using adv_behind [OF a] adv_behind [OF q] by (simp_all add: m_start_def m_end_def)
    show ?thesis
    proof (cases "length (ahead q) < length (ahead p)")
      case True
      note IH = "1.IH"(1) [OF Some pq [symmetric] True]
      have "adv (Pos pre rest) (Pos (behind q) (ahead q))"
        using adv_trans [OF a q] by simp
      with IH True s a m le show ?thesis
        by (auto simp: finditer_from.simps [of r pre rest] m_end_def intro: adv_trans)
    next
      case False
      show ?thesis
      proof (cases "ahead p")
        case Nil
        with False s a m le show ?thesis by (simp add: finditer_from.simps [of r pre rest])
      next
        case (Cons c cs)
        note IH = "1.IH"(2) [OF Some pq [symmetric] False Cons]
        have one: "adv p (Pos (c # behind p) cs)"
          using adv_one [of "behind p" c cs] Cons by (metis pos.collapse)
        have "q = p" using adv_same [OF q False] .
        moreover have "chain (m_end (p, p)) ms" if "chain (length (c # behind p)) ms" for ms
          using that by (cases ms) (auto simp: m_end_def)
        ultimately show ?thesis
          using IH False Cons s a m le adv_trans [OF a one]
          by (auto simp: finditer_from.simps [of r pre rest] intro: adv_trans)
      qed
    qed
  qed
qed

lemma finditer_match:
  "(p, q) \<in> set (finditer r s) \<Longrightarrow> rev (behind p) @ ahead p = s \<and> rx_match r p q"
  using finditer_from_props [of r "[]" s] by (auto simp: finditer_def adv_start)

lemma finditer_chain: "chain 0 (finditer r s)"
  using finditer_from_props [of r "[]" s] by (simp add: finditer_def)

section \<open>Patterns that never match the empty text\<close>

primrec min_len :: "rx \<Rightarrow> nat" where
  "min_len Eps = 0"
| "min_len (Class P) = 1"
| "min_len (Seq a b) = min_len a + min_len b"
| "min_len (Alt a b) = min (min_len a) (min_len b)"
| "min_len (Rep m mx r) = m * min_len r"
| "min_len Boundary = 0"
| "min_len (NotBehind P) = 0"
| "min_len (NotAhead P) = 0"

lemma relpowp_min_len:
  assumes "\<And>p q. R p q \<Longrightarrow> length (ahead q) + n \<le> length (ahead p)"
  shows "(R ^^ k) p q \<Longrightarrow> length (ahead q) + k * n \<le> length (ahead p)"
proof (induction k arbitrary: q)
  case (Suc k)
  then obtain t where "(R ^^ k) p t" "R t q" by auto
  with Suc.IH [of t] assms [of t q] show ?case by simp
qed simp

lemma rx_match_min_len: "rx_match r p q \<Longrightarrow> length (ahead q) + min_len r \<le> length (ahead p)"
proof (induction r arbitrary: p q)
  case (Seq a b)
  then obtain t where "rx_match a p t" "rx_match b t q" by auto
  with Seq.IH(1) [of p t] Seq.IH(2) [of t q] show ?case by simp
next
  case (Alt a b)
  then show ?case by (auto simp: min_def dest: Alt.IH)
next
  case (Rep m mx r)
  then obtain k where "m \<le> k" and k: "(rx_match r ^^ k) p q" by auto
  have "length (ahead q) + k * min_len r \<le> length (ahead p)"
    by (rule relpowp_min_len [OF _ k]) (rule Rep.IH)
  moreover have "m * min_len r \<le> k * min_len r" using \<open>m \<le> k\<close> by (rule mult_le_mono1)
  ultimately have "length (ahead q) + m * min_len r \<le> length (ahead p)" by linarith
  then show ?case by simp
qed (auto split: if_splits)

text \<open>Every match of a pattern with positive minimal length covers some text.\<close>

lemma finditer_nonempty:
  assumes "min_len r > 0" and "m \<in> set (finditer r s)"
  shows "m_start m < m_end m"
proof -
  obtain p q where m: "m = (p, q)" by (cases m)
  with assms(2) have "rx_match r p q" by (auto dest: finditer_match)
  then have "length (ahead q) < length (ahead p)"
    using rx_match_min_len [of r p q] assms(1) by simp
  moreover have "adv p q" by (rule rx_match_adv) fact
  ultimately show ?thesis using m by (auto simp: adv_def m_start_def m_end_def)
qed

text \<open>The group of a match is the slice of the text between its start and its end.\<close>

lemma m_group_slice:
  assumes "adv p q" and "rev (behind p) @ ahead p = s"
  shows "m_group (p, q) = take (m_end (p, q) - m_start (p, q)) (drop (m_start (p, q)) s)"
    and "m_end (p, q) \<le> length s"
  using assms by (auto simp: m_group_def m_start_def m_end_def adv_def)

lemma finditer_Nil: "finditer r s = [] \<longleftrightarrow> (\<forall>p q. rev (behind p) @ ahead p = s \<longrightarrow> \<not> rx_match r p q)"
proof -
  have "finditer r s = [] \<longleftrightarrow> search_from r [] s = None"
    by (simp add: finditer_def finditer_from.simps [of r "[]" s] split: option.splits prod.splits)
  then show ?thesis by (simp add: search_from_None adv_start)
qed

end
