(* ===== verification/Pii.thy ===== *)
theory Pii
  imports Regex "HOL-Library.Multiset"
begin

text \<open>
  PII detection and redaction, \<open>governance/pii.py\<close>: the four patterns, the Luhn check,
  \<open>find_pii\<close> and \<open>redact\<close>.
\<close>

section \<open>Patterns\<close>

definition digit :: rx where "digit = Class is_digit"

definition email_re :: rx where
  "email_re = seqs
     [some (Class (\<lambda>c. is_ascii_alnum c \<or> c \<in> set ''._%+-'')), chr CHR ''@'',
      some (Class (\<lambda>c. is_ascii_alnum c \<or> c \<in> set ''.-'')), chr CHR ''.'',
      at_least 2 (Class (\<lambda>c. is_lower c \<or> is_upper c))]"

definition phone_sep :: rx where
  "phone_sep = Class (\<lambda>c. is_space c \<or> c \<in> set ''.-'')"

definition phone_re :: rx where
  "phone_re = seqs
     [NotBehind is_digit,
      opt (seqs [opt (chr CHR ''+''), between 1 2 digit, opt phone_sep]),
      opt (chr CHR ''(''), times 3 digit, opt (chr CHR '')''), phone_sep,
      times 3 digit, phone_sep, times 4 digit, NotAhead is_digit]"

definition credit_card_re :: rx where
  "credit_card_re = seqs
     [NotBehind is_digit, between 13 19 (Seq digit (opt (Class (\<lambda>c. c \<in> set '' -'')))),
      NotAhead is_digit]"

definition ssn_like_re :: rx where
  "ssn_like_re = seqs
     [NotBehind is_digit, times 3 digit, chr CHR ''-'', times 2 digit, chr CHR ''-'',
      times 4 digit, NotAhead is_digit]"

definition entity_patterns :: "(string \<times> rx) list" where
  "entity_patterns =
     [(''email'', email_re), (''phone'', phone_re), (''credit_card'', credit_card_re),
      (''ssn_like'', ssn_like_re)]"

section \<open>The Luhn check\<close>

text \<open>
  \<open>_luhn_valid\<close>: the loop over the reversed digits with the running total. \<open>isdigit\<close> is
  only ever asked about texts the patterns let through; here it is the ASCII digits.
\<close>

definition digit_val :: "char \<Rightarrow> nat" where
  "digit_val c = code c - 48"

fun luhn_total :: "nat \<Rightarrow> string \<Rightarrow> nat \<Rightarrow> nat" where
  "luhn_total i [] acc = acc"
| "luhn_total i (ch # chs) acc =
     (let n = digit_val ch;
          n = (if i mod 2 = 1 then (if 2 * n > 9 then 2 * n - 9 else 2 * n) else n)
      in luhn_total (i + 1) chs (acc + n))"

definition luhn_valid :: "string \<Rightarrow> bool" where
  "luhn_valid digits =
     (if digits = [] \<or> \<not> list_all is_digit digits \<or> \<not> (13 \<le> length digits \<and> length digits \<le> 19)
      then False
      else luhn_total 0 (rev digits) 0 mod 10 = 0)"

section \<open>Detection and redaction\<close>

record pii_hit =
  hit_entity :: string
  hit_match :: string
  hit_start :: nat
  hit_end :: nat

definition hit_of :: "string \<Rightarrow> pos \<times> pos \<Rightarrow> pii_hit" where
  "hit_of entity m =
     \<lparr>hit_entity = entity, hit_match = m_group m, hit_start = m_start m, hit_end = m_end m\<rparr>"

definition entity_hits :: "string \<Rightarrow> string \<Rightarrow> pii_hit list" where
  "entity_hits text entity =
     (case map_of entity_patterns entity of
        None \<Rightarrow> []
      | Some pattern \<Rightarrow> map (hit_of entity)
          (filter (\<lambda>m. entity = ''credit_card'' \<longrightarrow>
                       luhn_valid (filter (\<lambda>c. c \<notin> set '' -'') (m_group m)))
            (finditer pattern text)))"

definition find_pii :: "string \<Rightarrow> string list \<Rightarrow> pii_hit list" where
  "find_pii text entities = concat (map (entity_hits text) entities)"

text \<open>\<open>str.upper\<close> on ASCII.\<close>

definition ascii_upper :: "char \<Rightarrow> char" where
  "ascii_upper c = (if is_lower c then char_of (code c - 32) else c)"

definition placeholder :: "pii_hit \<Rightarrow> string" where
  "placeholder h = ''[REDACTED_'' @ map ascii_upper (hit_entity h) @ '']''"

definition replace_hit :: "pii_hit \<Rightarrow> string \<Rightarrow> string" where
  "replace_hit h text = take (hit_start h) text @ placeholder h @ drop (hit_end h) text"

text \<open>
  \<open>sorted(hits, key=start, reverse=True)\<close> keeps the order of equal starts, so it is the
  stable sort by the negated start.
\<close>

definition redact_order :: "pii_hit list \<Rightarrow> pii_hit list" where
  "redact_order hits = sort_key (\<lambda>h. - int (hit_start h)) hits"

definition redact :: "string \<Rightarrow> pii_hit list \<Rightarrow> string" where
  "redact text hits = fold replace_hit (redact_order hits) text"

section \<open>Spans of hits\<close>

fun hit_chain :: "nat \<Rightarrow> nat \<Rightarrow> pii_hit list \<Rightarrow> bool" where
  "hit_chain n lo [] = True"
| "hit_chain n lo (h # hs) =
     (lo \<le> hit_start h \<and> hit_start h < hit_end h \<and> hit_end h \<le> n \<and> hit_chain n (hit_end h) hs)"

text \<open>
  What redaction is meant to do to hits that lie one after the other: keep the text
  between them and put the placeholder of each in its place.
\<close>

fun splice_hits :: "nat \<Rightarrow> string \<Rightarrow> pii_hit list \<Rightarrow> string" where
  "splice_hits lo text [] = drop lo text"
| "splice_hits lo text (h # hs) =
     take (hit_start h - lo) (drop lo text) @ placeholder h @ splice_hits (hit_end h) text hs"

lemma hit_chain_starts: "hit_chain n lo hs \<Longrightarrow> h \<in> set hs \<Longrightarrow> lo \<le> hit_start h"
proof (induction hs arbitrary: lo)
  case (Cons g gs)
  then show ?case by (auto dest!: Cons.IH)
qed simp

lemma hit_chain_sorted: "hit_chain n lo hs \<Longrightarrow> sorted_wrt (<) (map hit_start hs)"
proof (induction hs arbitrary: lo)
  case (Cons h hs)
  then show ?case by (auto dest: hit_chain_starts)
qed simp

lemma foldr_replace:
  assumes "hit_chain (length text) lo hs" and "lo \<le> length text"
  shows "foldr replace_hit hs text = take lo text @ splice_hits lo text hs"
  using assms
proof (induction hs arbitrary: lo)
  case (Cons h hs)
  then have IH: "foldr replace_hit hs text = take (hit_end h) text @ splice_hits (hit_end h) text hs"
    by simp
  have "take (hit_start h) text = take lo text @ take (hit_start h - lo) (drop lo text)"
    using Cons.prems by (simp flip: take_add)
  moreover have "replace_hit h (take (hit_end h) text @ X) = take (hit_start h) text @ placeholder h @ X"
    for X using Cons.prems by (simp add: replace_hit_def min_def)
  ultimately show ?case by (simp add: IH)
qed simp

lemma filter_key_single:
  assumes "distinct (map f hs)" and "k \<in> set hs"
  shows "filter (\<lambda>x. f k = f x) hs = [k]"
  using assms
proof (induction hs)
  case (Cons h hs)
  show ?case
  proof (cases "k = h")
    case True
    with Cons.prems have "filter (\<lambda>x. f k = f x) hs = []" by (auto simp: filter_empty_conv)
    with True show ?thesis by simp
  next
    case False
    with Cons.prems have k: "k \<in> set hs" by simp
    with Cons have "filter (\<lambda>x. f k = f x) hs = [k]" by simp
    moreover have "f k \<in> f ` set hs" using k by simp
    with Cons.prems have "f k \<noteq> f h" by auto
    ultimately show ?thesis by simp
  qed
qed simp

lemma redact_order_chain:
  assumes chain: "hit_chain n lo hs" and perm: "mset hits = mset hs"
  shows "redact_order hits = rev hs"
  unfolding redact_order_def
proof (rule properties_for_sort_key)
  let ?f = "\<lambda>h. - int (hit_start h)"
  have "sorted_wrt (<) (map hit_start hs)" by (rule hit_chain_sorted) fact
  then show "sorted (map ?f (rev hs))"
    by (auto simp: sorted_wrt_map sorted_wrt_rev rev_map intro: sorted_wrt_mono_rel [rotated])
  have d: "distinct (map hit_start hs)"
    using hit_chain_sorted [OF chain] by (simp add: strict_sorted_iff)
  show "mset (rev hs) = mset hits" using perm by simp
  show "filter (\<lambda>x. ?f k = ?f x) (rev hs) = filter (\<lambda>x. ?f k = ?f x) hits"
    if "k \<in> set (rev hs)" for k
  proof -
    have one: "filter (\<lambda>x. hit_start k = hit_start x) hs = [k]"
      using that by (intro filter_key_single [OF d]) simp
    have "mset (filter (\<lambda>x. hit_start k = hit_start x) hits) =
        mset (filter (\<lambda>x. hit_start k = hit_start x) hs)"
      using perm by simp
    also have "\<dots> = {#k#}" by (simp only: one) simp
    finally have "filter (\<lambda>x. hit_start k = hit_start x) hits = [k]"
      by (simp only: mset_single_iff)
    with one show ?thesis by (simp flip: rev_filter)
  qed
qed

lemma redact_chain:
  assumes "hit_chain (length text) 0 hs" and "mset hits = mset hs"
  shows "redact text hits = splice_hits 0 text hs"
  using foldr_replace [OF assms(1)] redact_order_chain [OF assms]
  by (simp add: redact_def foldr_conv_fold)

section \<open>The detector interface\<close>

text \<open>
  What redaction needs of a detector: its hits lie in the text one after the other. Then
  every one of them, and nothing else, is replaced.
\<close>

locale detector =
  fixes hits_of :: "string \<Rightarrow> pii_hit list"
  assumes in_order: "hit_chain (length t) 0 (hits_of t)"
begin

lemma redact_exact: "redact t (hits_of t) = splice_hits 0 t (hits_of t)"
  by (rule redact_chain [OF in_order refl])

lemma hit_bounds: "h \<in> set (hits_of t) \<Longrightarrow> hit_start h < hit_end h \<and> hit_end h \<le> length t"
proof -
  have "h \<in> set hs \<Longrightarrow> hit_chain n lo hs \<Longrightarrow> hit_start h < hit_end h \<and> hit_end h \<le> n" for hs n lo
    by (induction hs arbitrary: lo) auto
  then show "h \<in> set (hits_of t) \<Longrightarrow> hit_start h < hit_end h \<and> hit_end h \<le> length t"
    using in_order by blast
qed

lemma no_hits_unchanged: "hits_of t = [] \<Longrightarrow> redact t (hits_of t) = t"
  using redact_exact [of t] by simp

end

lemma chain_weaken: "chain lo ms \<Longrightarrow> lo' \<le> lo \<Longrightarrow> chain lo' ms"
  by (cases ms) auto

lemma chain_filter: "chain lo ms \<Longrightarrow> chain lo (filter P ms)"
proof (induction ms arbitrary: lo)
  case (Cons m ms)
  then show ?case by (auto intro: chain_weaken)
qed simp

lemma hit_chain_of:
  assumes "chain lo ms" and "\<forall>m \<in> set ms. m_start m < m_end m \<and> m_end m \<le> n"
  shows "hit_chain n lo (map (hit_of e) ms)"
  using assms by (induction ms arbitrary: lo) (auto simp: hit_of_def)

lemma min_len_patterns [simp]:
  "min_len email_re = 6" "min_len phone_re = 12" "min_len credit_card_re = 13" "min_len ssn_like_re = 11"
  by (simp_all add: email_re_def phone_re_def credit_card_re_def ssn_like_re_def phone_sep_def
      digit_def rx_sugar)

lemma entity_pattern_pos: "map_of entity_patterns e = Some r \<Longrightarrow> min_len r > 0"
  by (auto simp: entity_patterns_def split: if_splits)

lemma finditer_in_text: "m \<in> set (finditer r s) \<Longrightarrow> m_end m \<le> length s"
  by (cases m) (auto dest!: finditer_match intro: m_group_slice(2) rx_match_adv)

lemma entity_hits_chain: "hit_chain (length t) 0 (entity_hits t e)"
proof (cases "map_of entity_patterns e")
  case None
  then show ?thesis by (simp add: entity_hits_def)
next
  case (Some r)
  show ?thesis
    unfolding entity_hits_def Some option.case
    by (intro hit_chain_of chain_filter finditer_chain)
      (auto intro: finditer_in_text finditer_nonempty [OF entity_pattern_pos [OF Some]])
qed

interpretation entity: detector "\<lambda>t. entity_hits t e" for e
  by unfold_locales (rule entity_hits_chain)

section \<open>Detection is sound and complete for the patterns\<close>

lemma entity_hits_sound:
  assumes "h \<in> set (entity_hits text e)"
  shows "hit_entity h = e \<and> (\<exists>r p q. map_of entity_patterns e = Some r \<and>
    rev (behind p) @ ahead p = text \<and> rx_match r p q \<and>
    hit_start h = length (behind p) \<and> hit_end h = length (behind q)) \<and>
    hit_match h = take (hit_end h - hit_start h) (drop (hit_start h) text) \<and>
    (if e = ''credit_card'' then luhn_valid (filter (\<lambda>c. c \<notin> set '' -'') (hit_match h)) else True)"
proof -
  from assms obtain r p q where r: "map_of entity_patterns e = Some r"
    and m: "(p, q) \<in> set (finditer r text)" and h: "h = hit_of e (p, q)"
    and l: "e = ''credit_card'' \<longrightarrow> luhn_valid (filter (\<lambda>c. c \<notin> set '' -'') (m_group (p, q)))"
    by (force simp: entity_hits_def split: option.splits)
  from finditer_match [OF m] have whole: "rev (behind p) @ ahead p = text" and rx: "rx_match r p q"
    by auto
  have "hit_match h = take (hit_end h - hit_start h) (drop (hit_start h) text)"
    using m_group_slice(1) [OF rx_match_adv [OF rx] whole] by (simp add: h hit_of_def)
  then show ?thesis
    using r whole rx l by (auto simp: h hit_of_def m_start_def m_end_def)
qed

lemma entity_hits_complete:
  assumes "map_of entity_patterns e = Some r" and "e \<noteq> ''credit_card''"
  shows "entity_hits text e = [] \<longleftrightarrow> (\<forall>p q. rev (behind p) @ ahead p = text \<longrightarrow> \<not> rx_match r p q)"
  using assms by (simp add: entity_hits_def finditer_Nil)

lemma entity_hits_entity: "h \<in> set (entity_hits text e) \<Longrightarrow> hit_entity h = e"
  using entity_hits_sound by blast

section \<open>The Luhn check catches every one-digit error\<close>

definition luhn_term :: "nat \<Rightarrow> char \<Rightarrow> nat" where
  "luhn_term i c =
     (let n = digit_val c in if i mod 2 = 1 then (if 2 * n > 9 then 2 * n - 9 else 2 * n) else n)"

lemma luhn_total_Cons: "luhn_total i (c # cs) acc = luhn_total (i + 1) cs (acc + luhn_term i c)"
  by (simp add: luhn_term_def Let_def)

lemma luhn_total_acc: "luhn_total i cs (acc + n) = luhn_total i cs acc + n"
proof (induction cs arbitrary: i acc)
  case (Cons c cs)
  have "luhn_total i (c # cs) (acc + n) = luhn_total (i + 1) cs ((acc + luhn_term i c) + n)"
    unfolding luhn_total_Cons by (simp add: ac_simps)
  also have "\<dots> = luhn_total (i + 1) cs (acc + luhn_term i c) + n" by (rule Cons.IH)
  finally show ?case unfolding luhn_total_Cons .
qed simp

lemma luhn_total_update:
  "k < length cs \<Longrightarrow>
   luhn_total i (cs[k := c]) acc + luhn_term (i + k) (cs ! k) =
     luhn_total i cs acc + luhn_term (i + k) c"
proof (induction cs arbitrary: i k acc)
  case (Cons d cs)
  show ?case
  proof (cases k)
    case 0
    then show ?thesis
      by (simp add: luhn_total_Cons luhn_total_acc del: luhn_total.simps)
  next
    case (Suc j)
    with Cons.prems Cons.IH [of j "i + 1" "acc + luhn_term i d"] show ?thesis
      by (simp add: luhn_total_Cons del: luhn_total.simps)
  qed
qed simp

lemma digit_val_bound: "is_digit c \<Longrightarrow> digit_val c < 10"
  by (auto simp: is_digit_def digit_val_def)

lemma digit_val_inj: "is_digit c \<Longrightarrow> is_digit d \<Longrightarrow> digit_val c = digit_val d \<Longrightarrow> c = d"
proof -
  assume a: "is_digit c" "is_digit d" "digit_val c = digit_val d"
  then have "code c = code d" by (auto simp: is_digit_def digit_val_def)
  then show "c = d" by (simp add: code_def)
qed

lemma luhn_term_inj:
  assumes "is_digit c" "is_digit d" "luhn_term i c mod 10 = luhn_term i d mod 10"
  shows "c = d"
proof (rule digit_val_inj [OF assms(1,2)])
  have "digit_val c < 10" "digit_val d < 10" using assms by (auto intro: digit_val_bound)
  with assms(3) show "digit_val c = digit_val d"
    by (auto simp: luhn_term_def Let_def split: if_splits) presburger+
qed

section \<open>Properties\<close>

text \<open>
  Soundness of detection: every hit is for a requested entity that has a pattern, the
  pattern matches at the hit's span, the span is not empty and lies in the text, the hit's
  text is that slice, and a credit card number passes the Luhn check.
\<close>

theorem find_pii_sound:
  "set (find_pii text es) \<subseteq>
   {h. hit_entity h \<in> set es \<and>
       (\<exists>r p q. map_of entity_patterns (hit_entity h) = Some r \<and>
          rev (behind p) @ ahead p = text \<and> rx_match r p q \<and>
          hit_start h = length (behind p) \<and> hit_end h = length (behind q)) \<and>
       hit_match h = take (hit_end h - hit_start h) (drop (hit_start h) text) \<and>
       hit_start h < hit_end h \<and> hit_end h \<le> length text \<and>
       (if hit_entity h = ''credit_card''
        then luhn_valid (filter (\<lambda>c. c \<notin> set '' -'') (hit_match h)) else True)}"
proof
  fix h
  assume "h \<in> set (find_pii text es)"
  then obtain e where e: "e \<in> set es" "h \<in> set (entity_hits text e)" by (auto simp: find_pii_def)
  with entity_hits_sound [OF e(2)] entity.hit_bounds [OF e(2)]
  show "h \<in> {h. hit_entity h \<in> set es \<and>
       (\<exists>r p q. map_of entity_patterns (hit_entity h) = Some r \<and>
          rev (behind p) @ ahead p = text \<and> rx_match r p q \<and>
          hit_start h = length (behind p) \<and> hit_end h = length (behind q)) \<and>
       hit_match h = take (hit_end h - hit_start h) (drop (hit_start h) text) \<and>
       hit_start h < hit_end h \<and> hit_end h \<le> length text \<and>
       (if hit_entity h = ''credit_card''
        then luhn_valid (filter (\<lambda>c. c \<notin> set '' -'') (hit_match h)) else True)}"
    by auto
qed

text \<open>
  Completeness of detection: a requested entity other than the credit card is reported
  exactly if its pattern matches somewhere in the text.
\<close>

theorem find_pii_complete:
  assumes "e \<in> set es" and "map_of entity_patterns e = Some r" and "e \<noteq> ''credit_card''"
  shows "(\<exists>h \<in> set (find_pii text es). hit_entity h = e) \<longleftrightarrow>
    (\<exists>p q. rev (behind p) @ ahead p = text \<and> rx_match r p q)"
proof -
  have "(\<exists>h \<in> set (find_pii text es). hit_entity h = e) \<longleftrightarrow> (\<exists>h. h \<in> set (entity_hits text e))"
    using assms(1) entity_hits_entity by (fastforce simp: find_pii_def)
  then have "(\<exists>h \<in> set (find_pii text es). hit_entity h = e) \<longleftrightarrow> entity_hits text e \<noteq> []"
    by (simp flip: ex_in_conv set_empty)
  with entity_hits_complete [OF assms(2,3), of "text"] show ?thesis by auto
qed

theorem find_pii_complete_witness:
  "\<exists>p q. rev (behind p) @ ahead p = ''mail jane@example.com now'' \<and> rx_match email_re p q"
proof -
  have "\<exists>h \<in> set (find_pii ''mail jane@example.com now'' [''phone'', ''email'']). hit_entity h = ''email''"
    by code_simp
  with find_pii_complete [of "''email''" "[''phone'', ''email'']" email_re "''mail jane@example.com now''"]
  show ?thesis by (simp add: entity_patterns_def)
qed

text \<open>
  Redaction of the hits of one entity is exact: the result is the text with each hit,
  and nothing else, replaced by its placeholder.
\<close>

theorem redact_one_entity_exact:
  "redact text (find_pii text [e]) = splice_hits 0 text (find_pii text [e])"
  using entity.redact_exact by (simp add: find_pii_def)

text \<open>
  C38. Redaction of hits of several entities is exact whenever the hits, taken in the order
  of the text, lie one after the other, in whatever order they were found.
\<close>

theorem redact_disjoint_exact:
  assumes "hit_chain (length text) 0 hs" and "mset (find_pii text es) = mset hs"
  shows "redact text (find_pii text es) = splice_hits 0 text hs"
  using assms by (rule redact_chain)

theorem redact_disjoint_exact_witness:
  "redact ''a@b.org 123-45-6789'' (find_pii ''a@b.org 123-45-6789'' [''ssn_like'', ''email'']) =
   ''[REDACTED_EMAIL] [REDACTED_SSN_LIKE]''"
proof -
  let ?t = "''a@b.org 123-45-6789''"
  let ?hs = "rev (find_pii ?t [''ssn_like'', ''email''])"
  have "hit_chain (length ?t) 0 ?hs" by code_simp
  moreover have "mset (find_pii ?t [''ssn_like'', ''email'']) = mset ?hs" by simp
  ultimately have "redact ?t (find_pii ?t [''ssn_like'', ''email'']) = splice_hits 0 ?t ?hs"
    by (rule redact_disjoint_exact)
  also have "\<dots> = ''[REDACTED_EMAIL] [REDACTED_SSN_LIKE]''" by code_simp
  finally show ?thesis .
qed

text \<open>
  Hits of different entities may overlap, and then redaction is not exact: with the
  entities of the shipped policy, a text that as a whole is one detected e-mail address,
  with a number inside it that is detected too, keeps the address's domain.
\<close>

theorem redact_nested_leak:
  "map (\<lambda>h. (hit_entity h, hit_match h))
     (find_pii ''x.123-45-6789@acme.org'' [''email'', ''phone'', ''credit_card'', ''ssn_like'']) =
     [(''email'', ''x.123-45-6789@acme.org''), (''ssn_like'', ''123-45-6789'')] \<and>
   redact ''x.123-45-6789@acme.org''
     (find_pii ''x.123-45-6789@acme.org'' [''email'', ''phone'', ''credit_card'', ''ssn_like'']) =
     ''[REDACTED_EMAIL]acme.org''"
proof
  show "map (\<lambda>h. (hit_entity h, hit_match h))
     (find_pii ''x.123-45-6789@acme.org'' [''email'', ''phone'', ''credit_card'', ''ssn_like'']) =
     [(''email'', ''x.123-45-6789@acme.org''), (''ssn_like'', ''123-45-6789'')]"
    by code_simp
  show "redact ''x.123-45-6789@acme.org''
     (find_pii ''x.123-45-6789@acme.org'' [''email'', ''phone'', ''credit_card'', ''ssn_like'']) =
     ''[REDACTED_EMAIL]acme.org''"
    by code_simp
qed

text \<open>
  The Luhn check catches every one-digit error: changing one digit of a number it
  accepts gives a number it rejects.
\<close>

theorem luhn_detects_digit_change:
  assumes valid: "luhn_valid ds" and k: "k < length ds" and c: "is_digit c" "c \<noteq> ds ! k"
  shows "\<not> luhn_valid (ds[k := c])"
proof
  assume valid': "luhn_valid (ds[k := c])"
  let ?j = "length ds - 1 - k"
  have rev: "rev (ds[k := c]) = (rev ds)[?j := c]" "?j < length (rev ds)" "rev ds ! ?j = ds ! k"
    using k by (auto simp: rev_update rev_nth)
  have "luhn_total 0 (rev ds) 0 mod 10 = 0" "luhn_total 0 ((rev ds)[?j := c]) 0 mod 10 = 0"
    using valid valid' rev(1) by (auto simp: luhn_valid_def split: if_splits)
  with luhn_total_update [OF rev(2), of 0 c 0] rev(3)
  have "luhn_term ?j (ds ! k) mod 10 = luhn_term ?j c mod 10"
    by (metis add_0 mod_add_left_eq)
  moreover have "is_digit (ds ! k)"
    using valid k by (auto simp: luhn_valid_def list_all_length split: if_splits)
  ultimately show False using luhn_term_inj [of "ds ! k" c ?j] c by auto
qed

theorem luhn_detects_digit_change_witness:
  "\<not> luhn_valid ''4111111111111112''"
proof -
  have "luhn_valid ''4111111111111111''" by code_simp
  from luhn_detects_digit_change [OF this, of 15 "CHR ''2''"] show ?thesis
    by (simp add: is_digit_def code_def)
qed

end
