(* ===== verification/Guardrails.thy ===== *)
theory Guardrails
  imports Pii Screening
begin

text \<open>
  The guardrail policy set of \<open>governance/policies.py\<close> and the pre/post pass of
  \<open>governance/pipeline.py\<close>, which composes the PII and injection checks on a request and
  the secret check on a response. \<open>screen_request\<close> and \<open>screen_response\<close> are the two
  methods of \<open>GuardrailPipeline\<close>; a missing default policy is the \<open>KeyError\<close> that
  \<open>self.tenants[...]\<close> raises.
\<close>

section \<open>Policies\<close>

record pii_config =
  pii_enabled :: bool
  pii_action :: string
  pii_entities :: "string list"

record prompt_injection_config =
  inj_enabled :: bool
  inj_action :: string

record secret_leak_config =
  leak_enabled :: bool
  leak_action :: string

record guardrail_policy =
  gp_pii :: pii_config
  gp_prompt_injection :: prompt_injection_config
  gp_max_input_chars :: int
  gp_output_validation_enabled :: bool
  gp_secret_leak :: secret_leak_config

record policy_set =
  ps_version :: int
  ps_default :: string
  ps_tenants :: "(string \<times> guardrail_policy) list"

text \<open>
  \<open>self.tenants.get(name, self.tenants[default])\<close>: the second argument is evaluated
  whether or not \<open>name\<close> is there.
\<close>

definition for_policy_name :: "policy_set \<Rightarrow> string option \<Rightarrow> guardrail_policy result" where
  "for_policy_name ps policy_name =
     (let name = opt_str_or policy_name (ps_default ps)
      in case map_of (ps_tenants ps) (ps_default ps) of
           None \<Rightarrow> Inl (KeyError (py_repr (ps_default ps)))
         | Some fallback \<Rightarrow>
             (case map_of (ps_tenants ps) name of
                None \<Rightarrow> Inr fallback
              | Some policy \<Rightarrow> Inr policy))"

section \<open>The pipeline\<close>

record guardrail_hit =
  gh_rule :: string
  gh_action :: string
  gh_detail :: "string list"

record guardrail_result =
  gr_allowed :: bool
  gr_text :: string
  gr_hits :: "guardrail_hit list"
  gr_block_reason :: "string option"

definition blocked_result :: "string \<Rightarrow> guardrail_hit list \<Rightarrow> string \<Rightarrow> guardrail_result" where
  "blocked_result text hits reason =
     \<lparr>gr_allowed = False, gr_text = text, gr_hits = hits, gr_block_reason = Some reason\<rparr>"

definition allowed_result :: "string \<Rightarrow> guardrail_hit list \<Rightarrow> guardrail_result" where
  "allowed_result text hits =
     \<lparr>gr_allowed = True, gr_text = text, gr_hits = hits, gr_block_reason = None\<rparr>"

text \<open>The PII stage of \<open>screen_request\<close>, given the hits so far.\<close>

definition pii_stage :: "pii_config \<Rightarrow> string \<Rightarrow> guardrail_hit list \<Rightarrow> guardrail_result" where
  "pii_stage cfg text hits =
     (if pii_enabled cfg then
        (let found = find_pii text (pii_entities cfg)
         in if found = [] then allowed_result text hits
            else
              (let hits = hits @ [\<lparr>gh_rule = ''pii'', gh_action = pii_action cfg,
                                   gh_detail = map hit_entity found\<rparr>]
               in if pii_action cfg = ''block'' then blocked_result text hits ''PII detected in input''
                  else allowed_result (redact text found) hits))
      else allowed_result text hits)"

definition screen_with :: "guardrail_policy \<Rightarrow> string \<Rightarrow> guardrail_result" where
  "screen_with policy text =
     (let inj = gp_prompt_injection policy
      in if int (length text) > gp_max_input_chars policy then
           blocked_result text
             [\<lparr>gh_rule = ''max_input_chars'', gh_action = ''block'', gh_detail = []\<rparr>]
             (''input exceeds max_input_chars ('' @ int_str (gp_max_input_chars policy) @ '')'')
         else if inj_enabled inj then
           (let injection_hits = screen_for_injection text
            in if injection_hits = [] then pii_stage (gp_pii policy) text []
               else
                 (let hits = [\<lparr>gh_rule = ''prompt_injection'', gh_action = inj_action inj,
                               gh_detail = map inj_match injection_hits\<rparr>]
                  in if inj_action inj = ''block''
                     then blocked_result text hits ''prompt injection detected''
                     else pii_stage (gp_pii policy) text hits))
         else pii_stage (gp_pii policy) text [])"

definition screen_request :: "policy_set \<Rightarrow> string \<Rightarrow> string option \<Rightarrow> guardrail_result result" where
  "screen_request ps text policy_name =
     (case for_policy_name ps policy_name of
        Inl e \<Rightarrow> Inl e
      | Inr policy \<Rightarrow> Inr (screen_with policy text))"

definition screen_response :: "policy_set \<Rightarrow> string \<Rightarrow> string option \<Rightarrow> guardrail_result result" where
  "screen_response ps text policy_name =
     (case for_policy_name ps policy_name of
        Inl e \<Rightarrow> Inl e
      | Inr policy \<Rightarrow>
          (let leak = gp_secret_leak policy
           in if leak_enabled leak then
                (let secret_hits = find_secrets text
                 in if secret_hits = [] then Inr (allowed_result text [])
                    else
                      (let hits = [\<lparr>gh_rule = ''secret_leak'', gh_action = leak_action leak,
                                    gh_detail = map sec_kind secret_hits\<rparr>]
                       in if leak_action leak = ''block''
                          then Inr (blocked_result text hits ''secret leak detected in output'')
                          else Inr (allowed_result text hits)))
              else Inr (allowed_result text [])))"

section \<open>The shipped policies\<close>

text \<open>\<open>policies/guardrails.yaml\<close>, as \<open>GuardrailPolicySet.from_yaml\<close> loads it.\<close>

definition shipped_entities :: "string list" where
  "shipped_entities = [''email'', ''phone'', ''credit_card'', ''ssn_like'']"

definition standard_policy :: guardrail_policy where
  "standard_policy =
     \<lparr>gp_pii = \<lparr>pii_enabled = True, pii_action = ''redact'', pii_entities = shipped_entities\<rparr>,
      gp_prompt_injection = \<lparr>inj_enabled = True, inj_action = ''block''\<rparr>,
      gp_max_input_chars = 20000,
      gp_output_validation_enabled = True,
      gp_secret_leak = \<lparr>leak_enabled = True, leak_action = ''block''\<rparr>\<rparr>"

definition legal_hold_policy :: guardrail_policy where
  "legal_hold_policy =
     \<lparr>gp_pii = \<lparr>pii_enabled = True, pii_action = ''block'', pii_entities = shipped_entities\<rparr>,
      gp_prompt_injection = \<lparr>inj_enabled = True, inj_action = ''block''\<rparr>,
      gp_max_input_chars = 8000,
      gp_output_validation_enabled = True,
      gp_secret_leak = \<lparr>leak_enabled = True, leak_action = ''block''\<rparr>\<rparr>"

definition guardrails_yaml :: policy_set where
  "guardrails_yaml =
     \<lparr>ps_version = 1, ps_default = ''standard'',
      ps_tenants = [(''standard'', standard_policy), (''legal_hold'', legal_hold_policy)]\<rparr>"

section \<open>When a stage fires\<close>

text \<open>What the policy and the text have to be for each stage to block, by the patterns.\<close>

definition too_long :: "guardrail_policy \<Rightarrow> string \<Rightarrow> bool" where
  "too_long policy text \<longleftrightarrow> gp_max_input_chars policy < int (length text)"

definition injected :: "guardrail_policy \<Rightarrow> string \<Rightarrow> bool" where
  "injected policy text \<longleftrightarrow> inj_enabled (gp_prompt_injection policy) \<and>
     (\<exists>(src, r) \<in> set injection_patterns. occurs r text)"

definition has_pii :: "guardrail_policy \<Rightarrow> string \<Rightarrow> bool" where
  "has_pii policy text \<longleftrightarrow> pii_enabled (gp_pii policy) \<and>
     find_pii text (pii_entities (gp_pii policy)) \<noteq> []"

definition leaks :: "guardrail_policy \<Rightarrow> string \<Rightarrow> bool" where
  "leaks policy text \<longleftrightarrow> leak_enabled (gp_secret_leak policy) \<and>
     (\<exists>(kind, r) \<in> set secret_patterns. occurs r text)"

lemma concat_map_not_Nil:
  assumes "\<And>x. x \<in> set xs \<Longrightarrow> f x \<noteq> [] \<longleftrightarrow> P x"
  shows "concat (map f xs) \<noteq> [] \<longleftrightarrow> (\<exists>x \<in> set xs. P x)"
  using assms by auto

lemma injection_hits_iff:
  "screen_for_injection text \<noteq> [] \<longleftrightarrow> (\<exists>(src, r) \<in> set injection_patterns. occurs r text)"
  unfolding screen_for_injection_def search_occurs [symmetric]
  by (rule concat_map_not_Nil) (auto split: option.splits)

lemma secret_hits_iff:
  "find_secrets text \<noteq> [] \<longleftrightarrow> (\<exists>(kind, r) \<in> set secret_patterns. occurs r text)"
  unfolding find_secrets_def search_occurs [symmetric]
  by (rule concat_map_not_Nil) (auto split: option.splits)

lemmas result_defs = blocked_result_def allowed_result_def

lemma screen_with_allowed:
  "gr_allowed (screen_with policy text) \<longleftrightarrow>
     \<not> too_long policy text \<and>
     \<not> (injected policy text \<and> inj_action (gp_prompt_injection policy) = ''block'') \<and>
     \<not> (has_pii policy text \<and> pii_action (gp_pii policy) = ''block'')"
  unfolding too_long_def injected_def has_pii_def injection_hits_iff [symmetric]
  by (simp add: screen_with_def pii_stage_def result_defs Let_def)

lemma screen_with_text:
  "gr_text (screen_with policy text) =
     (if gr_allowed (screen_with policy text) \<and> has_pii policy text
      then redact text (find_pii text (pii_entities (gp_pii policy))) else text)"
  by (cases "screen_for_injection text = []";
      cases "find_pii text (pii_entities (gp_pii policy)) = []")
     (simp_all add: screen_with_def pii_stage_def result_defs Let_def has_pii_def)

lemma for_policy_name_cases:
  assumes "map_of (ps_tenants ps) (ps_default ps) = Some fallback"
  shows "for_policy_name ps n =
    Inr (case map_of (ps_tenants ps) (opt_str_or n (ps_default ps)) of
           None \<Rightarrow> fallback | Some policy \<Rightarrow> policy)"
  using assms by (simp add: for_policy_name_def Let_def split: option.splits)

lemma screen_with_rules:
  "map gh_rule (gr_hits (screen_with policy text)) =
     (if too_long policy text then [''max_input_chars'']
      else if injected policy text \<and> inj_action (gp_prompt_injection policy) = ''block''
        then [''prompt_injection'']
      else (if injected policy text then [''prompt_injection''] else []) @
           (if has_pii policy text then [''pii''] else []))"
  unfolding too_long_def injected_def has_pii_def injection_hits_iff [symmetric]
  by (cases "screen_for_injection text = []";
      cases "find_pii text (pii_entities (gp_pii policy)) = []")
     (simp_all add: screen_with_def pii_stage_def result_defs Let_def)

section \<open>Properties\<close>

text \<open>
  C37. The decision of the request screen: the request is allowed exactly if the text is not
  over the limit, no injection pattern occurs in it under a blocking rule, and no PII is found
  in it under a blocking rule. A refused text is handed back as it was; an allowed one is the
  text with what was found redacted. The rules that fired are all reported, up to and
  including the one that blocks.
\<close>

theorem screen_request_decision:
  assumes "for_policy_name ps name = Inr policy"
  shows "\<exists>r. screen_request ps text name = Inr r \<and>
    (gr_allowed r \<longleftrightarrow>
       \<not> too_long policy text \<and>
       \<not> (injected policy text \<and> inj_action (gp_prompt_injection policy) = ''block'') \<and>
       \<not> (has_pii policy text \<and> pii_action (gp_pii policy) = ''block'')) \<and>
    gr_text r = (if gr_allowed r \<and> has_pii policy text
                 then redact text (find_pii text (pii_entities (gp_pii policy))) else text) \<and>
    map gh_rule (gr_hits r) =
      (if too_long policy text then [''max_input_chars'']
       else if injected policy text \<and> inj_action (gp_prompt_injection policy) = ''block''
         then [''prompt_injection'']
       else (if injected policy text then [''prompt_injection''] else []) @
            (if has_pii policy text then [''pii''] else []))"
  using assms screen_with_allowed [of policy "text"] screen_with_text [of policy "text"]
    screen_with_rules [of policy "text"]
  by (intro exI [of _ "screen_with policy text"]) (simp add: screen_request_def)

theorem screen_request_decision_witness:
  "screen_request guardrails_yaml ''mail jane@example.com now'' None =
     Inr \<lparr>gr_allowed = True, gr_text = ''mail [REDACTED_EMAIL] now'',
          gr_hits = [\<lparr>gh_rule = ''pii'', gh_action = ''redact'', gh_detail = [''email'']\<rparr>],
          gr_block_reason = None\<rparr> \<and>
   \<not> injected standard_policy ''mail jane@example.com now''"
proof
  let ?t = "''mail jane@example.com now''"
  show run: "screen_request guardrails_yaml ?t None =
     Inr \<lparr>gr_allowed = True, gr_text = ''mail [REDACTED_EMAIL] now'',
          gr_hits = [\<lparr>gh_rule = ''pii'', gh_action = ''redact'', gh_detail = [''email'']\<rparr>],
          gr_block_reason = None\<rparr>"
    by code_simp
  have "for_policy_name guardrails_yaml None = Inr standard_policy"
    by (simp add: for_policy_name_def guardrails_yaml_def)
  from screen_request_decision [OF this, of ?t]
  show "\<not> injected standard_policy ?t"
    by (auto simp: run standard_policy_def)
qed

text \<open>
  The \<open>legal_hold\<close> profile never rewrites: whatever it lets through is the caller's text
  itself, at most 8000 characters long, in which no injection pattern and no e-mail, phone or
  SSN pattern matches anywhere.
\<close>

theorem legal_hold_never_rewrites:
  assumes "screen_request guardrails_yaml text (Some ''legal_hold'') = Inr r" and "gr_allowed r"
  shows "gr_text r = text \<and> length text \<le> 8000 \<and>
    list_all (\<lambda>(src, re). \<not> occurs re text) injection_patterns \<and>
    list_all (\<lambda>re. \<not> occurs re text) [email_re, phone_re, ssn_like_re]"
proof -
  let ?p = legal_hold_policy
  have policy: "for_policy_name guardrails_yaml (Some ''legal_hold'') = Inr ?p"
    by (simp add: for_policy_name_def guardrails_yaml_def opt_str_or_def str_or_def)
  then have r: "r = screen_with ?p text" using assms(1) by (simp add: screen_request_def)
  have no: "\<not> too_long ?p text" "\<not> injected ?p text" "\<not> has_pii ?p text"
    using screen_with_allowed [of ?p "text"] assms(2)
    by (auto simp: r legal_hold_policy_def)
  have none: "\<not> occurs re text"
    if "e \<in> set shipped_entities" "map_of entity_patterns e = Some re" "e \<noteq> ''credit_card''" for e re
  proof
    assume "occurs re text"
    then have "entity_hits text e \<noteq> []"
      using entity_hits_complete [OF that(2,3)] by (auto simp: occurs_def)
    then have "find_pii text shipped_entities \<noteq> []" using that(1) by (auto simp: find_pii_def)
    with no(3) show False by (simp add: has_pii_def legal_hold_policy_def)
  qed
  have "\<not> occurs email_re text" "\<not> occurs phone_re text" "\<not> occurs ssn_like_re text"
    by (rule none [of "''email''"] none [of "''phone''"] none [of "''ssn_like''"];
        simp add: shipped_entities_def entity_patterns_def)+
  then show ?thesis
    using screen_with_text [of ?p "text"] no
    by (auto simp: r too_long_def injected_def legal_hold_policy_def list_all_iff)
qed

theorem legal_hold_never_rewrites_witness:
  "\<not> occurs phone_re ''summarise clause 14 of the lease''"
proof -
  let ?t = "''summarise clause 14 of the lease''"
  have "screen_request guardrails_yaml ?t (Some ''legal_hold'') = Inr (allowed_result ?t [])"
    by code_simp
  from legal_hold_never_rewrites [OF this] show ?thesis by (simp add: allowed_result_def)
qed

text \<open>
  The response screen never alters the text. It refuses exactly if a secret pattern occurs
  in it under a blocking rule, and it reports the leak also when the rule does not block.
\<close>

theorem screen_response_decision:
  assumes "for_policy_name ps name = Inr policy"
  shows "\<exists>r. screen_response ps text name = Inr r \<and> gr_text r = text \<and>
    (gr_allowed r \<longleftrightarrow> \<not> (leaks policy text \<and> leak_action (gp_secret_leak policy) = ''block'')) \<and>
    map gh_rule (gr_hits r) = (if leaks policy text then [''secret_leak''] else [])"
  unfolding leaks_def secret_hits_iff [symmetric]
  using assms by (simp add: screen_response_def result_defs Let_def)

theorem screen_response_decision_witness:
  "\<exists>r. screen_response guardrails_yaml ''token: abcdefghijklmnopqrstuvwxyz'' None = Inr r \<and>
     gr_text r = ''token: abcdefghijklmnopqrstuvwxyz'' \<and> \<not> gr_allowed r"
proof -
  let ?t = "''token: abcdefghijklmnopqrstuvwxyz''"
  have "for_policy_name guardrails_yaml None = Inr standard_policy"
    by (simp add: for_policy_name_def guardrails_yaml_def)
  from screen_response_decision [OF this, of ?t] obtain r where
    r: "screen_response guardrails_yaml ?t None = Inr r" "gr_text r = ?t"
      "gr_allowed r \<longleftrightarrow> \<not> (leaks standard_policy ?t \<and>
         leak_action (gp_secret_leak standard_policy) = ''block'')" by blast
  have "find_secrets ?t \<noteq> []" by code_simp
  then have "leaks standard_policy ?t"
    by (simp only: leaks_def secret_hits_iff) (simp add: standard_policy_def)
  with r show ?thesis by (simp add: standard_policy_def)
qed

text \<open>
  A policy set whose default profile is missing fails on every request and response, also
  for a tenant whose own profile is configured: \<open>dict.get\<close> evaluates its second argument
  first.
\<close>

theorem missing_default_fails_everyone:
  assumes "map_of (ps_tenants ps) (ps_default ps) = None"
  shows "screen_request ps text name = Inl (KeyError (py_repr (ps_default ps))) \<and>
    screen_response ps text name = Inl (KeyError (py_repr (ps_default ps)))"
  using assms by (simp add: screen_request_def screen_response_def for_policy_name_def Let_def)

theorem missing_default_fails_everyone_witness:
  "screen_request \<lparr>ps_version = 1, ps_default = ''standard'',
     ps_tenants = [(''legal_hold'', legal_hold_policy)]\<rparr> ''hello'' (Some ''legal_hold'') =
   Inl (KeyError (py_repr ''standard''))"
proof -
  let ?ps = "\<lparr>ps_version = 1, ps_default = ''standard'',
     ps_tenants = [(''legal_hold'', legal_hold_policy)]\<rparr>"
  have "map_of (ps_tenants ?ps) (ps_default ?ps) = None" by simp
  from missing_default_fails_everyone [OF this, of "''hello''" "Some ''legal_hold''"]
  show ?thesis by simp
qed

end
