(* ===== verification/Provider_Base.thy ===== *)
theory Provider_Base
  imports Json
begin

text \<open>
  The provider-agnostic data of \<open>providers/base.py\<close>: roles, messages, tool
  specifications and calls, usage, chat and embedding requests and responses, and the
  provider interface \<open>LLMProvider\<close>. A provider is code this development does not
  control (a network service behind an SDK), so its operations are functions of the
  record \<open>provider\<close> on an unspecified outside world \<open>'w\<close>: a call sees the request and
  the world, and returns an exception or a response and the world after it.
\<close>

datatype role = SYSTEM | USER | ASSISTANT | TOOL

text \<open>The \<open>StrEnum\<close> values.\<close>

fun role_value :: "role \<Rightarrow> string" where
  "role_value SYSTEM = ''system''"
| "role_value USER = ''user''"
| "role_value ASSISTANT = ''assistant''"
| "role_value TOOL = ''tool''"

record chat_message =
  msg_role :: role
  msg_content :: string
  msg_tool_call_id :: "string option"
  msg_name :: "string option"

text \<open>\<open>ChatMessage(role=..., content=...)\<close> with the other fields at their defaults.\<close>

definition chat_message :: "role \<Rightarrow> string \<Rightarrow> chat_message" where
  "chat_message r c =
     \<lparr>msg_role = r, msg_content = c, msg_tool_call_id = None, msg_name = None\<rparr>"

record tool_spec =
  spec_name :: string
  spec_description :: string
  spec_parameters :: jdict

record tool_call =
  call_id :: string
  call_name :: string
  call_arguments :: jdict

record usage =
  input_tokens :: int
  output_tokens :: int

definition total_tokens :: "usage \<Rightarrow> int" where
  "total_tokens u = input_tokens u + output_tokens u"

record chat_request =
  req_messages :: "chat_message list"
  req_model :: string
  req_tools :: "tool_spec list"
  req_temperature :: real
  req_max_output_tokens :: int
  req_tenant_id :: string
  req_request_id :: string

record chat_response =
  resp_message :: chat_message
  resp_tool_calls :: "tool_call list"
  resp_usage :: usage
  resp_provider_name :: string
  resp_model :: string
  resp_finish_reason :: string
  resp_raw :: jdict

record stream_chunk =
  chunk_delta :: string
  chunk_finish_reason :: "string option"
  chunk_usage :: "usage option"

record embed_request =
  emb_inputs :: "string list"
  emb_model :: string
  emb_tenant_id :: string
  emb_request_id :: string

record embed_response =
  emb_vectors :: "real list list"
  emb_usage :: usage
  emb_provider_name :: string
  emb_resp_model :: string

text \<open>
  \<open>LLMProvider\<close>: the one operation the router and the runtime use. The other three
  (\<open>stream\<close>, \<open>embed\<close>, \<open>health_check\<close>) are never called by the gateway.
\<close>

record 'w provider =
  prov_name :: string
  prov_chat :: "chat_request \<Rightarrow> 'w \<Rightarrow> chat_response result \<times> 'w"

section \<open>The Pydantic JSON dump\<close>

text \<open>
  \<open>m.model_dump(mode="json")\<close> of a message, and of a response, field by field in
  declaration order.
\<close>

definition json_opt_str :: "string option \<Rightarrow> json" where
  "json_opt_str x = (case x of None \<Rightarrow> JNull | Some s \<Rightarrow> JStr s)"

definition message_dump :: "chat_message \<Rightarrow> json" where
  "message_dump m = JObj
     [(''role'', JStr (role_value (msg_role m))),
      (''content'', JStr (msg_content m)),
      (''tool_call_id'', json_opt_str (msg_tool_call_id m)),
      (''name'', json_opt_str (msg_name m))]"

definition tool_call_dump :: "tool_call \<Rightarrow> json" where
  "tool_call_dump c = JObj
     [(''id'', JStr (call_id c)), (''name'', JStr (call_name c)),
      (''arguments'', JObj (call_arguments c))]"

definition usage_dump :: "usage \<Rightarrow> json" where
  "usage_dump u = JObj
     [(''input_tokens'', JInt (input_tokens u)), (''output_tokens'', JInt (output_tokens u))]"

definition response_dump :: "chat_response \<Rightarrow> jdict" where
  "response_dump r =
     [(''message'', message_dump (resp_message r)),
      (''tool_calls'', JList (map tool_call_dump (resp_tool_calls r))),
      (''usage'', usage_dump (resp_usage r)),
      (''provider_name'', JStr (resp_provider_name r)),
      (''model'', JStr (resp_model r)),
      (''finish_reason'', JStr (resp_finish_reason r)),
      (''raw'', JObj (resp_raw r))]"

lemma role_value_inj: "role_value a = role_value b \<longleftrightarrow> a = b"
  by (cases a; cases b) simp_all

text \<open>The dump of a message loses nothing: the stored trace determines the message.\<close>

lemma json_opt_str_inj: "json_opt_str a = json_opt_str b \<longleftrightarrow> a = b"
  by (cases a; cases b) (simp_all add: json_opt_str_def)

lemma message_dump_inj: "message_dump a = message_dump b \<longleftrightarrow> a = b"
  by (auto simp: message_dump_def role_value_inj json_opt_str_inj intro: chat_message.equality)

end
