(* ===== verification/Provider_Wire.thy ===== *)
theory Provider_Wire
  imports Provider_Base Regex
begin

text \<open>
  What the three provider adapters share: Python's operations on a parsed JSON value of unknown
  shape, with the exceptions they raise on the wrong one; the validation of the data classes of
  \<open>providers/base.py\<close> by pydantic, a parameter; and the client of an SDK, made on first use.
\<close>

section \<open>Values of unknown shape\<close>

fun type_name :: "json \<Rightarrow> string" where
  "type_name JNull = ''NoneType''"
| "type_name (JBool b) = ''bool''"
| "type_name (JInt n) = ''int''"
| "type_name (JFloat x) = ''float''"
| "type_name (JStr s) = ''str''"
| "type_name (JList xs) = ''list''"
| "type_name (JObj d) = ''dict''"

definition bind_r :: "'a result \<Rightarrow> ('a \<Rightarrow> 'b result) \<Rightarrow> 'b result" where
  "bind_r r f = (case r of Inl e \<Rightarrow> Inl e | Inr x \<Rightarrow> f x)"

fun map_r :: "('a \<Rightarrow> 'b result) \<Rightarrow> 'a list \<Rightarrow> 'b list result" where
  "map_r f [] = Inr []"
| "map_r f (x # xs) = bind_r (f x) (\<lambda>y. bind_r (map_r f xs) (\<lambda>ys. Inr (y # ys)))"

text \<open>\<open>v.get(k, default)\<close>, \<open>v[k]\<close>, \<open>k in v\<close> and \<open>for x in v\<close>.\<close>

definition py_get :: "json \<Rightarrow> string \<Rightarrow> json \<Rightarrow> json result" where
  "py_get v k fallback =
     (case v of
        JObj d \<Rightarrow> Inr (jget_or d k fallback)
      | _ \<Rightarrow> Inl (OtherError (py_repr (type_name v) @ '' object has no attribute '' @ py_repr ''get'')))"

definition py_item :: "json \<Rightarrow> string \<Rightarrow> json result" where
  "py_item v k =
     (case v of
        JObj d \<Rightarrow> (case map_of d k of None \<Rightarrow> Inl (KeyError (py_repr k)) | Some x \<Rightarrow> Inr x)
      | JList xs \<Rightarrow> Inl (OtherError ''list indices must be integers or slices, not str'')
      | JStr s \<Rightarrow> Inl (OtherError (''string indices must be integers, not '' @ py_repr ''str''))
      | _ \<Rightarrow> Inl (OtherError (py_repr (type_name v) @ '' object is not subscriptable'')))"

fun has_sub :: "string \<Rightarrow> string \<Rightarrow> bool" where
  "has_sub k [] = (k = [])"
| "has_sub k (c # s) = (take (length k) (c # s) = k \<or> has_sub k s)"

definition py_contains :: "string \<Rightarrow> json \<Rightarrow> bool result" where
  "py_contains k v =
     (case v of
        JObj d \<Rightarrow> Inr (map_of d k \<noteq> None)
      | JList xs \<Rightarrow> Inr (JStr k \<in> set xs)
      | JStr s \<Rightarrow> Inr (has_sub k s)
      | _ \<Rightarrow> Inl (OtherError (''argument of type '' @ py_repr (type_name v) @ '' is not iterable'')))"

definition py_iter :: "json \<Rightarrow> json list result" where
  "py_iter v =
     (case v of
        JList xs \<Rightarrow> Inr xs
      | JObj d \<Rightarrow> Inr (map (\<lambda>p. JStr (fst p)) d)
      | JStr s \<Rightarrow> Inr (map (\<lambda>c. JStr [c]) s)
      | _ \<Rightarrow> Inl (OtherError (py_repr (type_name v) @ '' object is not iterable'')))"

text \<open>\<open>x or y\<close>.\<close>

definition or_else :: "json \<Rightarrow> json \<Rightarrow> json" where
  "or_else x y = (if truthy x then x else y)"

text \<open>\<open>json.loads\<close> raises its own error, or another one (an integer of too many digits).\<close>

datatype loads_error =
    JSONDecodeError string
  | OtherLoadsError exn

section \<open>Validation\<close>

text \<open>
  What pydantic makes of a value for a field of type \<open>str\<close>, \<open>int\<close>, \<open>dict\<close> and
  \<open>list[list[float]]\<close>, nothing if it is refused, and the message of the \<open>ValidationError\<close>
  for a class and the fields given.
\<close>

record pydantic =
  to_str :: "json \<Rightarrow> string option"
  to_int :: "json \<Rightarrow> int option"
  to_dict :: "json \<Rightarrow> jdict option"
  to_vectors :: "json list \<Rightarrow> real list list option"
  invalid :: "string \<Rightarrow> jdict \<Rightarrow> string"

text \<open>Values that have the type of the field are taken as they are.\<close>

definition accepts_exact :: "pydantic \<Rightarrow> bool" where
  "accepts_exact pyd \<longleftrightarrow> (\<forall>s. to_str pyd (JStr s) = Some s) \<and> (\<forall>n. to_int pyd (JInt n) = Some n) \<and>
     (\<forall>d. to_dict pyd (JObj d) = Some d)"

definition valid_message :: "pydantic \<Rightarrow> role \<Rightarrow> json \<Rightarrow> chat_message result" where
  "valid_message pyd r content =
     (case to_str pyd content of
        Some c \<Rightarrow> Inr (chat_message r c)
      | None \<Rightarrow> Inl (ValidationError (invalid pyd ''ChatMessage''
          [(''role'', JStr (role_value r)), (''content'', content)])))"

definition valid_tool_call :: "pydantic \<Rightarrow> json \<Rightarrow> json \<Rightarrow> json \<Rightarrow> tool_call result" where
  "valid_tool_call pyd i n a =
     (case (to_str pyd i, to_str pyd n, to_dict pyd a) of
        (Some i', Some n', Some a') \<Rightarrow> Inr \<lparr>call_id = i', call_name = n', call_arguments = a'\<rparr>
      | _ \<Rightarrow> Inl (ValidationError (invalid pyd ''ToolCall''
          [(''id'', i), (''name'', n), (''arguments'', a)])))"

definition valid_usage :: "pydantic \<Rightarrow> json \<Rightarrow> json \<Rightarrow> usage result" where
  "valid_usage pyd i out =
     (case (to_int pyd i, to_int pyd out) of
        (Some i', Some o') \<Rightarrow> Inr \<lparr>input_tokens = i', output_tokens = o'\<rparr>
      | _ \<Rightarrow> Inl (ValidationError (invalid pyd ''Usage'' [(''input_tokens'', i), (''output_tokens'', out)])))"

text \<open>A response whose \<open>finish_reason\<close> and \<open>raw\<close> come from the body.\<close>

definition valid_response :: "pydantic \<Rightarrow> string \<Rightarrow> string \<Rightarrow> chat_message \<Rightarrow> tool_call list \<Rightarrow> usage \<Rightarrow>
    json \<Rightarrow> json \<Rightarrow> chat_response result" where
  "valid_response pyd provider model msg calls u finish raw =
     (case (to_str pyd finish, to_dict pyd raw) of
        (Some f, Some d) \<Rightarrow>
          Inr \<lparr>resp_message = msg, resp_tool_calls = calls, resp_usage = u,
               resp_provider_name = provider, resp_model = model, resp_finish_reason = f, resp_raw = d\<rparr>
      | _ \<Rightarrow> Inl (ValidationError (invalid pyd ''ChatResponse''
          [(''finish_reason'', finish), (''raw'', raw)])))"

definition valid_chunk :: "pydantic \<Rightarrow> json \<Rightarrow> json \<Rightarrow> usage option \<Rightarrow> stream_chunk result" where
  "valid_chunk pyd delta finish u =
     (case (to_str pyd delta, if finish = JNull then Some None else map_option Some (to_str pyd finish)) of
        (Some d, Some f) \<Rightarrow> Inr \<lparr>chunk_delta = d, chunk_finish_reason = f, chunk_usage = u\<rparr>
      | _ \<Rightarrow> Inl (ValidationError (invalid pyd ''StreamChunk''
          [(''delta'', delta), (''finish_reason'', finish)])))"

definition valid_embedding :: "pydantic \<Rightarrow> string \<Rightarrow> string \<Rightarrow> usage \<Rightarrow> json list \<Rightarrow> embed_response result" where
  "valid_embedding pyd provider model u vectors =
     (case to_vectors pyd vectors of
        Some v \<Rightarrow> Inr \<lparr>emb_vectors = v, emb_usage = u, emb_provider_name = provider, emb_resp_model = model\<rparr>
      | None \<Rightarrow> Inl (ValidationError (invalid pyd ''EmbedResponse'' [(''vectors'', JList vectors)])))"

text \<open>A validation that converts nothing.\<close>

definition plain_pydantic :: pydantic where
  "plain_pydantic =
     \<lparr>to_str = (\<lambda>v. case v of JStr s \<Rightarrow> Some s | _ \<Rightarrow> None),
      to_int = (\<lambda>v. case v of JInt n \<Rightarrow> Some n | _ \<Rightarrow> None),
      to_dict = (\<lambda>v. case v of JObj d \<Rightarrow> Some d | _ \<Rightarrow> None),
      to_vectors = (\<lambda>vs. None), invalid = (\<lambda>c fs. c)\<rparr>"

lemma plain_accepts: "accepts_exact plain_pydantic"
  by (simp add: accepts_exact_def plain_pydantic_def)

section \<open>Streams\<close>

text \<open>
  An async generator read to its end: the chunks it yields and the exception it ends with, if any.
\<close>

type_synonym chunks = "stream_chunk list \<times> exn option"

section \<open>A client made on first use\<close>

record ('c, 'w) sdk =
  sdk_client :: "'c option"
  sdk_world :: 'w

definition get_client :: "('w \<Rightarrow> 'c result \<times> 'w) \<Rightarrow> (('c, 'w) sdk, 'c) eff" where
  "get_client build s =
     (case sdk_client s of
        Some c \<Rightarrow> (Inr c, s)
      | None \<Rightarrow>
          (case build (sdk_world s) of
             (Inl e, w) \<Rightarrow> (Inl e, s\<lparr>sdk_world := w\<rparr>)
           | (Inr c, w) \<Rightarrow> (Inr c, s\<lparr>sdk_client := Some c, sdk_world := w\<rparr>)))"

definition on_sdk :: "('w \<Rightarrow> 'a \<times> 'w) \<Rightarrow> ('c, 'w) sdk \<Rightarrow> 'a \<times> ('c, 'w) sdk" where
  "on_sdk f s = (let (x, w) = f (sdk_world s) in (x, s\<lparr>sdk_world := w\<rparr>))"

section \<open>Exceptions of the shared code\<close>

text \<open>Nothing here raises a provider error: those are the adapters' own.\<close>

definition foreign :: "'a result \<Rightarrow> bool" where
  "foreign r = (case r of Inl e \<Rightarrow> \<not> is_provider_error e | Inr x \<Rightarrow> True)"

lemma foreign_Inr [simp]: "foreign (Inr x)"
  and foreign_Inl [simp]: "foreign (Inl e) \<longleftrightarrow> \<not> is_provider_error e"
  by (simp_all add: foreign_def)

lemma foreign_bind [intro]: "foreign r \<Longrightarrow> (\<And>x. foreign (f x)) \<Longrightarrow> foreign (bind_r r f)"
  by (cases r) (simp_all add: bind_r_def)

lemma foreign_map [intro]: "(\<And>x. foreign (f x)) \<Longrightarrow> foreign (map_r f xs)"
  by (induction xs) (auto intro!: foreign_bind)

lemma foreign_shapes [simp, intro]:
  "foreign (py_get v k d)" "foreign (py_item v k)" "foreign (py_contains k v)" "foreign (py_iter v)"
  by (simp_all add: py_get_def py_item_def py_contains_def py_iter_def split: json.splits option.splits)

lemma foreign_valid [simp, intro]:
  "foreign (valid_message pyd r c)" "foreign (valid_tool_call pyd i n a)" "foreign (valid_usage pyd x y)"
  "foreign (valid_response pyd p m msg calls u f raw)" "foreign (valid_chunk pyd d fr us)"
  "foreign (valid_embedding pyd p m u vs)"
  by (simp_all add: valid_message_def valid_tool_call_def valid_usage_def valid_response_def valid_chunk_def
      valid_embedding_def split: option.splits)

lemma py_obj [simp]:
  "py_get (JObj d) k fallback = Inr (jget_or d k fallback)"
  "py_item (JObj d) k = (case map_of d k of None \<Rightarrow> Inl (KeyError (py_repr k)) | Some x \<Rightarrow> Inr x)"
  "py_contains k (JObj d) = Inr (map_of d k \<noteq> None)"
  "py_iter (JList xs) = Inr xs"
  by (simp_all add: py_get_def py_item_def py_contains_def py_iter_def)

lemma bind_r_simps [simp]: "bind_r (Inl e) f = Inl e" "bind_r (Inr x) f = f x"
  by (simp_all add: bind_r_def)

lemma foreign_if [intro]: "foreign r \<Longrightarrow> foreign q \<Longrightarrow> foreign (if b then r else q)"
  by simp

lemmas foreign_rules = foreign_if foreign_bind foreign_map foreign_shapes foreign_valid foreign_Inr

lemma map_r_Inr: "(\<And>x. x \<in> set xs \<Longrightarrow> f x = Inr (g x)) \<Longrightarrow> map_r f xs = Inr (map g xs)"
  by (induction xs) simp_all

end
