(* ===== verification/Output_Validation.thy ===== *)
theory Output_Validation
  imports Regex Json Provider_Wire
begin

text \<open>
  Validation of structured output (\<open>governance/output_validation.py\<close>): the check for empty and
  overlong texts, and the check against a schema. \<open>json.loads\<close> and the schema's
  \<open>model_validate\<close> are parameters; what they raise besides their own error passes through.
\<close>

definition check_basic_sanity :: "string \<Rightarrow> int \<Rightarrow> unit result" where
  "check_basic_sanity text max_chars =
     (if py_strip text = [] then Inl (OutputValidationError ''output is empty'')
      else if int (length text) > max_chars then
        Inl (OutputValidationError (''output exceeds max_chars ('' @ nat_str (length text) @ '' > '' @
          int_str max_chars @ '')''))
      else Inr ())"

definition validate_json_output :: "(string \<Rightarrow> loads_error + json) \<Rightarrow> (json \<Rightarrow> 'm result) \<Rightarrow> string \<Rightarrow>
    'm result" where
  "validate_json_output loads model_validate raw_text =
     (case loads raw_text of
        Inl (JSONDecodeError m) \<Rightarrow> Inl (OutputValidationError (''output is not valid JSON: '' @ m))
      | Inl (OtherLoadsError e) \<Rightarrow> Inl e
      | Inr data \<Rightarrow>
          (case model_validate data of
             Inl (ValidationError m) \<Rightarrow> Inl (OutputValidationError (''output does not match schema: '' @ m))
           | r \<Rightarrow> r))"

lemma py_strip_empty: "py_strip s = [] \<longleftrightarrow> list_all is_space s"
  by (auto simp: py_strip_def dropWhile_eq_Nil_conv list_all_iff dest: set_dropWhileD)
     (metis dropWhile_eq_Nil_conv dropWhile_idem list.exhaust_sel hd_dropWhile set_dropWhileD list.set_sel(1))

text \<open>
  The sanity check lets a text through exactly if it has a character that is not white space
  and is not over the limit; the schema check returns exactly what the schema makes of the
  parsed text, and a text that does not parse and a value that the schema refuses come back as
  the module's own error, with the reason in it.
\<close>

theorem output_validation_errors:
  "(check_basic_sanity text n = Inr () \<longleftrightarrow> (\<exists>c \<in> set text. \<not> is_space c) \<and> int (length text) \<le> n) \<and>
   (check_basic_sanity text n \<noteq> Inr () \<longrightarrow> (\<exists>m. check_basic_sanity text n = Inl (OutputValidationError m))) \<and>
   (validate_json_output loads schema text = Inr v \<longleftrightarrow> (\<exists>data. loads text = Inr data \<and> schema data = Inr v)) \<and>
   (validate_json_output loads schema text = Inl e \<longleftrightarrow>
      (\<exists>m. loads text = Inl (JSONDecodeError m) \<and> e = OutputValidationError (''output is not valid JSON: '' @ m)) \<or>
      loads text = Inl (OtherLoadsError e) \<or>
      (\<exists>data. loads text = Inr data \<and>
         ((\<exists>m. schema data = Inl (ValidationError m) \<and>
             e = OutputValidationError (''output does not match schema: '' @ m)) \<or>
          schema data = Inl e \<and> (\<forall>m. e \<noteq> ValidationError m))))"
proof -
  have "check_basic_sanity text n = Inr () \<longleftrightarrow> (\<exists>c \<in> set text. \<not> is_space c) \<and> int (length text) \<le> n"
    by (auto simp: check_basic_sanity_def py_strip_empty list_all_iff)
  moreover have "\<exists>m. check_basic_sanity text n = Inl (OutputValidationError m)"
    if "check_basic_sanity text n \<noteq> Inr ()"
    using that by (simp add: check_basic_sanity_def split: if_splits)
  moreover have "validate_json_output loads schema text = Inr v \<longleftrightarrow>
      (\<exists>data. loads text = Inr data \<and> schema data = Inr v)"
    by (auto simp: validate_json_output_def split: sum.splits loads_error.splits exn.splits)
  moreover have "validate_json_output loads schema text = Inl e \<longleftrightarrow>
      (\<exists>m. loads text = Inl (JSONDecodeError m) \<and> e = OutputValidationError (''output is not valid JSON: '' @ m)) \<or>
      loads text = Inl (OtherLoadsError e) \<or>
      (\<exists>data. loads text = Inr data \<and>
         ((\<exists>m. schema data = Inl (ValidationError m) \<and>
             e = OutputValidationError (''output does not match schema: '' @ m)) \<or>
          schema data = Inl e \<and> (\<forall>m. e \<noteq> ValidationError m)))"
    by (auto simp: validate_json_output_def split: sum.splits loads_error.splits exn.splits)
  ultimately show ?thesis by blast
qed

end
