(* ===== verification/Circuit_Breaker.thy ===== *)
theory Circuit_Breaker
  imports Provider_Base
begin

text \<open>
  The per-provider circuit breaker of \<open>providers/circuit_breaker.py\<close>. The registry is a
  map from provider names to entries. \<open>time.monotonic()\<close> is a reading taken from the
  outside world (\<open>monotonic\<close> of the environment record), at exactly the points where the
  code takes one.
\<close>

section \<open>State\<close>

datatype circuit_state = CLOSED | OPEN | HALF_OPEN

record breaker_entry =
  cb_state :: circuit_state
  consecutive_failures :: int
  opened_at :: real

definition new_entry :: breaker_entry where
  "new_entry = \<lparr>cb_state = CLOSED, consecutive_failures = 0, opened_at = 0\<rparr>"

record registry =
  failure_threshold :: int
  reset_timeout_s :: real
  entries :: "string \<rightharpoonup> breaker_entry"

definition new_registry :: "int \<Rightarrow> real \<Rightarrow> registry" where
  "new_registry n t = \<lparr>failure_threshold = n, reset_timeout_s = t, entries = Map.empty\<rparr>"

record 'w env =
  monotonic :: "'w \<Rightarrow> real \<times> 'w"

record 'w cb_world =
  breakers :: registry
  world :: "'w"

section \<open>Operations\<close>

text \<open>\<open>time.monotonic()\<close>.\<close>

definition read_clock :: "('w, 'e) env_scheme \<Rightarrow> ('w, 'b) cb_world_scheme \<Rightarrow>
    real \<times> ('w, 'b) cb_world_scheme" where
  "read_clock env s = (let (t, w) = monotonic env (world s) in (t, s\<lparr>world := w\<rparr>))"

text \<open>\<open>_entry\<close>: \<open>setdefault\<close>, which stores the fresh entry when there is none.\<close>

definition entry :: "string \<Rightarrow> registry \<Rightarrow> breaker_entry \<times> registry" where
  "entry p r =
     (case entries r p of
        Some e \<Rightarrow> (e, r)
      | None \<Rightarrow> (new_entry, r\<lparr>entries := (entries r)(p \<mapsto> new_entry)\<rparr>))"

text \<open>Assigning the attributes of the entry object that the registry holds.\<close>

definition set_entry :: "string \<Rightarrow> breaker_entry \<Rightarrow> registry \<Rightarrow> registry" where
  "set_entry p e r = r\<lparr>entries := (entries r)(p \<mapsto> e)\<rparr>"

definition before_call :: "('w, 'e) env_scheme \<Rightarrow> string \<Rightarrow>
    (('w, 'b) cb_world_scheme, unit) eff" where
  "before_call env p s =
     (let (e, r) = entry p (breakers s); s1 = s\<lparr>breakers := r\<rparr>
      in if cb_state e = OPEN
         then let (t, s2) = read_clock env s1
              in if t - opened_at e \<ge> reset_timeout_s r
                 then (Inr (), s2\<lparr>breakers := set_entry p (e\<lparr>cb_state := HALF_OPEN\<rparr>) r\<rparr>)
                 else (Inl (CircuitOpenError (''circuit open for provider '' @ [CHR 0x27] @ p @ [CHR 0x27])), s2)
         else (Inr (), s1))"

definition on_success :: "string \<Rightarrow> ('w, 'b) cb_world_scheme \<Rightarrow> ('w, 'b) cb_world_scheme" where
  "on_success p s =
     (let (e, r) = entry p (breakers s)
      in s\<lparr>breakers := set_entry p (e\<lparr>cb_state := CLOSED, consecutive_failures := 0\<rparr>) r\<rparr>)"

definition on_failure :: "('w, 'e) env_scheme \<Rightarrow> string \<Rightarrow>
    ('w, 'b) cb_world_scheme \<Rightarrow> ('w, 'b) cb_world_scheme" where
  "on_failure env p s =
     (let (e, r) = entry p (breakers s);
          e1 = e\<lparr>consecutive_failures := consecutive_failures e + 1\<rparr>;
          tripped = (consecutive_failures e1 \<ge> failure_threshold r)
      in if cb_state e1 = HALF_OPEN \<or> tripped
         then let (t, s1) = read_clock env s
              in s1\<lparr>breakers := set_entry p (e1\<lparr>cb_state := OPEN, opened_at := t\<rparr>) r\<rparr>
         else s\<lparr>breakers := set_entry p e1 r\<rparr>)"

definition state_of :: "string \<Rightarrow> ('w, 'b) cb_world_scheme \<Rightarrow>
    circuit_state \<times> ('w, 'b) cb_world_scheme" where
  "state_of p s =
     (let (e, r) = entry p (breakers s) in (cb_state e, s\<lparr>breakers := r\<rparr>))"


section \<open>The view of one provider\<close>

definition peek :: "string \<Rightarrow> ('w, 'b) cb_world_scheme \<Rightarrow> breaker_entry" where
  "peek p s = (case entries (breakers s) p of Some e \<Rightarrow> e | None \<Rightarrow> new_entry)"

lemma fst_entry: "fst (entry p r) = (case entries r p of Some e \<Rightarrow> e | None \<Rightarrow> new_entry)"
  by (simp add: entry_def split: option.splits)

lemma entry_config [simp]:
  "failure_threshold (snd (entry p r)) = failure_threshold r"
  "reset_timeout_s (snd (entry p r)) = reset_timeout_s r"
  by (simp_all add: entry_def split: option.splits)

lemma read_clock_breakers [simp]: "breakers (snd (read_clock env s)) = breakers s"
  by (simp add: read_clock_def split: prod.splits)

lemma set_entry_simps [simp]:
  "failure_threshold (set_entry p e r) = failure_threshold r"
  "reset_timeout_s (set_entry p e r) = reset_timeout_s r"
  "entries (set_entry p e r) = (entries r)(p \<mapsto> e)"
  by (simp_all add: set_entry_def)

lemmas breaker_defs =
  before_call_def on_success_def on_failure_def state_of_def entry_def read_clock_def peek_def Let_def

lemma state_of_peek: "fst (state_of p s) = cb_state (peek p s)"
  by (simp add: breaker_defs split: option.splits)

lemma peek_on_success:
  "peek q (on_success p s) =
     (if q = p then (peek p s)\<lparr>cb_state := CLOSED, consecutive_failures := 0\<rparr> else peek q s)"
  by (simp add: breaker_defs split: option.splits)

lemma on_failure_state:
  "cb_state (peek p (on_failure env p s)) =
     (if cb_state (peek p s) = HALF_OPEN \<or>
         consecutive_failures (peek p s) + 1 \<ge> failure_threshold (breakers s)
      then OPEN else cb_state (peek p s))"
  by (simp add: breaker_defs split: option.splits prod.splits)

lemma on_failure_count:
  "consecutive_failures (peek p (on_failure env p s)) = consecutive_failures (peek p s) + 1"
  by (simp add: breaker_defs split: option.splits prod.splits)

lemma on_failure_frame: "q \<noteq> p \<Longrightarrow> peek q (on_failure env p s) = peek q s"
  by (simp add: breaker_defs split: option.splits prod.splits)

lemma before_call_frame: "q \<noteq> p \<Longrightarrow> peek q (snd (before_call env p s)) = peek q s"
  by (simp add: breaker_defs split: option.splits prod.splits)

lemma before_call_count:
  "consecutive_failures (peek p (snd (before_call env p s))) = consecutive_failures (peek p s)"
  by (simp add: breaker_defs split: option.splits prod.splits)

lemma before_call_state:
  "cb_state (peek p (snd (before_call env p s))) =
     (if cb_state (peek p s) = OPEN \<and> fst (before_call env p s) = Inr () then HALF_OPEN
      else cb_state (peek p s))"
  by (simp add: breaker_defs new_entry_def split: option.splits prod.splits)

lemma before_call_refused:
  "fst (before_call env p s) = Inl x \<Longrightarrow> cb_state (peek p s) = OPEN"
  by (simp add: breaker_defs new_entry_def split: option.splits prod.splits if_splits)

lemma threshold_kept [simp]:
  "failure_threshold (breakers (snd (before_call env p s))) = failure_threshold (breakers s)"
  "failure_threshold (breakers (on_success p s)) = failure_threshold (breakers s)"
  "failure_threshold (breakers (on_failure env p s)) = failure_threshold (breakers s)"
  by (simp_all add: breaker_defs split: option.splits prod.splits)

section \<open>The contract other components rely on\<close>

datatype cb_event = Before | Success | Failure

fun cb_apply :: "(string \<Rightarrow> ('s, unit) eff) \<Rightarrow> (string \<Rightarrow> 's \<Rightarrow> 's) \<Rightarrow> (string \<Rightarrow> 's \<Rightarrow> 's) \<Rightarrow>
    string \<times> cb_event \<Rightarrow> 's \<Rightarrow> 's" where
  "cb_apply before succ fail (p, Before) s = snd (before p s)"
| "cb_apply before succ fail (p, Success) s = succ p s"
| "cb_apply before succ fail (p, Failure) s = fail p s"

text \<open>
  The number of failures of \<open>p\<close> in a history since its last success, counted on the
  history itself.
\<close>

definition outcomes :: "string \<Rightarrow> (string \<times> cb_event) list \<Rightarrow> cb_event list" where
  "outcomes p h = map snd (filter (\<lambda>(q, e). q = p \<and> e \<noteq> Before) h)"

definition streak :: "string \<Rightarrow> (string \<times> cb_event) list \<Rightarrow> nat" where
  "streak p h = length (takeWhile ((=) Failure) (rev (outcomes p h)))"

lemma streak_snoc [simp]:
  "streak p (h @ [(q, e)]) =
     (if q = p \<and> e = Success then 0 else if q = p \<and> e = Failure then Suc (streak p h)
      else streak p h)"
  by (cases e) (auto simp: streak_def outcomes_def)

locale breaker_contract =
  fixes before :: "string \<Rightarrow> ('s, unit) eff"
    and succ :: "string \<Rightarrow> 's \<Rightarrow> 's"
    and fail :: "string \<Rightarrow> 's \<Rightarrow> 's"
    and view :: "string \<Rightarrow> 's \<Rightarrow> 'v"
    and state :: "'v \<Rightarrow> circuit_state"
    and count :: "'v \<Rightarrow> int"
    and threshold :: "'s \<Rightarrow> int"
  assumes before_other: "q \<noteq> p \<Longrightarrow> view q (snd (before p s)) = view q s"
    and succ_other: "q \<noteq> p \<Longrightarrow> view q (succ p s) = view q s"
    and fail_other: "q \<noteq> p \<Longrightarrow> view q (fail p s) = view q s"
    and before_count: "count (view p (snd (before p s))) = count (view p s)"
    and before_state: "state (view p (snd (before p s))) =
      (if state (view p s) = OPEN \<and> fst (before p s) = Inr () then HALF_OPEN
       else state (view p s))"
    and succ_state: "state (view p (succ p s)) = CLOSED"
    and succ_count: "count (view p (succ p s)) = 0"
    and fail_count: "count (view p (fail p s)) = count (view p s) + 1"
    and fail_state: "state (view p (fail p s)) =
      (if state (view p s) = HALF_OPEN \<or> count (view p s) + 1 \<ge> threshold s then OPEN
       else state (view p s))"
    and before_threshold: "threshold (snd (before p s)) = threshold s"
    and succ_threshold: "threshold (succ p s) = threshold s"
    and fail_threshold: "threshold (fail p s) = threshold s"
begin

lemmas laws = before_other succ_other fail_other before_count before_state succ_state succ_count
  fail_count fail_state before_threshold succ_threshold fail_threshold

lemma run_threshold: "threshold (fold (cb_apply before succ fail) h s) = threshold s"
proof (induction h rule: rev_induct)
  case (snoc x h)
  obtain q e where "x = (q, e)" by (cases x)
  with snoc show ?case by (cases e) (simp_all add: laws)
qed simp

lemma run_invariant:
  assumes fresh: "state (view p s) = CLOSED" "count (view p s) = 0" and pos: "threshold s \<ge> 1"
  shows "count (view p (fold (cb_apply before succ fail) h s)) = int (streak p h) \<and>
    (state (view p (fold (cb_apply before succ fail) h s)) = CLOSED \<longleftrightarrow>
       int (streak p h) < threshold s)"
proof (induction h rule: rev_induct)
  case Nil
  then show ?case using assms by (simp add: streak_def outcomes_def)
next
  case (snoc x h)
  obtain q e where x: "x = (q, e)" by (cases x)
  show ?case
  proof (cases "q = p")
    case False
    with snoc x show ?thesis by (cases e) (simp_all add: laws)
  next
    case True
    with snoc x pos run_threshold [of h s] show ?thesis by (cases e) (auto simp: laws)
  qed
qed

lemma run_other:
  assumes "\<forall>(q, e) \<in> set h. q \<noteq> p"
  shows "view p (fold (cb_apply before succ fail) h s) = view p s"
  using assms
proof (induction h rule: rev_induct)
  case (snoc x h)
  obtain q e where x: "x = (q, e)" by (cases x)
  with snoc.prems have "p \<noteq> q" by auto
  with snoc x show ?case by (cases e) (auto simp: laws)
qed simp

end

interpretation cb: breaker_contract "before_call env" on_success "on_failure env"
  peek cb_state consecutive_failures "\<lambda>s. failure_threshold (breakers s)"
  for env :: "('w, 'e) env_scheme"
  by unfold_locales
    (simp_all add: before_call_frame before_call_count before_call_state peek_on_success
      on_failure_frame on_failure_count on_failure_state)

section \<open>Histories of calls\<close>

definition run_events :: "('w, 'e) env_scheme \<Rightarrow> (string \<times> cb_event) list \<Rightarrow>
    ('w, 'b) cb_world_scheme \<Rightarrow> ('w, 'b) cb_world_scheme" where
  "run_events env h s = fold (cb_apply (before_call env) on_success (on_failure env)) h s"

definition fresh_world :: "int \<Rightarrow> real \<Rightarrow> 'w \<Rightarrow> 'w cb_world" where
  "fresh_world n t w = \<lparr>breakers = new_registry n t, world = w\<rparr>"

lemma peek_fresh [simp]: "peek p (fresh_world n t w) = new_entry"
  by (simp add: peek_def fresh_world_def new_registry_def)

lemma new_entry_simps [simp]:
  "cb_state new_entry = CLOSED" "consecutive_failures new_entry = 0"
  by (simp_all add: new_entry_def)

lemma fresh_config [simp]:
  "failure_threshold (breakers (fresh_world n t w)) = n"
  "reset_timeout_s (breakers (fresh_world n t w)) = t"
  by (simp_all add: fresh_world_def new_registry_def)

lemma timeout_kept [simp]:
  "reset_timeout_s (breakers (snd (before_call env p s))) = reset_timeout_s (breakers s)"
  "reset_timeout_s (breakers (on_success p s)) = reset_timeout_s (breakers s)"
  "reset_timeout_s (breakers (on_failure env p s)) = reset_timeout_s (breakers s)"
  by (simp_all add: breaker_defs split: option.splits prod.splits)

lemma run_events_timeout [simp]:
  "reset_timeout_s (breakers (run_events env h s)) = reset_timeout_s (breakers s)"
  unfolding run_events_def
proof (induction h arbitrary: s)
  case (Cons x h)
  obtain q e where "x = (q, e)" by (cases x)
  with Cons show ?case by (cases e) simp_all
qed simp

lemma run_events_append: "run_events env (g @ h) s = run_events env h (run_events env g s)"
  by (simp add: run_events_def)

lemma breaker_run:
  assumes "n \<ge> 1"
  shows "consecutive_failures (peek p (run_events env h (fresh_world n t w))) = int (streak p h)"
  using cb.run_invariant [of p "fresh_world n t w" env h] assms by (simp add: run_events_def)

lemma opened_at_trip:
  assumes "cb_state (peek p s) = HALF_OPEN \<or>
      consecutive_failures (peek p s) + 1 \<ge> failure_threshold (breakers s)"
  shows "opened_at (peek p (on_failure env p s)) = fst (read_clock env s)"
  using assms by (auto simp: breaker_defs split: option.splits prod.splits)

lemma before_call_result:
  "fst (before_call env p s) =
     (if cb_state (peek p s) = OPEN \<and>
         fst (read_clock env s) - opened_at (peek p s) < reset_timeout_s (breakers s)
      then Inl (CircuitOpenError (''circuit open for provider '' @ [CHR 0x27] @ p @ [CHR 0x27]))
      else Inr ())"
  by (simp add: breaker_defs split: option.splits prod.splits)

section \<open>The documented state machine\<close>

text \<open>
  The machine of \<open>docs/adr/0006\<close> and of the module's documentation, for one provider: closed
  with the number of consecutive failures so far, open since a time, or half open, waiting for
  the outcome of a probe. A call made at time \<open>now\<close> is admitted unless the circuit has been open
  for less than the timeout \<open>T\<close>. What an admitted call does depends on how it ends: a success
  closes the circuit, the \<open>N\<close>-th consecutive failure opens it, a failed probe opens it again with
  the time \<open>t\<close> of the failure, and a call whose end is reported to nobody only uses up the wait.
\<close>

datatype circuit = Closed int | Opened real | Probing

datatype call_end = Call_Ok | Call_Failed | Call_Unreported

definition circuit_of :: "breaker_entry \<Rightarrow> circuit" where
  "circuit_of e =
     (case cb_state e of
        CLOSED \<Rightarrow> Closed (consecutive_failures e)
      | OPEN \<Rightarrow> Opened (opened_at e)
      | HALF_OPEN \<Rightarrow> Probing)"

fun circuit_admits :: "real \<Rightarrow> real \<Rightarrow> circuit \<Rightarrow> bool" where
  "circuit_admits T now (Opened u) = (now - u \<ge> T)"
| "circuit_admits T now _ = True"

fun circuit_admit :: "circuit \<Rightarrow> circuit" where
  "circuit_admit (Opened u) = Probing"
| "circuit_admit m = m"

fun circuit_end :: "int \<Rightarrow> call_end \<Rightarrow> real \<Rightarrow> circuit \<Rightarrow> circuit" where
  "circuit_end N Call_Ok t m = Closed 0"
| "circuit_end N Call_Failed t (Closed k) = (if k + 1 \<ge> N then Opened t else Closed (k + 1))"
| "circuit_end N Call_Failed t _ = Opened t"
| "circuit_end N Call_Unreported t m = m"

text \<open>The operations of the registry are those of the machine, on the entry of their provider.\<close>

lemma circuit_fresh: "circuit_of new_entry = Closed 0"
  by (simp add: circuit_of_def new_entry_def)

lemma before_call_admits:
  "fst (before_call env p s) = Inr () \<longleftrightarrow>
     circuit_admits (reset_timeout_s (breakers s)) (fst (read_clock env s)) (circuit_of (peek p s))"
  by (cases "cb_state (peek p s)") (auto simp: before_call_result circuit_of_def)

lemma opened_at_before_call: "opened_at (peek p (snd (before_call env p s))) = opened_at (peek p s)"
  by (simp add: breaker_defs split: option.splits prod.splits)

lemma circuit_before_call:
  "circuit_of (peek p (snd (before_call env p s))) =
     (if fst (before_call env p s) = Inr () then circuit_admit (circuit_of (peek p s))
      else circuit_of (peek p s))"
  by (cases "cb_state (peek p s)")
    (simp_all add: circuit_of_def before_call_state before_call_count opened_at_before_call)

lemma circuit_on_success: "circuit_of (peek p (on_success p s)) = Closed 0"
  by (simp add: circuit_of_def peek_on_success)

lemma circuit_on_failure:
  assumes "cb_state (peek p s) \<noteq> OPEN"
  shows "circuit_of (peek p (on_failure env p s)) =
    circuit_end (failure_threshold (breakers s)) Call_Failed (fst (read_clock env s)) (circuit_of (peek p s))"
  using assms
  by (cases "cb_state (peek p s)")
    (simp_all add: circuit_of_def on_failure_state on_failure_count opened_at_trip)

lemma admitted_not_open:
  "fst (before_call env p s) = Inr () \<Longrightarrow> cb_state (peek p (snd (before_call env p s))) \<noteq> OPEN"
  by (simp add: before_call_state)

text \<open>
  A call that was under way when the circuit opened may end later, which the documented machine
  does not have: its success closes the circuit as any success does, its failure restarts the timer.
\<close>

lemma late_failure:
  assumes "circuit_of (peek p s) = Opened u"
    and "consecutive_failures (peek p s) + 1 \<ge> failure_threshold (breakers s)"
  shows "circuit_of (peek p (on_failure env p s)) = Opened (fst (read_clock env s))"
  using assms
  by (auto simp: circuit_of_def on_failure_state on_failure_count opened_at_trip
      split: circuit_state.splits)

text \<open>A clock that counts up by one second a reading, for the concrete runs.\<close>

definition tick_env :: "nat env" where
  "tick_env = \<lparr>monotonic = (\<lambda>n. (real n, Suc n))\<rparr>"

section \<open>Properties\<close>

text \<open>
  C35. In every history of calls on a fresh registry with a positive threshold, the
  failure counter of each provider is the number of its failures since its last success,
  and its circuit is closed exactly while that number is below the threshold, whatever
  the other providers did in between.
\<close>

theorem breaker_history:
  assumes "n \<ge> 1"
  shows "consecutive_failures (peek p (run_events env h (fresh_world n t w))) = int (streak p h) \<and>
    (cb_state (peek p (run_events env h (fresh_world n t w))) = CLOSED \<longleftrightarrow> int (streak p h) < n)"
  using cb.run_invariant [of p "fresh_world n t w" env h] assms by (simp add: run_events_def)

theorem breaker_history_witness:
  "cb_state (peek ''bedrock'' (run_events tick_env
     [(''bedrock'', Failure), (''local'', Success), (''bedrock'', Failure)]
     (fresh_world 2 30 0))) \<noteq> CLOSED"
  using breaker_history [of 2 "''bedrock''" tick_env
     "[(''bedrock'', Failure), (''local'', Success), (''bedrock'', Failure)]" 30 0]
  by (simp add: streak_def outcomes_def)

text \<open>
  Once a failure has brought a provider to the threshold, a call to it is refused
  with \<open>CircuitOpenError\<close> exactly while less than the reset timeout has passed since that
  failure, whatever was done to the other providers meanwhile.
\<close>

theorem breaker_blocks_until_timeout:
  fixes env :: "('w, 'e) env_scheme" and w :: "'w" and t :: real
  assumes pos: "n \<ge> 1" and full: "int (streak p (h @ [(p, Failure)])) \<ge> n"
    and others: "\<forall>(q, e) \<in> set g. q \<noteq> p"
  defines "s0 \<equiv> run_events env h (fresh_world n t w)"
  defines "s1 \<equiv> run_events env g (on_failure env p s0)"
  shows "fst (before_call env p s1) =
    (if fst (read_clock env s1) - fst (read_clock env s0) < t
     then Inl (CircuitOpenError (''circuit open for provider '' @ [CHR 0x27] @ p @ [CHR 0x27]))
     else Inr ())"
proof -
  have cnt: "consecutive_failures (peek p s0) = int (streak p h)"
    using breaker_run [of n p env h t w] pos by (simp add: s0_def)
  have thr: "failure_threshold (breakers s0) = n"
    using cb.run_threshold [of env h "fresh_world n t w"] by (simp add: s0_def run_events_def)
  from cnt full thr have trip: "consecutive_failures (peek p s0) + 1 \<ge> failure_threshold (breakers s0)"
    by simp
  have same: "peek p s1 = peek p (on_failure env p s0)"
    using cb.run_other [OF others] by (simp add: s1_def run_events_def)
  have tmo: "reset_timeout_s (breakers s1) = t" by (simp add: s1_def s0_def)
  show ?thesis
    using trip by (simp add: before_call_result same opened_at_trip on_failure_state tmo)
qed

theorem breaker_blocks_until_timeout_witness:
  "fst (before_call tick_env ''bedrock''
     (run_events tick_env [(''local'', Failure)]
       (on_failure tick_env ''bedrock''
         (run_events tick_env [] (fresh_world 1 30 0))))) \<noteq> Inr ()"
proof -
  have clk: "fst (read_clock tick_env
      (run_events tick_env [(''local'', Failure)] (on_failure tick_env ''bedrock''
        (run_events tick_env [] (fresh_world 1 30 0))))) = 2"
    "fst (read_clock tick_env (run_events tick_env [] (fresh_world 1 30 0))) = 0"
    by (simp_all add: run_events_def breaker_defs tick_env_def fresh_world_def
        new_registry_def new_entry_def)
  show ?thesis
    using breaker_blocks_until_timeout [of 1 "''bedrock''" "[]" "[(''local'', Failure)]"
      tick_env 30 0]
    by (simp add: streak_def outcomes_def clk)
qed

end
