(* ===== verification/Router.thy ===== *)
theory Router
  imports Circuit_Breaker "HOL-Library.Sublist"
begin

text \<open>
  The policy-based provider router of \<open>providers/router.py\<close>: the routing policy and its
  rules, and \<open>ProviderRouter.route\<close>, which tries the candidate providers in order with a
  circuit breaker each and fails over on retryable errors. The spans and the Prometheus
  observations the router emits are kept in the state as a log of events, in the order
  the code emits them; the log is also what the theorems use to say which providers were
  called.
\<close>

section \<open>Routing policy\<close>

record routing_context =
  ctx_tenant_id :: string
  ctx_data_classification :: string
  ctx_cost_tier :: string

record provider_config =
  pc_model :: string
  pc_region :: string
  pc_cost_per_1k_input_tokens :: real
  pc_cost_per_1k_output_tokens :: real

record routing_rule =
  rule_name :: string
  rule_when :: "(string \<times> string list) list"
  rule_allow :: "string list"

text \<open>\<open>context.model_dump()\<close>.\<close>

definition context_dump :: "routing_context \<Rightarrow> (string \<times> string) list" where
  "context_dump c =
     [(''tenant_id'', ctx_tenant_id c),
      (''data_classification'', ctx_data_classification c),
      (''cost_tier'', ctx_cost_tier c)]"

text \<open>\<open>ctx.get(key) not in allowed_values\<close>: a key the context does not have never matches.\<close>

fun when_matches :: "(string \<times> string) list \<Rightarrow> (string \<times> string list) list \<Rightarrow> bool" where
  "when_matches ctx [] = True"
| "when_matches ctx ((key, allowed_values) # rest) =
     (case map_of ctx key of
        None \<Rightarrow> False
      | Some v \<Rightarrow> if v \<notin> set allowed_values then False else when_matches ctx rest)"

definition matches :: "routing_rule \<Rightarrow> routing_context \<Rightarrow> bool" where
  "matches rule c = when_matches (context_dump c) (rule_when rule)"

record failover_config =
  fo_max_attempts :: int
  fo_failure_threshold :: int
  fo_reset_timeout_s :: real

text \<open>
  \<open>FailoverConfig(...)\<close>: the given fields over the defaults, with the validator that
  refuses \<open>max_attempts < 1\<close>.
\<close>

definition failover_config ::
    "int option \<Rightarrow> int option \<Rightarrow> real option \<Rightarrow> failover_config result" where
  "failover_config attempts threshold timeout =
     (let v = (case attempts of None \<Rightarrow> 3 | Some n \<Rightarrow> n)
      in if v < 1 then Inl (ValidationError ''max_attempts must be >= 1'')
         else Inr \<lparr>fo_max_attempts = v,
                   fo_failure_threshold = (case threshold of None \<Rightarrow> 5 | Some n \<Rightarrow> n),
                   fo_reset_timeout_s = (case timeout of None \<Rightarrow> 30 | Some x \<Rightarrow> x)\<rparr>)"

record routing_policy =
  rp_version :: int
  rp_default_provider :: string
  rp_providers :: "(string \<times> provider_config) list"
  rp_rules :: "routing_rule list"
  rp_failover :: failover_config

fun first_match :: "routing_rule list \<Rightarrow> routing_context \<Rightarrow> string list option" where
  "first_match [] c = None"
| "first_match (rule # rules) c =
     (if matches rule c then Some (rule_allow rule) else first_match rules c)"

definition candidates_for :: "routing_policy \<Rightarrow> routing_context \<Rightarrow> string list" where
  "candidates_for pol c =
     (case first_match (rp_rules pol) c of
        Some allow \<Rightarrow> allow
      | None \<Rightarrow> [rp_default_provider pol])"

section \<open>State of the gateway process\<close>

datatype obs_event =
    SpanStart string string string
  | SpanAttr string string
  | SpanTokens string int
  | Latency string string real
  | TokensInc string string int

record 'w gateway = "'w cb_world" +
  obs :: "obs_event list"

definition emit :: "obs_event \<Rightarrow> ('w, 'b) gateway_scheme \<Rightarrow> ('w, 'b) gateway_scheme" where
  "emit e s = s\<lparr>obs := obs s @ [e]\<rparr>"

record 'w router =
  rt_policy :: routing_policy
  rt_providers :: "string \<rightharpoonup> 'w provider"

text \<open>\<open>breaker_registry or CircuitBreakerRegistry(...)\<close> of the constructor.\<close>

definition router_breakers :: "routing_policy \<Rightarrow> registry option \<Rightarrow> registry" where
  "router_breakers pol given =
     (case given of
        Some r \<Rightarrow> r
      | None \<Rightarrow> new_registry (fo_failure_threshold (rp_failover pol))
                  (fo_reset_timeout_s (rp_failover pol)))"

section \<open>Routing a request\<close>

definition observe :: "('w, 'e) env_scheme \<Rightarrow> string \<Rightarrow> real \<Rightarrow> string \<Rightarrow> chat_response option \<Rightarrow>
    ('w, 'b) gateway_scheme \<Rightarrow> ('w, 'b) gateway_scheme" where
  "observe env p started outcome response s =
     (let (t, s1) = read_clock env s;
          s2 = emit (Latency p outcome (t - started)) s1
      in case response of
           None \<Rightarrow> s2
         | Some resp \<Rightarrow>
             emit (TokensInc p ''output'' (output_tokens (resp_usage resp)))
               (emit (TokensInc p ''input'' (input_tokens (resp_usage resp))) s2))"

text \<open>\<open>await provider.chat(request)\<close>: the provider acts on the outside world.\<close>

definition call_provider :: "'w provider \<Rightarrow> chat_request \<Rightarrow>
    (('w, 'b) gateway_scheme, chat_response) eff" where
  "call_provider prov req s =
     (let (r, w) = prov_chat prov req (world s) in (r, s\<lparr>world := w\<rparr>))"

text \<open>How one turn of the loop over the candidates ends.\<close>

datatype turn = Continue | Return chat_response | Raise exn

text \<open>
  One turn of the loop body of \<open>route\<close>. \<open>before_call\<close> raises nothing but
  \<open>CircuitOpenError\<close>.
\<close>

definition attempt :: "('w, 'e) env_scheme \<Rightarrow> 'w router \<Rightarrow> chat_request \<Rightarrow> string \<Rightarrow>
    ('w, 'b) gateway_scheme \<Rightarrow> turn \<times> ('w, 'b) gateway_scheme" where
  "attempt env rt request p s =
     (case rt_providers rt p of
        None \<Rightarrow> (Continue, s)
      | Some prov \<Rightarrow>
     (case before_call env p s of
        (Inl exc, s1) \<Rightarrow> (Continue, s1)
      | (Inr _, s1) \<Rightarrow>
     (case map_of (rp_providers (rt_policy rt)) p of
        None \<Rightarrow> (Raise (KeyError (py_repr p)), s1)
      | Some cfg \<Rightarrow>
     (let provider_request = request\<lparr>req_model := str_or (req_model request) (pc_model cfg)\<rparr>;
          (started, s2) = read_clock env s1;
          s3 = emit (SpanStart p (req_request_id request) (req_tenant_id request)) s2
      in case call_provider prov provider_request s3 of
           (Inl exc, s4) \<Rightarrow>
             if is_auth_error exc then
               (Raise exc, emit (SpanAttr ''aegis.outcome'' ''auth_error'')
                  (observe env p started ''auth_error'' None s4))
             else if is_provider_error exc then
               (Continue, emit (SpanAttr ''aegis.outcome'' ''error'')
                  (observe env p started ''error'' None (on_failure env p s4)))
             else (Raise exc, s4)
         | (Inr response, s4) \<Rightarrow>
             (Return response,
              on_success p (observe env p started ''success'' (Some response)
                (emit (SpanTokens ''aegis.output_tokens'' (output_tokens (resp_usage response)))
                (emit (SpanTokens ''aegis.input_tokens'' (input_tokens (resp_usage response)))
                (emit (SpanAttr ''aegis.outcome'' ''success'') s4)))))))))"

fun route_loop :: "('w, 'e) env_scheme \<Rightarrow> 'w router \<Rightarrow> chat_request \<Rightarrow> string list \<Rightarrow>
    string list \<Rightarrow> (('w, 'b) gateway_scheme, chat_response) eff" where
  "route_loop env rt request cands [] s =
     (Inl (NoHealthyProviderError (''no healthy provider among candidates '' @ list_repr cands)), s)"
| "route_loop env rt request cands (p # ps) s =
     (case attempt env rt request p s of
        (Continue, s1) \<Rightarrow> route_loop env rt request cands ps s1
      | (Return response, s1) \<Rightarrow> (Inr response, s1)
      | (Raise exc, s1) \<Rightarrow> (Inl exc, s1))"

text \<open>\<open>self.candidates_for(context)[: max_attempts]\<close>.\<close>

definition route_candidates :: "routing_policy \<Rightarrow> routing_context \<Rightarrow> string list" where
  "route_candidates pol c = slice_to (fo_max_attempts (rp_failover pol)) (candidates_for pol c)"

definition route :: "('w, 'e) env_scheme \<Rightarrow> 'w router \<Rightarrow> chat_request \<Rightarrow> routing_context \<Rightarrow>
    (('w, 'b) gateway_scheme, chat_response) eff" where
  "route env rt request c s =
     (let candidates = route_candidates (rt_policy rt) c
      in if candidates = []
         then (Inl (NoHealthyProviderError ''routing policy produced zero candidate providers''), s)
         else route_loop env rt request candidates candidates s)"

section \<open>The shipped policy\<close>

text \<open>\<open>policies/routing.yaml\<close>, as \<open>RoutingPolicy.from_yaml\<close> loads it.\<close>

definition routing_yaml :: routing_policy where
  "routing_yaml =
     \<lparr>rp_version = 1, rp_default_provider = ''local'',
      rp_providers =
        [(''local'', \<lparr>pc_model = ''llama3.1:8b'', pc_region = ''local'',
            pc_cost_per_1k_input_tokens = 0, pc_cost_per_1k_output_tokens = 0\<rparr>),
         (''bedrock'', \<lparr>pc_model = ''anthropic.claude-3-5-sonnet-20241022-v2:0'',
            pc_region = ''us-east-1'',
            pc_cost_per_1k_input_tokens = 3 / 1000, pc_cost_per_1k_output_tokens = 15 / 1000\<rparr>),
         (''foundry'', \<lparr>pc_model = ''gpt-4o'', pc_region = ''eastus'',
            pc_cost_per_1k_input_tokens = 25 / 10000, pc_cost_per_1k_output_tokens = 1 / 100\<rparr>)],
      rp_rules =
        [\<lparr>rule_name = ''confidential-and-restricted-never-leave-org'',
          rule_when = [(''data_classification'', [''confidential'', ''restricted''])],
          rule_allow = [''local'']\<rparr>,
         \<lparr>rule_name = ''internal-prefers-local-falls-back-to-cloud'',
          rule_when = [(''data_classification'', [''internal''])],
          rule_allow = [''local'', ''bedrock'', ''foundry'']\<rparr>,
         \<lparr>rule_name = ''public-cost-optimized'',
          rule_when = [(''data_classification'', [''public'']), (''cost_tier'', [''economy''])],
          rule_allow = [''local'']\<rparr>,
         \<lparr>rule_name = ''public-quality-optimized'',
          rule_when = [(''data_classification'', [''public'']),
                       (''cost_tier'', [''standard'', ''premium''])],
          rule_allow = [''bedrock'', ''foundry'', ''local'']\<rparr>],
      rp_failover = \<lparr>fo_max_attempts = 3, fo_failure_threshold = 5, fo_reset_timeout_s = 30\<rparr>\<rparr>"

section \<open>What one turn does\<close>

lemma obs_kept [simp]:
  "obs (snd (before_call env p s)) = obs s"
  "obs (on_success p s) = obs s"
  "obs (on_failure env p s) = obs s"
  "obs (snd (read_clock env s)) = obs s"
  "obs (snd (call_provider prov req s)) = obs s"
  by (simp_all add: breaker_defs call_provider_def split: option.splits prod.splits)

lemma obs_before_call: "before_call env p s = (r, s1) \<Longrightarrow> obs s1 = obs s"
  using obs_kept(1) [of env p s] by simp

lemma obs_read_clock: "read_clock env s = (t, s1) \<Longrightarrow> obs s1 = obs s"
  using obs_kept(4) [of env s] by simp

lemma obs_call_provider: "call_provider prov req s = (r, s1) \<Longrightarrow> obs s1 = obs s"
  using obs_kept(5) [of prov req s] by simp

lemma obs_emit [simp]: "obs (emit e s) = obs s @ [e]"
  by (simp add: emit_def)

text \<open>The providers a log says were called, and the outcomes it says the calls had.\<close>

fun called_in :: "obs_event \<Rightarrow> string list" where
  "called_in (SpanStart p r t) = [p]"
| "called_in _ = []"

fun outcome_in :: "obs_event \<Rightarrow> string list" where
  "outcome_in (SpanAttr k v) = (if k = ''aegis.outcome'' then [v] else [])"
| "outcome_in _ = []"

definition called :: "obs_event list \<Rightarrow> string list" where
  "called es = concat (map called_in es)"

definition outcomes_of :: "obs_event list \<Rightarrow> string list" where
  "outcomes_of es = concat (map outcome_in es)"

lemma called_simps [simp]:
  "called [] = []" "called (xs @ ys) = called xs @ called ys" "called (e # xs) = called_in e @ called xs"
  "outcomes_of [] = []" "outcomes_of (xs @ ys) = outcomes_of xs @ outcomes_of ys"
  "outcomes_of (e # xs) = outcome_in e @ outcomes_of xs"
  by (simp_all add: called_def outcomes_of_def)

lemma observe_log [simp]:
  "called (obs (observe env p t k resp s)) = called (obs s)"
  "outcomes_of (obs (observe env p t k resp s)) = outcomes_of (obs s)"
  by (auto simp: observe_def Let_def obs_read_clock split: option.splits prod.splits)

lemma breakers_read_clock: "read_clock env s = (t, s1) \<Longrightarrow> breakers s1 = breakers s"
  using read_clock_breakers [of env s] by simp

lemma observe_breakers [simp]: "breakers (observe env p t k resp s) = breakers s"
  by (auto simp: observe_def Let_def emit_def breakers_read_clock split: option.splits prod.splits)

lemma emit_breakers [simp]: "breakers (emit e s) = breakers s"
  by (simp add: emit_def)

lemma call_provider_breakers:
  "call_provider prov req s = (r, s1) \<Longrightarrow> breakers s1 = breakers s"
  by (auto simp: call_provider_def split: prod.splits)

text \<open>
  The seven ways through the loop body, with the request the provider got and the state
  in which it was called.
\<close>

lemma attempt_cases [consumes 1, case_names unregistered refused unconfigured auth failed other success]:
  assumes "attempt env rt request p s = (t, s')"
  obtains "rt_providers rt p = None" "t = Continue" "s' = s"
  | prov e s1 where "rt_providers rt p = Some prov" "before_call env p s = (Inl e, s1)"
      "t = Continue" "s' = s1"
  | prov s1 where "rt_providers rt p = Some prov" "before_call env p s = (Inr (), s1)"
      "map_of (rp_providers (rt_policy rt)) p = None" "t = Raise (KeyError (py_repr p))" "s' = s1"
  | prov cfg s1 u s2 e s4 where "rt_providers rt p = Some prov" "before_call env p s = (Inr (), s1)"
      "map_of (rp_providers (rt_policy rt)) p = Some cfg" "read_clock env s1 = (u, s2)"
      "call_provider prov (request\<lparr>req_model := str_or (req_model request) (pc_model cfg)\<rparr>)
         (emit (SpanStart p (req_request_id request) (req_tenant_id request)) s2) = (Inl e, s4)"
      "is_auth_error e" "t = Raise e"
      "s' = emit (SpanAttr ''aegis.outcome'' ''auth_error'') (observe env p u ''auth_error'' None s4)"
  | prov cfg s1 u s2 e s4 where "rt_providers rt p = Some prov" "before_call env p s = (Inr (), s1)"
      "map_of (rp_providers (rt_policy rt)) p = Some cfg" "read_clock env s1 = (u, s2)"
      "call_provider prov (request\<lparr>req_model := str_or (req_model request) (pc_model cfg)\<rparr>)
         (emit (SpanStart p (req_request_id request) (req_tenant_id request)) s2) = (Inl e, s4)"
      "\<not> is_auth_error e" "is_provider_error e" "t = Continue"
      "s' = emit (SpanAttr ''aegis.outcome'' ''error'')
         (observe env p u ''error'' None (on_failure env p s4))"
  | prov cfg s1 u s2 e s4 where "rt_providers rt p = Some prov" "before_call env p s = (Inr (), s1)"
      "map_of (rp_providers (rt_policy rt)) p = Some cfg" "read_clock env s1 = (u, s2)"
      "call_provider prov (request\<lparr>req_model := str_or (req_model request) (pc_model cfg)\<rparr>)
         (emit (SpanStart p (req_request_id request) (req_tenant_id request)) s2) = (Inl e, s4)"
      "\<not> is_provider_error e" "t = Raise e" "s' = s4"
  | prov cfg s1 u s2 resp s4 where "rt_providers rt p = Some prov" "before_call env p s = (Inr (), s1)"
      "map_of (rp_providers (rt_policy rt)) p = Some cfg" "read_clock env s1 = (u, s2)"
      "call_provider prov (request\<lparr>req_model := str_or (req_model request) (pc_model cfg)\<rparr>)
         (emit (SpanStart p (req_request_id request) (req_tenant_id request)) s2) = (Inr resp, s4)"
      "t = Return resp"
      "s' = on_success p (observe env p u ''success'' (Some resp)
         (emit (SpanTokens ''aegis.output_tokens'' (output_tokens (resp_usage resp)))
         (emit (SpanTokens ''aegis.input_tokens'' (input_tokens (resp_usage resp)))
         (emit (SpanAttr ''aegis.outcome'' ''success'') s4))))"
  using assms auth_error_is_provider_error
  by (auto simp: attempt_def Let_def split: option.splits prod.splits sum.splits if_splits)

text \<open>The state in which the provider has answered: one more span, same breakers.\<close>

lemma after_provider:
  assumes "before_call env p s = (r, s1)" "read_clock env s1 = (u, s2)"
    and "call_provider prov rq (emit e s2) = (x, s4)"
  shows "obs s4 = obs s @ [e]" and "breakers s4 = breakers s1"
  using assms(3) obs_before_call [OF assms(1)] obs_read_clock [OF assms(2)]
    breakers_read_clock [OF assms(2)] call_provider_breakers [OF assms(3)]
  by (simp_all add: obs_call_provider [OF assms(3)])

lemma attempt_log:
  assumes "attempt env rt request p s = (t, s')"
  shows "\<exists>c. (c = [] \<or> c = [p]) \<and> called (obs s') = called (obs s) @ c"
  using assms
proof (cases rule: attempt_cases)
  case (auth prov cfg s1 u s2 e s4)
  then show ?thesis using after_provider(1) [OF auth(2,4,5)] by simp
next
  case (failed prov cfg s1 u s2 e s4)
  then show ?thesis using after_provider(1) [OF failed(2,4,5)] by simp
next
  case (other prov cfg s1 u s2 e s4)
  then show ?thesis using after_provider(1) [OF other(2,4,5)] by simp
next
  case (success prov cfg s1 u s2 resp s4)
  then show ?thesis using after_provider(1) [OF success(2,4,5)] by simp
qed (simp_all add: obs_before_call)

lemma attempt_outcome:
  assumes "attempt env rt request p s = (t, s')"
  shows "outcomes_of (obs s') = outcomes_of (obs s) @
    (case t of Return resp \<Rightarrow> [''success'']
     | Raise e \<Rightarrow> if is_auth_error e then [''auth_error''] else []
     | Continue \<Rightarrow> []) \<or>
    (t = Continue \<and> outcomes_of (obs s') = outcomes_of (obs s) @ [''error''])"
  using assms
proof (cases rule: attempt_cases)
  case (auth prov cfg s1 u s2 e s4)
  then show ?thesis using after_provider(1) [OF auth(2,4,5)] by simp
next
  case (failed prov cfg s1 u s2 e s4)
  then show ?thesis using after_provider(1) [OF failed(2,4,5)] by simp
next
  case (other prov cfg s1 u s2 e s4)
  then show ?thesis
    using after_provider(1) [OF other(2,4,5)] auth_error_is_provider_error by auto
next
  case (success prov cfg s1 u s2 resp s4)
  then show ?thesis using after_provider(1) [OF success(2,4,5)] by simp
qed (simp_all add: obs_before_call)

lemma attempt_restrict:
  assumes "f p = rt_providers rt p"
  shows "attempt env (rt\<lparr>rt_providers := f\<rparr>) request p s = attempt env rt request p s"
proof -
  have pol: "rt_policy (rt\<lparr>rt_providers := f\<rparr>) = rt_policy rt"
    and prov: "rt_providers (rt\<lparr>rt_providers := f\<rparr>) p = rt_providers rt p"
    using assms by simp_all
  show ?thesis unfolding attempt_def pol prov ..
qed

text \<open>
  A property of the breaker registry that every breaker operation on \<open>p\<close> keeps is kept
  by the turn of \<open>p\<close>.
\<close>

lemma attempt_breaker_inv:
  fixes s :: "('w, 'b) gateway_scheme"
  assumes run: "attempt env rt request p s = (t, s')"
    and inv: "I (breakers s)"
    and before: "\<And>s :: ('w, 'b) gateway_scheme. I (breakers s) \<Longrightarrow> I (breakers (snd (before_call env p s)))"
    and succ: "\<And>s :: ('w, 'b) gateway_scheme. I (breakers s) \<Longrightarrow> I (breakers (on_success p s))"
    and fail: "\<And>s :: ('w, 'b) gateway_scheme. I (breakers s) \<Longrightarrow> I (breakers (on_failure env p s))"
  shows "I (breakers s')"
proof -
  have b: "I (breakers s1)" if "before_call env p s = (r, s1)" for r s1
    using before [OF inv] that by simp
  have c: "I (breakers s4)"
    if "before_call env p s = (r, s1)" "read_clock env s1 = (u, s2)"
      "call_provider prov rq (emit e s2) = (x, s4)" for r s1 u s2 prov rq e x s4
    using b [OF that(1)] after_provider(2) [OF that] by simp
  show ?thesis
    using run
  proof (cases rule: attempt_cases)
    case (failed prov cfg s1 u s2 e s4)
    then show ?thesis using fail [OF c [OF failed(2,4,5)]] by simp
  next
    case (success prov cfg s1 u s2 resp s4)
    let ?s5 = "observe env p u ''success'' (Some resp)
         (emit (SpanTokens ''aegis.output_tokens'' (output_tokens (resp_usage resp)))
         (emit (SpanTokens ''aegis.input_tokens'' (input_tokens (resp_usage resp)))
         (emit (SpanAttr ''aegis.outcome'' ''success'') s4)))"
    have "I (breakers ?s5)" using c [OF success(2,4,5)] by simp
    from succ [OF this] show ?thesis using success by simp
  qed (use inv b c in \<open>auto\<close>)
qed

section \<open>The loop over the candidates\<close>

lemma route_loop_breaker_inv:
  fixes s :: "('w, 'b) gateway_scheme"
  assumes "I (breakers s)"
    and "\<And>(s :: ('w, 'b) gateway_scheme) p. p \<in> set ps \<Longrightarrow> I (breakers s) \<Longrightarrow> I (breakers (snd (before_call env p s)))"
    and "\<And>(s :: ('w, 'b) gateway_scheme) p. p \<in> set ps \<Longrightarrow> I (breakers s) \<Longrightarrow> I (breakers (on_success p s))"
    and "\<And>(s :: ('w, 'b) gateway_scheme) p. p \<in> set ps \<Longrightarrow> I (breakers s) \<Longrightarrow> I (breakers (on_failure env p s))"
  shows "I (breakers (snd (route_loop env rt request cands ps s)))"
  using assms
proof (induction ps arbitrary: s)
  case (Cons p ps)
  obtain t s1 where a: "attempt env rt request p s = (t, s1)" by fastforce
  have "I (breakers s1)" by (rule attempt_breaker_inv [OF a, where I = I]) (use Cons.prems in auto)
  then have "I (breakers (snd (route_loop env rt request cands ps s1)))"
    by (rule Cons.IH) (use Cons.prems in auto)
  with \<open>I (breakers s1)\<close> a show ?case by (simp split: turn.splits)
qed simp

lemma route_loop_log:
  "\<exists>cs. subseq cs ps \<and>
     called (obs (snd (route_loop env rt request cands ps s))) = called (obs s) @ cs"
proof (induction ps arbitrary: s)
  case (Cons p ps)
  obtain t s1 where a: "attempt env rt request p s = (t, s1)" by fastforce
  obtain c where c: "c = [] \<or> c = [p]" "called (obs s1) = called (obs s) @ c"
    using attempt_log [OF a] by blast
  obtain cs where cs: "subseq cs ps"
      "called (obs (snd (route_loop env rt request cands ps s1))) = called (obs s1) @ cs"
    using Cons.IH by blast
  show ?case
  proof (cases t)
    case Continue
    have "subseq (c @ cs) (p # ps)" using c(1) cs(1) by auto
    then show ?thesis using Continue a c(2) cs(2) by (intro exI [of _ "c @ cs"]) simp
  qed (use a c in \<open>auto intro!: exI [of _ c]\<close>)
qed simp

lemma route_loop_outcomes:
  assumes "route_loop env rt request cands ps s = (r, s')"
  shows "\<exists>k. outcomes_of (obs s') = outcomes_of (obs s) @ replicate k ''error'' @
    (case r of Inr resp \<Rightarrow> [''success'']
     | Inl e \<Rightarrow> if is_auth_error e then [''auth_error''] else [])"
  using assms
proof (induction ps arbitrary: s)
  case Nil
  then show ?case by (auto intro!: exI [of _ 0])
next
  case (Cons p ps)
  obtain t s1 where a: "attempt env rt request p s = (t, s1)" by fastforce
  note o = attempt_outcome [OF a]
  show ?case
  proof (cases t)
    case Continue
    with Cons.prems a have "route_loop env rt request cands ps s1 = (r, s')" by simp
    from Cons.IH [OF this] obtain k where k: "outcomes_of (obs s') =
      outcomes_of (obs s1) @ replicate k ''error'' @
      (case r of Inr resp \<Rightarrow> [''success'']
       | Inl e \<Rightarrow> if is_auth_error e then [''auth_error''] else [])" by blast
    from o Continue have "outcomes_of (obs s1) = outcomes_of (obs s) \<or>
      outcomes_of (obs s1) = outcomes_of (obs s) @ [''error'']" by simp
    with k show ?thesis by (elim disjE) (auto intro: exI [of _ k] exI [of _ "Suc k"])
  qed (use o a Cons.prems in \<open>auto intro!: exI [of _ 0]\<close>)
qed

lemma route_loop_restrict:
  assumes "\<forall>p \<in> set ps. f p = rt_providers rt p"
  shows "route_loop env (rt\<lparr>rt_providers := f\<rparr>) request cands ps s =
    route_loop env rt request cands ps s"
  using assms
proof (induction ps arbitrary: s)
  case (Cons p ps)
  then show ?case by (simp add: attempt_restrict split: prod.splits turn.splits)
qed simp

lemma attempt_frame:
  assumes "attempt env rt request p s = (t, s')" and "q \<noteq> p"
  shows "peek q s' = peek q s"
proof -
  let ?I = "\<lambda>r. (case entries r q of Some e \<Rightarrow> e | None \<Rightarrow> new_entry) = peek q s"
  have "?I (breakers s')"
    by (rule attempt_breaker_inv [OF assms(1), where I = ?I])
      (use assms(2) in \<open>simp_all add: before_call_frame peek_on_success on_failure_frame
        flip: peek_def\<close>)
  then show ?thesis by (simp add: peek_def)
qed

lemma route_loop_frame:
  assumes "q \<notin> set ps"
  shows "peek q (snd (route_loop env rt request cands ps s)) = peek q s"
  using assms
proof (induction ps arbitrary: s)
  case (Cons p ps)
  obtain t s1 where a: "attempt env rt request p s = (t, s1)" by fastforce
  have "peek q s1 = peek q s" using attempt_frame [OF a] Cons.prems by auto
  with a Cons show ?case by (simp split: turn.splits)
qed simp

text \<open>Providers that fail only with retryable provider errors, or not at all.\<close>

definition retryable_only :: "'w provider \<Rightarrow> bool" where
  "retryable_only prov \<longleftrightarrow>
     (\<forall>rq w e w'. prov_chat prov rq w = (Inl e, w') \<longrightarrow> is_provider_error e \<and> \<not> is_auth_error e)"

definition never_fails :: "'w provider \<Rightarrow> bool" where
  "never_fails prov \<longleftrightarrow> (\<forall>rq w e w'. prov_chat prov rq w \<noteq> (Inl e, w'))"

lemma call_provider_Inl:
  "call_provider prov rq s = (Inl e, s') \<Longrightarrow> \<exists>w'. prov_chat prov rq (world s) = (Inl e, w')"
  by (auto simp: call_provider_def split: prod.splits)

lemma attempt_retryable:
  assumes "attempt env rt request p s = (t, s')"
    and soft: "\<And>prov. rt_providers rt p = Some prov \<Longrightarrow>
      retryable_only prov \<and> map_of (rp_providers (rt_policy rt)) p \<noteq> None"
  shows "t = Continue \<or> (\<exists>resp. t = Return resp)"
  using assms(1)
proof (cases rule: attempt_cases)
  case (auth prov cfg s1 u s2 e s4)
  then show ?thesis using soft call_provider_Inl [OF auth(5)] by (auto simp: retryable_only_def)
next
  case (other prov cfg s1 u s2 e s4)
  then show ?thesis using soft call_provider_Inl [OF other(5)] by (auto simp: retryable_only_def)
qed (use soft in auto)

lemma attempt_healthy:
  assumes "attempt env rt request p s = (t, s')"
    and "rt_providers rt p = Some prov" "never_fails prov"
    and "map_of (rp_providers (rt_policy rt)) p \<noteq> None" "cb_state (peek p s) \<noteq> OPEN"
  shows "\<exists>resp. t = Return resp"
  using assms(1)
proof (cases rule: attempt_cases)
  case (refused prov' e s1)
  then show ?thesis using before_call_refused [of env p s e] assms(5) by simp
next
  case (auth prov' cfg s1 u s2 e s4)
  then show ?thesis using assms(2,3) call_provider_Inl [OF auth(5)] by (auto simp: never_fails_def)
next
  case (failed prov' cfg s1 u s2 e s4)
  then show ?thesis using assms(2,3) call_provider_Inl [OF failed(5)] by (auto simp: never_fails_def)
next
  case (other prov' cfg s1 u s2 e s4)
  then show ?thesis using assms(2,3) call_provider_Inl [OF other(5)] by (auto simp: never_fails_def)
qed (use assms in auto)

lemma route_loop_healthy:
  assumes "p \<in> set ps" "rt_providers rt p = Some prov" "never_fails prov"
    "cb_state (peek p s) \<noteq> OPEN" "map_of (rp_providers (rt_policy rt)) p \<noteq> None"
    and soft: "\<And>q prov. q \<in> set ps \<Longrightarrow> rt_providers rt q = Some prov \<Longrightarrow>
      retryable_only prov \<and> map_of (rp_providers (rt_policy rt)) q \<noteq> None"
  shows "\<exists>resp. fst (route_loop env rt request cands ps s) = Inr resp"
  using assms
proof (induction ps arbitrary: s)
  case (Cons q ps)
  obtain t s1 where a: "attempt env rt request q s = (t, s1)" by fastforce
  show ?case
  proof (cases "q = p")
    case True
    with attempt_healthy a Cons.prems obtain resp where "t = Return resp" by blast
    with a show ?thesis by simp
  next
    case False
    have "peek p s1 = peek p s" using attempt_frame [OF a] False by auto
    moreover have "t = Continue \<or> (\<exists>resp. t = Return resp)"
      using attempt_retryable [OF a] Cons.prems(6) by auto
    moreover have "\<exists>resp. fst (route_loop env rt request cands ps s1) = Inr resp"
      by (rule Cons.IH) (use False Cons.prems \<open>peek p s1 = peek p s\<close> in auto)
    ultimately show ?thesis using a by auto
  qed
qed simp

lemma route_loop_answer:
  assumes "route_loop env rt request cands ps s = (Inr resp, s')"
  shows "\<exists>p \<in> set ps. \<exists>prov cfg w w'. rt_providers rt p = Some prov \<and>
    map_of (rp_providers (rt_policy rt)) p = Some cfg \<and>
    prov_chat prov (request\<lparr>req_model := str_or (req_model request) (pc_model cfg)\<rparr>) w = (Inr resp, w') \<and>
    cb_state (peek p s') = CLOSED \<and> consecutive_failures (peek p s') = 0"
  using assms
proof (induction ps arbitrary: s)
  case (Cons q ps)
  obtain t s1 where a: "attempt env rt request q s = (t, s1)" by fastforce
  show ?case
  proof (cases t)
    case Continue
    with a Cons show ?thesis by fastforce
  next
    case (Return resp')
    with a Cons.prems have eq: "resp' = resp" "s1 = s'" by auto
    from a show ?thesis
    proof (cases rule: attempt_cases)
      case (success prov cfg s1 u s2 resp'' s4)
      then show ?thesis using eq Return
        by (auto simp: peek_on_success call_provider_def split: prod.splits)
    qed (use Return in auto)
  qed (use a Cons.prems in auto)
qed simp

lemma route_loop_error:
  assumes "route_loop env rt request cands ps s = (Inl e, s')"
  shows "e = NoHealthyProviderError (''no healthy provider among candidates '' @ list_repr cands) \<or>
    (\<exists>p \<in> set ps. e = KeyError (py_repr p) \<and> rt_providers rt p \<noteq> None \<and>
       map_of (rp_providers (rt_policy rt)) p = None) \<or>
    (\<exists>p \<in> set ps. \<exists>prov rq w w'. rt_providers rt p = Some prov \<and> prov_chat prov rq w = (Inl e, w') \<and>
       (is_auth_error e \<or> \<not> is_provider_error e))"
  using assms
proof (induction ps arbitrary: s)
  case (Cons q ps)
  obtain t s1 where a: "attempt env rt request q s = (t, s1)" by fastforce
  show ?case
  proof (cases t)
    case Continue
    with a Cons.prems have "route_loop env rt request cands ps s1 = (Inl e, s')" by simp
    from Cons.IH [OF this] show ?thesis by auto
  next
    case (Raise e')
    with a Cons.prems have eq: "e' = e" by auto
    from a show ?thesis
    proof (cases rule: attempt_cases)
      case (auth prov cfg s1 u s2 e s4)
      then show ?thesis using eq Raise call_provider_Inl [OF auth(5)] by fastforce
    next
      case (other prov cfg s1 u s2 e s4)
      then show ?thesis using eq Raise call_provider_Inl [OF other(5)] by fastforce
    qed (use eq Raise in auto)
  qed (use a Cons.prems in auto)
qed simp

section \<open>What the providers are asked\<close>

text \<open>Two routers whose providers answer alike when they are sent the messages \<open>ms\<close>, and only then.\<close>

definition same_answers :: "chat_message list \<Rightarrow> 'w router \<Rightarrow> 'w router \<Rightarrow> bool" where
  "same_answers ms rt' rt \<longleftrightarrow> rt_policy rt' = rt_policy rt \<and>
     (\<forall>p rq. req_messages rq = ms \<longrightarrow>
        map_option (\<lambda>prov. prov_chat prov rq) (rt_providers rt' p) =
        map_option (\<lambda>prov. prov_chat prov rq) (rt_providers rt p))"

lemma attempt_same_answers:
  fixes s :: "('b, 'c) gateway_scheme"
  assumes "same_answers (req_messages request) rt' rt"
  shows "attempt env rt' request p s = attempt env rt request p s"
proof -
  have pol: "rt_policy rt' = rt_policy rt" using assms by (simp add: same_answers_def)
  have eq: "map_option (\<lambda>prov. prov_chat prov (request\<lparr>req_model := m\<rparr>)) (rt_providers rt' p) =
      map_option (\<lambda>prov. prov_chat prov (request\<lparr>req_model := m\<rparr>)) (rt_providers rt p)" for m
    using assms by (simp add: same_answers_def)
  show ?thesis
  proof (cases "rt_providers rt p")
    case None
    with eq show ?thesis by (simp add: attempt_def)
  next
    case (Some prov)
    with eq [of "[]"] obtain prov' where prov': "rt_providers rt' p = Some prov'" by auto
    have "prov_chat prov' (request\<lparr>req_model := m\<rparr>) = prov_chat prov (request\<lparr>req_model := m\<rparr>)" for m
      using eq [of m] Some prov' by simp
    then have call: "call_provider prov' (request\<lparr>req_model := m\<rparr>) x = call_provider prov (request\<lparr>req_model := m\<rparr>) x"
      for m and x :: "('b, 'c) gateway_scheme"
      by (simp add: call_provider_def)
    show ?thesis unfolding attempt_def Some prov' pol option.case Let_def call ..
  qed
qed

lemma route_same_answers:
  fixes s :: "('b, 'c) gateway_scheme"
  assumes "same_answers (req_messages request) rt' rt"
  shows "route env rt' request c s = route env rt request c s"
proof -
  have "route_loop env rt' request cands ps s = route_loop env rt request cands ps s" for cands ps
      and s :: "('b, 'c) gateway_scheme"
    by (induction ps arbitrary: s)
      (auto simp: attempt_same_answers [OF assms] split: prod.split turn.split)
  then show ?thesis using assms by (simp add: route_def same_answers_def Let_def)
qed

lemma route_answer:
  assumes "route env rt request c s = (Inr resp, s')"
  shows "\<exists>p \<in> set (route_candidates (rt_policy rt) c). \<exists>prov m w w'. rt_providers rt p = Some prov \<and>
    prov_chat prov (request\<lparr>req_model := m\<rparr>) w = (Inr resp, w')"
proof -
  let ?cs = "route_candidates (rt_policy rt) c"
  have "route_loop env rt request ?cs ?cs s = (Inr resp, s')"
    using assms by (auto simp: route_def Let_def split: if_splits)
  from route_loop_answer [OF this] show ?thesis by blast
qed

section \<open>The invariant of the registry across a request\<close>

definition breakers_ok :: "registry \<Rightarrow> bool" where
  "breakers_ok r \<longleftrightarrow> 1 \<le> failure_threshold r \<and>
     (\<forall>q. let e = (case entries r q of Some e \<Rightarrow> e | None \<Rightarrow> new_entry)
          in cb_state e = CLOSED \<longleftrightarrow> consecutive_failures e < failure_threshold r)"

lemma breakers_ok_peek:
  "breakers_ok (breakers s) \<longleftrightarrow> 1 \<le> failure_threshold (breakers s) \<and>
     (\<forall>q. cb_state (peek q s) = CLOSED \<longleftrightarrow>
          consecutive_failures (peek q s) < failure_threshold (breakers s))"
  by (simp add: breakers_ok_def peek_def Let_def)

lemma breakers_ok_new: "1 \<le> n \<Longrightarrow> breakers_ok (new_registry n t)"
  by (simp add: breakers_ok_def new_registry_def)

lemma breakers_ok_before:
  assumes "breakers_ok (breakers s)"
  shows "breakers_ok (breakers (snd (before_call env p s)))"
  unfolding breakers_ok_peek
proof (intro conjI allI)
  show "1 \<le> failure_threshold (breakers (snd (before_call env p s)))"
    using assms by (simp add: breakers_ok_peek)
  show "cb_state (peek q (snd (before_call env p s))) = CLOSED \<longleftrightarrow>
      consecutive_failures (peek q (snd (before_call env p s)))
        < failure_threshold (breakers (snd (before_call env p s)))" for q
  proof (cases "q = p")
    case True
    from assms have "cb_state (peek p s) = CLOSED \<longleftrightarrow>
        consecutive_failures (peek p s) < failure_threshold (breakers s)"
      by (simp add: breakers_ok_peek)
    with True show ?thesis by (auto simp: before_call_count before_call_state)
  qed (use assms in \<open>simp add: breakers_ok_peek before_call_frame\<close>)
qed

lemma breakers_ok_success:
  "breakers_ok (breakers s) \<Longrightarrow> breakers_ok (breakers (on_success p s))"
  by (simp add: breakers_ok_peek peek_on_success)

lemma breakers_ok_failure:
  assumes "breakers_ok (breakers s)"
  shows "breakers_ok (breakers (on_failure env p s))"
  unfolding breakers_ok_peek
proof (intro conjI allI)
  show "1 \<le> failure_threshold (breakers (on_failure env p s))"
    using assms by (simp add: breakers_ok_peek)
  show "cb_state (peek q (on_failure env p s)) = CLOSED \<longleftrightarrow>
      consecutive_failures (peek q (on_failure env p s))
        < failure_threshold (breakers (on_failure env p s))" for q
  proof (cases "q = p")
    case True
    from assms have "cb_state (peek p s) = CLOSED \<longleftrightarrow>
        consecutive_failures (peek p s) < failure_threshold (breakers s)"
      by (simp add: breakers_ok_peek)
    with True show ?thesis by (auto simp: on_failure_count on_failure_state)
  qed (use assms in \<open>simp add: breakers_ok_peek on_failure_frame\<close>)
qed

section \<open>Concrete providers and a router, for the witnesses\<close>

definition reply_provider :: "string \<Rightarrow> nat provider" where
  "reply_provider n = \<lparr>prov_name = n, prov_chat = (\<lambda>rq w.
     (Inr \<lparr>resp_message = chat_message ASSISTANT ''hi'', resp_tool_calls = [],
           resp_usage = \<lparr>input_tokens = 3, output_tokens = 2\<rparr>, resp_provider_name = n,
           resp_model = req_model rq, resp_finish_reason = ''stop'', resp_raw = []\<rparr>, w))\<rparr>"

definition failing_provider :: "string \<Rightarrow> exn \<Rightarrow> nat provider" where
  "failing_provider n e = \<lparr>prov_name = n, prov_chat = (\<lambda>rq w. (Inl e, w))\<rparr>"

definition demo_router :: "nat router" where
  "demo_router = \<lparr>rt_policy = routing_yaml,
     rt_providers = [''local'' \<mapsto> failing_provider ''local'' (ProviderUnavailableError ''down''),
                     ''bedrock'' \<mapsto> reply_provider ''bedrock'']\<rparr>"

definition demo_request :: chat_request where
  "demo_request = \<lparr>req_messages = [chat_message USER ''hi''], req_model = [], req_tools = [],
     req_temperature = 1 / 5, req_max_output_tokens = 1024,
     req_tenant_id = ''t-1'', req_request_id = ''r-1''\<rparr>"

definition demo_gateway :: "nat gateway" where
  "demo_gateway = \<lparr>breakers = router_breakers routing_yaml None, world = 0, obs = []\<rparr>"

definition ctx_of :: "string \<Rightarrow> string \<Rightarrow> routing_context" where
  "ctx_of d c =
     \<lparr>ctx_tenant_id = ''t-1'', ctx_data_classification = d, ctx_cost_tier = c\<rparr>"

lemmas demo_defs = demo_router_def demo_request_def demo_gateway_def ctx_of_def routing_yaml_def
  reply_provider_def failing_provider_def tick_env_def

lemma internal_candidates:
  "route_candidates routing_yaml (ctx_of ''internal'' ''standard'') = [''local'', ''bedrock'', ''foundry'']"
  by (simp add: route_candidates_def candidates_for_def routing_yaml_def ctx_of_def matches_def
      context_dump_def slice_to_def)

lemma demo_peek [simp]: "peek p demo_gateway = new_entry"
  by (simp add: peek_def demo_gateway_def router_breakers_def new_registry_def)

lemma route_restrict:
  "route env (rt\<lparr>rt_providers := rt_providers rt |` set (route_candidates (rt_policy rt) c)\<rparr>)
     request c s = route env rt request c s"
  using route_loop_restrict [of "route_candidates (rt_policy rt) c"
      "rt_providers rt |` set (route_candidates (rt_policy rt) c)" rt env request
      "route_candidates (rt_policy rt) c" s]
  by (simp add: route_def Let_def)

lemma subseq_set: "subseq xs ys \<Longrightarrow> set xs \<subseteq> set ys"
  by (auto elim: list_emb_set)

section \<open>Properties\<close>

text \<open>
  \<open>route\<close> shows the request to no provider outside the first \<open>max_attempts\<close>
  candidates of the policy for its context: the outcome is the same when every other
  provider is removed from the router, and the spans it opens are, in order, a
  subsequence of those candidates, so none is tried twice unless the policy lists it twice.
\<close>

theorem route_asks_candidates_only:
  "route env (rt\<lparr>rt_providers := rt_providers rt |` set (route_candidates (rt_policy rt) c)\<rparr>)
       request c s = route env rt request c s \<and>
   (\<exists>cs. subseq cs (route_candidates (rt_policy rt) c) \<and>
      called (obs (snd (route env rt request c s))) = called (obs s) @ cs)"
proof
  show "route env (rt\<lparr>rt_providers := rt_providers rt |` set (route_candidates (rt_policy rt) c)\<rparr>)
       request c s = route env rt request c s"
    by (rule route_restrict)
  show "\<exists>cs. subseq cs (route_candidates (rt_policy rt) c) \<and>
      called (obs (snd (route env rt request c s))) = called (obs s) @ cs"
    using route_loop_log [of "route_candidates (rt_policy rt) c"] by (auto simp: route_def Let_def)
qed

text \<open>
  Under the shipped routing policy a request classified confidential or restricted is
  shown to the provider \<open>local\<close> only, whatever its cost tier, the state of the circuits
  and the errors on the way.
\<close>

theorem confidential_stays_local:
  assumes cls: "ctx_data_classification c \<in> {''confidential'', ''restricted''}"
    and pol: "rt_policy rt = routing_yaml"
  shows "route env (rt\<lparr>rt_providers := rt_providers rt |` {''local''}\<rparr>) request c s =
      route env rt request c s \<and>
    (\<exists>cs. set cs \<subseteq> {''local''} \<and>
      called (obs (snd (route env rt request c s))) = called (obs s) @ cs)"
proof -
  have cand: "route_candidates (rt_policy rt) c = [''local'']"
    using assms by (auto simp: route_candidates_def candidates_for_def routing_yaml_def matches_def
      context_dump_def slice_to_def)
  have "route env (rt\<lparr>rt_providers := rt_providers rt |` {''local''}\<rparr>) request c s =
      route env rt request c s"
    using route_restrict [of env rt c request s] by (simp only: cand list.set)
  moreover obtain cs where "subseq cs [''local'']"
      "called (obs (snd (route env rt request c s))) = called (obs s) @ cs"
    using route_loop_log [of "[''local'']" env rt request "[''local'']" s] cand
    by (auto simp: route_def Let_def)
  ultimately show ?thesis using subseq_set [of cs "[''local'']"] by auto
qed

theorem confidential_stays_local_witness:
  "\<exists>cs. set cs \<subseteq> {''local''} \<and> called (obs (snd (route tick_env demo_router demo_request
     (ctx_of ''confidential'' ''premium'') demo_gateway))) = called (obs demo_gateway) @ cs"
proof -
  have "ctx_data_classification (ctx_of ''confidential'' ''premium'') \<in> {''confidential'', ''restricted''}"
    and "rt_policy demo_router = routing_yaml"
    by (simp_all add: ctx_of_def demo_router_def)
  from confidential_stays_local [OF this, of tick_env demo_request demo_gateway]
  show ?thesis ..
qed

text \<open>
  What \<open>route\<close> returns. An answer is the answer that a candidate gave to the request
  with the model filled in from its configuration where the caller named none, and the
  circuit of that candidate is closed with no failures counted. An error is either
  \<open>NoHealthyProviderError\<close>, or a \<open>KeyError\<close> for a candidate that is registered without a
  configuration, or the error a candidate raised, and then it is one the router must not
  fail over on: an authentication error, or no provider error at all.
\<close>

theorem route_result:
  "case route env rt request c s of
     (Inr resp, s') \<Rightarrow>
       (\<exists>p \<in> set (route_candidates (rt_policy rt) c). \<exists>prov cfg w w'.
          rt_providers rt p = Some prov \<and> map_of (rp_providers (rt_policy rt)) p = Some cfg \<and>
          prov_chat prov (request\<lparr>req_model := str_or (req_model request) (pc_model cfg)\<rparr>) w
            = (Inr resp, w') \<and>
          cb_state (peek p s') = CLOSED \<and> consecutive_failures (peek p s') = 0)
   | (Inl e, s') \<Rightarrow>
       (\<exists>m. e = NoHealthyProviderError m) \<or>
       (\<exists>p \<in> set (route_candidates (rt_policy rt) c). e = KeyError (py_repr p) \<and>
          rt_providers rt p \<noteq> None \<and> map_of (rp_providers (rt_policy rt)) p = None) \<or>
       (\<exists>p \<in> set (route_candidates (rt_policy rt) c). \<exists>prov rq w w'.
          rt_providers rt p = Some prov \<and> prov_chat prov rq w = (Inl e, w') \<and>
          is_auth_error e = is_provider_error e)"
proof -
  let ?cs = "route_candidates (rt_policy rt) c"
  obtain r s' where run: "route env rt request c s = (r, s')" by fastforce
  show ?thesis
  proof (cases "?cs = []")
    case True
    with run show ?thesis by (auto simp: route_def)
  next
    case False
    with run have loop: "route_loop env rt request ?cs ?cs s = (r, s')"
      by (simp add: route_def Let_def)
    show ?thesis
    proof (cases r)
      case (Inl e)
      with loop have "route_loop env rt request ?cs ?cs s = (Inl e, s')" by simp
      from route_loop_error [OF this] show ?thesis
        using run Inl auth_error_is_provider_error by fastforce
    next
      case (Inr resp)
      with loop have "route_loop env rt request ?cs ?cs s = (Inr resp, s')" by simp
      from route_loop_answer [OF this] show ?thesis using run Inr by simp
    qed
  qed
qed

text \<open>
  C31. Failover order: the outcomes the spans of one request record are some number of
  failed calls, then one success if the request is answered, or one \<open>auth_error\<close> if that
  is what it raises. Nothing is called after a success or an authentication error.
\<close>

theorem failover_trace:
  "\<exists>k. outcomes_of (obs (snd (route env rt request c s))) =
     outcomes_of (obs s) @ replicate k ''error'' @
     (case fst (route env rt request c s) of
        Inr resp \<Rightarrow> [''success'']
      | Inl e \<Rightarrow> if is_auth_error e then [''auth_error''] else [])"
proof -
  let ?cs = "route_candidates (rt_policy rt) c"
  obtain r s' where run: "route_loop env rt request ?cs ?cs s = (r, s')" by fastforce
  show ?thesis
    using route_loop_outcomes [OF run] run
    by (auto simp: route_def Let_def intro!: exI [of _ 0])
qed

text \<open>
  Availability: if some candidate within \<open>max_attempts\<close> has a provider that does not
  fail and a circuit that is not open, and every registered candidate is configured and
  fails only with retryable provider errors, the request is answered.
\<close>

theorem route_finds_healthy:
  assumes "p \<in> set (route_candidates (rt_policy rt) c)"
    and "rt_providers rt p = Some prov" and "never_fails prov" and "cb_state (peek p s) \<noteq> OPEN"
    and soft: "\<And>q prov. q \<in> set (route_candidates (rt_policy rt) c) \<Longrightarrow>
      rt_providers rt q = Some prov \<Longrightarrow>
      retryable_only prov \<and> map_of (rp_providers (rt_policy rt)) q \<noteq> None"
  shows "\<exists>resp. fst (route env rt request c s) = Inr resp"
proof -
  let ?cs = "route_candidates (rt_policy rt) c"
  have "\<exists>resp. fst (route_loop env rt request ?cs ?cs s) = Inr resp"
    by (rule route_loop_healthy [OF assms(1-4)]) (use assms in auto)
  moreover have "?cs \<noteq> []" using assms(1) by auto
  ultimately show ?thesis by (simp add: route_def Let_def)
qed

theorem route_finds_healthy_witness:
  "\<exists>resp. fst (route tick_env demo_router demo_request (ctx_of ''internal'' ''standard'')
     demo_gateway) = Inr resp"
proof (rule route_finds_healthy)
  show "''bedrock'' \<in> set (route_candidates (rt_policy demo_router) (ctx_of ''internal'' ''standard''))"
    using internal_candidates by (simp add: demo_router_def)
  show "rt_providers demo_router ''bedrock'' = Some (reply_provider ''bedrock'')"
    by (simp add: demo_router_def)
  show "never_fails (reply_provider ''bedrock'')"
    by (simp add: never_fails_def reply_provider_def)
  show "cb_state (peek ''bedrock'' demo_gateway) \<noteq> OPEN" by simp
  show "retryable_only prov \<and> map_of (rp_providers (rt_policy demo_router)) q \<noteq> None"
    if "q \<in> set (route_candidates (rt_policy demo_router) (ctx_of ''internal'' ''standard''))"
      "rt_providers demo_router q = Some prov" for q prov
    using that by (auto simp: demo_defs retryable_only_def split: if_splits)
qed

text \<open>
  A request keeps the breaker invariant (a circuit is closed exactly while its failure
  count is below the threshold) and touches the entry of no provider outside its
  candidates.
\<close>

theorem route_keeps_breakers:
  assumes "breakers_ok (breakers s)"
  shows "breakers_ok (breakers (snd (route env rt request c s))) \<and>
    {q. peek q (snd (route env rt request c s)) \<noteq> peek q s}
      \<subseteq> set (route_candidates (rt_policy rt) c)"
proof -
  let ?cs = "route_candidates (rt_policy rt) c"
  have "breakers_ok (breakers (snd (route_loop env rt request ?cs ?cs s)))"
    by (rule route_loop_breaker_inv [where I = breakers_ok])
      (use assms in \<open>auto intro: breakers_ok_before breakers_ok_success breakers_ok_failure\<close>)
  moreover have "peek q (snd (route_loop env rt request ?cs ?cs s)) = peek q s"
    if "q \<notin> set ?cs" for q using that by (rule route_loop_frame)
  ultimately show ?thesis using assms by (auto simp: route_def Let_def)
qed

theorem route_keeps_breakers_witness:
  "breakers_ok (breakers (snd (route tick_env demo_router demo_request
     (ctx_of ''internal'' ''standard'') demo_gateway)))"
proof -
  have "breakers_ok (breakers demo_gateway)"
    by (simp add: demo_gateway_def router_breakers_def routing_yaml_def breakers_ok_new)
  from route_keeps_breakers [OF this] show ?thesis by blast
qed

text \<open>How the turn of a provider ends its call, as far as the circuit is told.\<close>

definition call_end_of :: "(exn + chat_response) \<Rightarrow> call_end" where
  "call_end_of r =
     (case r of
        Inr resp \<Rightarrow> Call_Ok
      | Inl e \<Rightarrow> if is_provider_error e \<and> \<not> is_auth_error e then Call_Failed else Call_Unreported)"

text \<open>
  C36. A turn of the router's loop for a registered provider with a configuration takes that
  provider's circuit through one step of the machine the documentation draws. The provider is
  called exactly when the circuit admits it: it is closed, half open, or has been open for the
  reset timeout or longer by the clock reading before the call. Then an answer closes the circuit
  with no failure counted; a provider error other than an authentication error counts one, and
  opens the circuit at the time of the failure when it is the \<open>failure_threshold\<close>-th in a row or the
  call was the probe of an open circuit; any other error reports nothing, so a circuit that was
  open stays half open. When the circuit does not admit the call, the turn goes on to the next
  candidate, nothing is logged and the circuit stays open since the same time. The entries of
  all other providers stay as they are.
\<close>

theorem attempt_refines_machine:
  fixes env :: "('w, 'e) env_scheme" and s :: "('w, 'b) gateway_scheme" and request :: chat_request
  assumes prov: "rt_providers rt p = Some prov"
    and cfg: "map_of (rp_providers (rt_policy rt)) p = Some cfg"
  defines "m \<equiv> circuit_of (peek p s)"
    and "after \<equiv> attempt env rt request p s"
    and "answer \<equiv> call_provider prov (request\<lparr>req_model := str_or (req_model request) (pc_model cfg)\<rparr>)
      (emit (SpanStart p (req_request_id request) (req_tenant_id request))
        (snd (read_clock env (snd (before_call env p s)))))"
  shows "(if circuit_admits (reset_timeout_s (breakers s)) (fst (read_clock env s)) m
     then called (obs (snd after)) = called (obs s) @ [p] \<and>
       circuit_of (peek p (snd after)) =
         circuit_end (failure_threshold (breakers s)) (call_end_of (fst answer))
           (fst (read_clock env (snd answer))) (circuit_admit m)
     else fst after = Continue \<and> obs (snd after) = obs s \<and> circuit_of (peek p (snd after)) = m) \<and>
   (\<forall>q. q \<noteq> p \<longrightarrow> peek q (snd after) = peek q s)"
proof -
  obtain b s1 where b: "before_call env p s = (b, s1)" by fastforce
  obtain u s2 where u: "read_clock env s1 = (u, s2)" by fastforce
  obtain r s4 where r: "answer = (r, s4)" by fastforce
  have call: "call_provider prov (request\<lparr>req_model := str_or (req_model request) (pc_model cfg)\<rparr>)
      (emit (SpanStart p (req_request_id request) (req_tenant_id request)) s2) = (r, s4)"
    using r b u by (simp add: answer_def)
  have others: "peek q (snd after) = peek q s" if "q \<noteq> p" for q
    using attempt_frame [of env rt request p s "fst after" "snd after" q] that
    by (simp add: after_def)
  have adm: "b = Inr () \<longleftrightarrow>
      circuit_admits (reset_timeout_s (breakers s)) (fst (read_clock env s)) m"
    using before_call_admits [of env p s] b by (simp add: m_def)
  show ?thesis
  proof (cases b)
    case (Inl e)
    have "after = (Continue, s1)" by (simp add: after_def attempt_def prov b Inl)
    moreover have "circuit_of (peek p s1) = m"
      using circuit_before_call [of p env s] b Inl by (simp add: m_def)
    ultimately show ?thesis using adm Inl others obs_before_call [OF b] by simp
  next
    case (Inr x)
    have s4: "obs s4 = obs s @ [SpanStart p (req_request_id request) (req_tenant_id request)]"
        "breakers s4 = breakers s1"
      using after_provider [OF b u call] by simp_all
    have m1: "circuit_of (peek p s4) = circuit_admit m" "cb_state (peek p s4) \<noteq> OPEN"
        "failure_threshold (breakers s4) = failure_threshold (breakers s)"
      using circuit_before_call [of p env s] admitted_not_open [of env p s]
        threshold_kept(1) [of env p s] b Inr s4(2)
      by (simp_all add: m_def peek_def)
    have turn: "snd after = (case r of
        Inl e \<Rightarrow>
          if is_auth_error e then emit (SpanAttr ''aegis.outcome'' ''auth_error'')
            (observe env p u ''auth_error'' None s4)
          else if is_provider_error e then emit (SpanAttr ''aegis.outcome'' ''error'')
            (observe env p u ''error'' None (on_failure env p s4))
          else s4
      | Inr resp \<Rightarrow> on_success p (observe env p u ''success'' (Some resp)
         (emit (SpanTokens ''aegis.output_tokens'' (output_tokens (resp_usage resp)))
         (emit (SpanTokens ''aegis.input_tokens'' (input_tokens (resp_usage resp)))
         (emit (SpanAttr ''aegis.outcome'' ''success'') s4)))))"
      using call by (simp add: after_def attempt_def prov cfg b u Inr split: sum.splits)
    have same: "peek p (emit e x) = peek p x" "peek p (observe env p u k resp x) = peek p x"
      for e k resp and x :: "('w, 'b) gateway_scheme"
      by (simp_all add: peek_def)
    have "circuit_of (peek p (snd after)) =
        circuit_end (failure_threshold (breakers s)) (call_end_of r) (fst (read_clock env s4)) (circuit_admit m)"
      using circuit_on_failure [OF m1(2), of env] m1
      by (auto simp: turn same call_end_of_def circuit_on_success split: sum.splits)
    moreover have "called (obs (snd after)) = called (obs s) @ [p]"
      by (auto simp: turn s4(1) split: sum.splits)
    ultimately show ?thesis using adm Inr others r by simp
  qed
qed

text \<open>
  A provider that is down and has failed four times in a row, with the shipped threshold of five:
  the call opens the circuit, at the reading of the clock that follows the failure.
\<close>

theorem attempt_refines_machine_witness:
  "circuit_of (peek ''local'' (snd (attempt tick_env demo_router demo_request ''local''
     (demo_gateway\<lparr>breakers := set_entry ''local''
        \<lparr>cb_state = CLOSED, consecutive_failures = 4, opened_at = 0\<rparr> (new_registry 5 30)\<rparr>)))) = Opened 1"
proof -
  obtain s where s: "s = demo_gateway\<lparr>breakers := set_entry ''local''
        \<lparr>cb_state = CLOSED, consecutive_failures = 4, opened_at = 0\<rparr> (new_registry 5 30)\<rparr>" by simp
  let ?cfg = "\<lparr>pc_model = ''llama3.1:8b'', pc_region = ''local'',
        pc_cost_per_1k_input_tokens = 0, pc_cost_per_1k_output_tokens = 0\<rparr>"
  let ?prov = "failing_provider ''local'' (ProviderUnavailableError ''down'')"
  have prov: "rt_providers demo_router ''local'' = Some ?prov"
    and cfg: "map_of (rp_providers (rt_policy demo_router)) ''local'' = Some ?cfg"
    by (simp_all add: demo_router_def routing_yaml_def)
  have circuit: "circuit_of (peek ''local'' s) = Closed 4"
    by (simp add: s peek_def circuit_of_def)
  have waiting: "snd (before_call tick_env ''local'' s) = s" "world s = 0"
    "failure_threshold (breakers s) = 5"
    by (simp_all add: s before_call_def entry_def demo_gateway_def new_registry_def)
  have tick: "read_clock tick_env x = (real (world x), x\<lparr>world := Suc (world x)\<rparr>)"
    for x :: "nat gateway" by (simp add: read_clock_def tick_env_def)
  have "circuit_of (peek ''local'' (snd (attempt tick_env demo_router demo_request ''local'' s))) = Opened 1"
    using attempt_refines_machine [OF prov cfg, of s tick_env demo_request]
    by (simp add: circuit waiting tick call_provider_def failing_provider_def emit_def
        call_end_of_def)
  then show ?thesis by (simp add: s)
qed

end
