(* ===== verification/Database.thy ===== *)
theory Database
  imports Router "HOL-Library.Word" "HOL-Library.Multiset" "HOL-Library.Product_Lexorder"
begin

text \<open>
  The database of \<open>db/models.py\<close> as a session of SQLAlchemy sees it: one list of row records
  per table, in insertion order, and the inserts, lookups by primary key and attribute
  assignments the stores are made of. Inserting a row whose primary key (or unique
  \<open>key_id\<close>) is taken raises, as the constraint does. The clock, the random sources and the
  points SQL leaves open (the order of equal sort keys, the float sum) are functions of the
  environment record. A lost connection is outside the model.
\<close>

section \<open>Dates and identifiers\<close>

text \<open>A \<open>datetime\<close> in UTC, ordered field by field.\<close>

datatype datetime =
  DateTime (dt_year: int) (dt_month: int) (dt_day: int)
    (dt_hour: int) (dt_minute: int) (dt_second: int) (dt_micro: int)

definition dt_key :: "datetime \<Rightarrow> int \<times> int \<times> int \<times> int \<times> int \<times> int \<times> int" where
  "dt_key d = (dt_year d, dt_month d, dt_day d, dt_hour d, dt_minute d, dt_second d, dt_micro d)"

lemma dt_key_inj: "dt_key a = dt_key b \<longleftrightarrow> a = b"
  by (auto simp: dt_key_def intro: datetime.expand)

instantiation datetime :: linorder
begin

definition less_eq_datetime :: "datetime \<Rightarrow> datetime \<Rightarrow> bool" where
  "less_eq_datetime a b \<longleftrightarrow> dt_key a \<le> dt_key b"

definition less_datetime :: "datetime \<Rightarrow> datetime \<Rightarrow> bool" where
  "less_datetime a b \<longleftrightarrow> dt_key a < dt_key b"

instance
  by standard
    (auto simp: less_eq_datetime_def less_datetime_def dt_key_inj [symmetric] less_le_not_le
      intro: order_trans)

end

text \<open>
  \<open>as_of.replace(day=1, hour=0, minute=0, second=0, microsecond=0)\<close>.
\<close>

definition start_of_month :: "datetime \<Rightarrow> datetime" where
  "start_of_month d = DateTime (dt_year d) (dt_month d) 1 0 0 0 0"

text \<open>A UUID is a 128-bit number; \<open>str(u)\<close> is its 32 hexadecimal digits in five groups.\<close>

type_synonym uuid = "128 word"

fun hex_digits :: "nat \<Rightarrow> nat \<Rightarrow> string" where
  "hex_digits 0 n = []"
| "hex_digits (Suc k) n = hex_digits k (n div 16) @ [hex_digit (n mod 16)]"

definition uuid_str :: "uuid \<Rightarrow> string" where
  "uuid_str u =
     (let h = hex_digits 32 (unat u)
      in take 8 h @ ''-'' @ take 4 (drop 8 h) @ ''-'' @ take 4 (drop 12 h) @ ''-'' @
         take 4 (drop 16 h) @ ''-'' @ drop 20 h)"

section \<open>Rows\<close>

record agent_run =
  run_pk :: uuid
  run_tenant :: string
  run_agent_name :: string
  run_status :: string
  run_data_classification :: string
  run_cost_tier :: string
  run_max_steps :: int
  run_token_budget :: int
  run_total_input_tokens :: int
  run_total_output_tokens :: int
  run_step_count :: int
  run_final_output :: "string option"
  run_error :: "string option"
  run_created_at :: datetime
  run_completed_at :: "datetime option"

record agent_step =
  st_pk :: uuid
  st_run_id :: uuid
  st_step_index :: int
  st_step_type :: string
  st_provider_name :: "string option"
  st_model :: "string option"
  st_tool_name :: "string option"
  st_input :: jdict
  st_output :: "jdict option"
  st_error :: "string option"
  st_input_tokens :: int
  st_output_tokens :: int
  st_retry_count :: int
  st_started_at :: datetime
  st_finished_at :: "datetime option"
  st_duration_ms :: "int option"

record audit_entry =
  au_pk :: uuid
  au_tenant :: string
  au_run_id :: "uuid option"
  au_actor :: string
  au_action :: string
  au_provider_name :: "string option"
  au_model :: "string option"
  au_input_tokens :: int
  au_output_tokens :: int
  au_policy_rule :: "string option"
  au_policy_action :: "string option"
  au_detail :: "jdict option"
  au_created_at :: datetime

record cost_entry =
  ce_pk :: uuid
  ce_tenant :: string
  ce_run_id :: "uuid option"
  ce_provider_name :: string
  ce_model :: string
  ce_input_tokens :: int
  ce_output_tokens :: int
  ce_cost_usd :: real
  ce_created_at :: datetime

record api_key =
  ak_pk :: uuid
  ak_key_id :: string
  ak_tenant :: string
  ak_role :: string
  ak_hashed_secret :: string
  ak_rotated_from :: "uuid option"
  ak_created_at :: datetime
  ak_revoked_at :: "datetime option"

record database =
  agent_runs :: "agent_run list"
  agent_steps :: "agent_step list"
  audit_log :: "audit_entry list"
  cost_entries :: "cost_entry list"
  api_keys :: "api_key list"

definition empty_db :: database where
  "empty_db = \<lparr>agent_runs = [], agent_steps = [], audit_log = [], cost_entries = [], api_keys = []\<rparr>"

text \<open>
  The state of the process while it serves a request: \<open>db\<close> is what the session of the
  request sees, \<open>committed\<close> what is in the database for good.
\<close>

record 'w gw_state = "'w gateway" +
  db :: database
  committed :: database

section \<open>The environment\<close>

text \<open>
  \<open>utcnow\<close> is \<open>datetime.now(UTC)\<close>, \<open>db_now\<close> the server default \<open>now()\<close>, \<open>uuid4\<close> the primary
  key default. \<open>fl\<close> rounds a real number to a float, \<open>float_repr\<close> prints one. The \<open>sql_\<close>
  fields are what the database does where the query leaves it open: the order it returns
  the rows of an \<open>ORDER BY\<close> in, and the float sum.
\<close>

record 'w gw_env = "'w env" +
  utcnow :: "'w \<Rightarrow> datetime \<times> 'w"
  db_now :: "'w \<Rightarrow> datetime \<times> 'w"
  uuid4 :: "'w \<Rightarrow> uuid \<times> 'w"
  sleep :: "real \<Rightarrow> 'w \<Rightarrow> unit \<times> 'w"
  fl :: "real \<Rightarrow> real"
  float_repr :: "real \<Rightarrow> string"
  sql_sum :: "real list \<Rightarrow> real"
  sql_steps_by_index :: "agent_step list \<Rightarrow> agent_step list"
  sql_runs_latest :: "agent_run list \<Rightarrow> agent_run list"
  sql_audit_latest :: "audit_entry list \<Rightarrow> audit_entry list"

text \<open>What \<open>ORDER BY\<close> guarantees: a permutation of the rows, sorted by the key.\<close>

definition steps_order_ok :: "('w, 'e) gw_env_scheme \<Rightarrow> bool" where
  "steps_order_ok env \<longleftrightarrow> (\<forall>rows. mset (sql_steps_by_index env rows) = mset rows \<and>
     sorted (map st_step_index (sql_steps_by_index env rows)))"

definition runs_order_ok :: "('w, 'e) gw_env_scheme \<Rightarrow> bool" where
  "runs_order_ok env \<longleftrightarrow> (\<forall>rows. mset (sql_runs_latest env rows) = mset rows \<and>
     sorted (rev (map run_created_at (sql_runs_latest env rows))))"

definition audit_order_ok :: "('w, 'e) gw_env_scheme \<Rightarrow> bool" where
  "audit_order_ok env \<longleftrightarrow> (\<forall>rows. mset (sql_audit_latest env rows) = mset rows \<and>
     sorted (rev (map au_created_at (sql_audit_latest env rows))))"

text \<open>A reading of the outside world.\<close>

definition from_world :: "('w \<Rightarrow> 'a \<times> 'w) \<Rightarrow> (('w, 'b) cb_world_scheme, 'a) eff" where
  "from_world f s = (let (x, w) = f (world s) in (Inr x, s\<lparr>world := w\<rparr>))"

section \<open>Inserts and lookups\<close>

definition integrity_error :: exn where
  "integrity_error = OtherError ''IntegrityError''"

text \<open>\<open>flush()\<close> of one new row: refused if the key is taken.\<close>

definition insert_row :: "('r \<Rightarrow> 'k) \<Rightarrow> 'r \<Rightarrow> 'r list \<Rightarrow> 'r list option" where
  "insert_row key r rows = (if key r \<in> key ` set rows then None else Some (rows @ [r]))"

text \<open>\<open>session.get(Table, k)\<close>, and assigning attributes of the row it returned.\<close>

definition find_row :: "('r \<Rightarrow> 'k) \<Rightarrow> 'k \<Rightarrow> 'r list \<Rightarrow> 'r option" where
  "find_row key k rows = find (\<lambda>r. key r = k) rows"

definition update_row :: "('r \<Rightarrow> 'k) \<Rightarrow> 'k \<Rightarrow> ('r \<Rightarrow> 'r) \<Rightarrow> 'r list \<Rightarrow> 'r list" where
  "update_row key k f rows = map (\<lambda>r. if key r = k then f r else r) rows"

definition keyed :: "('r \<Rightarrow> 'k) \<Rightarrow> 'r list \<Rightarrow> bool" where
  "keyed key rows \<longleftrightarrow> distinct (map key rows)"

lemma insert_row_Some:
  "insert_row key r rows = Some rows' \<longleftrightarrow> key r \<notin> key ` set rows \<and> rows' = rows @ [r]"
  by (auto simp: insert_row_def)

lemma insert_row_keyed: "insert_row key r rows = Some rows' \<Longrightarrow> keyed key rows \<Longrightarrow> keyed key rows'"
  by (auto simp: insert_row_Some keyed_def)

lemma update_row_keyed:
  assumes "\<And>r. key (f r) = key r"
  shows "keyed key (update_row key k f rows) = keyed key rows"
proof -
  have "map key (update_row key k f rows) = map key rows"
    using assms by (simp add: update_row_def)
  then show ?thesis by (simp add: keyed_def)
qed

lemma update_row_keys:
  assumes "\<And>r. key (f r) = key r"
  shows "key ` set (update_row key k f rows) = key ` set rows"
proof -
  have "map key (update_row key k f rows) = map key rows"
    using assms by (simp add: update_row_def)
  then show ?thesis by (metis list.set_map)
qed

lemma find_row_None: "find_row key k rows = None \<longleftrightarrow> k \<notin> key ` set rows"
  by (auto simp: find_row_def find_None_iff)

lemma find_row_Some: "find_row key k rows = Some r \<Longrightarrow> r \<in> set rows \<and> key r = k"
  by (auto simp: find_row_def find_Some_iff)

lemma find_row_keyed:
  assumes "keyed key rows"
  shows "find_row key k rows = Some r \<longleftrightarrow> r \<in> set rows \<and> key r = k"
  using assms
proof (induction rows)
  case Nil
  then show ?case by (simp add: find_row_def)
next
  case (Cons x rows)
  then show ?case by (auto simp: find_row_def keyed_def image_iff)
qed

lemma find_insert_row:
  "insert_row key r rows = Some rows' \<Longrightarrow>
     find_row key k rows' = (if k = key r then Some r else find_row key k rows)"
proof -
  assume "insert_row key r rows = Some rows'"
  then have r: "key r \<notin> key ` set rows" "rows' = rows @ [r]" by (simp_all add: insert_row_Some)
  have "find P (xs @ ys) = (case find P xs of None \<Rightarrow> find P ys | Some x \<Rightarrow> Some x)"
    for P :: "'a \<Rightarrow> bool" and xs ys
    by (induction xs) simp_all
  moreover have "find_row key (key r) rows = None" using r(1) by (simp add: find_row_None)
  ultimately show ?thesis by (auto simp: r(2) find_row_def split: option.splits)
qed

lemma find_update_row:
  assumes "\<And>r. key (f r) = key r"
  shows "find_row key k' (update_row key k f rows) =
    (if k' = k then map_option f (find_row key k rows) else find_row key k' rows)"
  using assms by (induction rows) (auto simp: find_row_def update_row_def)

lemma update_row_none: "k \<notin> key ` set rows \<Longrightarrow> update_row key k f rows = rows"
  unfolding update_row_def by (rule map_idI) auto

section \<open>Session operations\<close>

definition query :: "(database \<Rightarrow> 'a) \<Rightarrow> (('w, 'b) gw_state_scheme, 'a) eff" where
  "query f s = (Inr (f (db s)), s)"

definition store :: "(database \<Rightarrow> database option) \<Rightarrow> (('w, 'b) gw_state_scheme, unit) eff" where
  "store f s = (case f (db s) of
     None \<Rightarrow> (Inl integrity_error, s)
   | Some d \<Rightarrow> (Inr (), s\<lparr>db := d\<rparr>))"

text \<open>\<open>result.scalar_one_or_none()\<close>.\<close>

definition scalar_one_or_none :: "'r list \<Rightarrow> 'r option result" where
  "scalar_one_or_none rows =
     (case rows of
        [] \<Rightarrow> Inr None
      | [r] \<Rightarrow> Inr (Some r)
      | _ \<Rightarrow> Inl (OtherError ''Multiple rows were found when one or none was required''))"

definition lift_result :: "'a result \<Rightarrow> ('s, 'a) eff" where
  "lift_result r s = (r, s)"

text \<open>\<open>LIMIT n\<close>: PostgreSQL refuses a negative limit.\<close>

definition limited :: "int \<Rightarrow> 'r list \<Rightarrow> 'r list result" where
  "limited n rows =
     (if n < 0 then Inl (OtherError ''LIMIT must not be negative'') else Inr (take (nat n) rows))"

lemma from_world_db [simp]:
  "from_world f s = (r, s') \<Longrightarrow> db s' = db s"
  by (auto simp: from_world_def split: prod.splits)

lemma from_world_frame:
  "db (snd (from_world f s)) = db s"
  "committed (snd (from_world f s)) = committed s"
  "breakers (snd (from_world f s)) = breakers s"
  "obs (snd (from_world f s)) = obs s"
  by (simp_all add: from_world_def split: prod.splits)

lemma scalar_one_or_none_keyed:
  assumes "keyed key rows"
  shows "scalar_one_or_none (filter (\<lambda>r. key r = k \<and> P r) rows) =
    Inr (case find_row key k rows of None \<Rightarrow> None | Some r \<Rightarrow> if P r then Some r else None)"
proof (cases "find_row key k rows")
  case None
  then have "filter (\<lambda>r. key r = k \<and> P r) rows = []"
    by (auto simp: find_row_None filter_empty_conv)
  then show ?thesis by (simp add: None scalar_one_or_none_def)
next
  case (Some r)
  have "filter (\<lambda>r. key r = k) rows = [r]"
    using Some assms
  proof (induction rows)
    case (Cons x rows)
    show ?case
    proof (cases "key x = k")
      case True
      then have "k \<notin> key ` set rows" using Cons.prems by (auto simp: keyed_def)
      then have "filter (\<lambda>r. key r = k) rows = []" by (auto simp: filter_empty_conv)
      then show ?thesis using Cons.prems True by (simp add: find_row_def)
    next
      case False
      then show ?thesis using Cons by (simp add: find_row_def keyed_def)
    qed
  qed (simp add: find_row_def)
  moreover have "filter (\<lambda>r. key r = k \<and> P r) rows = filter P (filter (\<lambda>r. key r = k) rows)"
    by simp
  ultimately have "filter (\<lambda>r. key r = k \<and> P r) rows = filter P [r]" by (simp only:)
  then show ?thesis by (simp add: Some scalar_one_or_none_def)
qed

section \<open>Sorted results\<close>

lemma sorted_unique:
  fixes f :: "'r \<Rightarrow> 'k::linorder"
  assumes "mset ys = mset xs" and "sorted (map f ys)" and "sorted_wrt (<) (map f xs)"
  shows "ys = xs"
proof -
  have "mset (map f ys) = mset (map f xs)" using assms(1) by simp
  moreover have xs: "sorted (map f xs)" "distinct (map f xs)"
    using assms(3) by (simp_all add: strict_sorted_iff)
  ultimately have "map f ys = map f xs"
    using assms(2) by (metis properties_for_sort)
  moreover have "set ys = set xs" using assms(1) by (rule mset_eq_setD)
  then have "inj_on f (set ys \<union> set xs)" using xs(2) by (simp add: distinct_map)
  ultimately show ?thesis by (rule map_inj_on)
qed

section \<open>A concrete environment\<close>

text \<open>
  An environment whose world is a counter: every reading of it gives the next number. The
  witnesses of the theorems run the model on it.
\<close>

definition counter_env :: "nat gw_env" where
  "counter_env =
     \<lparr>monotonic = (\<lambda>w. (real w, w + 1)),
      utcnow = (\<lambda>w. (DateTime 2026 3 14 9 26 53 (int w), w + 1)),
      db_now = (\<lambda>w. (DateTime 2026 3 14 9 26 53 (int w), w + 1)),
      uuid4 = (\<lambda>w. (of_nat w, w + 1)),
      sleep = (\<lambda>t w. ((), w + 1)),
      fl = (\<lambda>x. x),
      float_repr = (\<lambda>x. ''0.5''),
      sql_sum = sum_list,
      sql_steps_by_index = sort_key st_step_index,
      sql_runs_latest = (\<lambda>rows. rev (sort_key run_created_at rows)),
      sql_audit_latest = (\<lambda>rows. rev (sort_key au_created_at rows))\<rparr>"

definition start_state :: "nat gw_state" where
  "start_state =
     \<lparr>breakers = new_registry 5 30, world = 0, obs = [], db = empty_db, committed = empty_db\<rparr>"

lemma counter_env_ok:
  "steps_order_ok counter_env" "runs_order_ok counter_env" "audit_order_ok counter_env"
  by (simp_all add: steps_order_ok_def runs_order_ok_def audit_order_ok_def counter_env_def
    rev_map [symmetric])

section \<open>Append-only tables\<close>

text \<open>
  The contract of a table the code only ever inserts into: an insert that succeeds adds one
  row, which stores what was given, at the end; one that raises changes nothing. Then any
  sequence of inserts extends the table, by one row per insert if all of them succeed.
\<close>

locale append_log =
  fixes log :: "'s \<Rightarrow> 'r list"
    and add :: "'a \<Rightarrow> ('s, 'b) eff"
    and stores :: "'a \<Rightarrow> 'r \<Rightarrow> bool"
  assumes add_Inr: "add a s = (Inr x, s') \<Longrightarrow> \<exists>r. log s' = log s @ [r] \<and> stores a r"
    and add_Inl: "add a s = (Inl e, s') \<Longrightarrow> log s' = log s"
begin

lemma add_prefix: "prefix (log s) (log (snd (add a s)))"
proof (cases "add a s")
  case (Pair r s')
  then show ?thesis using add_Inr [of a s] add_Inl [of a s] by (cases r) fastforce+
qed

lemma add_all_prefix: "prefix (log s) (log (snd (for_e (\<lambda>a. discard (add a)) as s)))"
  by (rule for_e_rel [where R = "\<lambda>s s'. prefix (log s) (log s')"]) (auto simp: add_prefix)

lemma add_all:
  "for_e (\<lambda>a. discard (add a)) as s = (Inr (), s') \<Longrightarrow>
     \<exists>rs. log s' = log s @ rs \<and> list_all2 stores as rs"
proof (induction "as" arbitrary: s)
  case (Cons a as)
  from Cons.prems obtain x s1 where 1: "add a s = (Inr x, s1)"
    and 2: "for_e (\<lambda>a. discard (add a)) as s1 = (Inr (), s')"
    by (auto elim!: bind_e_InrE simp: discard_Inr)
  from add_Inr [OF 1] obtain r where "log s1 = log s @ [r]" "stores a r" by blast
  moreover from Cons.IH [OF 2] obtain rs where "log s' = log s1 @ rs" "list_all2 stores as rs"
    by blast
  ultimately show ?case by (intro exI [of _ "r # rs"]) simp
qed simp

end

end
