(* ===== verification/Trace_Store.thy ===== *)
theory Trace_Store
  imports Database
begin

text \<open>
  \<open>agent/trace.py\<close>: \<open>TraceStore\<close> opens a run, records its steps, closes it, and reads it
  back. The theorems say that the counters of a run row are always the sums over its step
  rows, that reading back a run gives what was recorded, and that a tenant filter hides
  the runs of everybody else.
\<close>

section \<open>Operations\<close>

record step_record =
  sr_step_type :: string
  sr_input :: jdict
  sr_output :: "jdict option"
  sr_error :: "string option"
  sr_provider_name :: "string option"
  sr_model :: "string option"
  sr_tool_name :: "string option"
  sr_input_tokens :: int
  sr_output_tokens :: int
  sr_retry_count :: int
  sr_duration_ms :: "int option"

text \<open>\<open>StepRecord(step_type=..., input=...)\<close> with the other fields at their defaults.\<close>

definition step_record :: "string \<Rightarrow> jdict \<Rightarrow> step_record" where
  "step_record t i =
     \<lparr>sr_step_type = t, sr_input = i, sr_output = None, sr_error = None, sr_provider_name = None,
      sr_model = None, sr_tool_name = None, sr_input_tokens = 0, sr_output_tokens = 0,
      sr_retry_count = 0, sr_duration_ms = None\<rparr>"

record replayed_run =
  rep_run_id :: uuid
  rep_status :: string
  rep_final_output :: "string option"
  rep_total_input_tokens :: int
  rep_total_output_tokens :: int
  rep_steps :: "step_record list"

text \<open>\<open>start_run\<close>; the flush evaluates the column defaults of \<open>id\<close> and \<open>created_at\<close>.\<close>

definition start_run :: "('w, 'e) gw_env_scheme \<Rightarrow> string \<Rightarrow> string \<Rightarrow> int \<Rightarrow> int \<Rightarrow> string \<Rightarrow> string \<Rightarrow>
    (('w, 'b) gw_state_scheme, uuid) eff" where
  "start_run env tenant agent steps budget classification tier =
     bind_e (from_world (uuid4 env)) (\<lambda>u.
     bind_e (from_world (utcnow env)) (\<lambda>created.
     bind_e (store (\<lambda>d. map_option (\<lambda>rows. d\<lparr>agent_runs := rows\<rparr>)
       (insert_row run_pk
          \<lparr>run_pk = u, run_tenant = tenant, run_agent_name = agent, run_status = ''running'',
           run_data_classification = classification, run_cost_tier = tier,
           run_max_steps = steps, run_token_budget = budget,
           run_total_input_tokens = 0, run_total_output_tokens = 0, run_step_count = 0,
           run_final_output = None, run_error = None,
           run_created_at = created, run_completed_at = None\<rparr> (agent_runs d)))) (\<lambda>_.
     ret u)))"

text \<open>The row a step record is stored as, and the record a row is read back as.\<close>

definition step_row :: "uuid \<Rightarrow> uuid \<Rightarrow> int \<Rightarrow> datetime \<Rightarrow> datetime \<Rightarrow> step_record \<Rightarrow> agent_step" where
  "step_row u rid i started finished r =
     \<lparr>st_pk = u, st_run_id = rid, st_step_index = i, st_step_type = sr_step_type r,
      st_provider_name = sr_provider_name r, st_model = sr_model r, st_tool_name = sr_tool_name r,
      st_input = sr_input r, st_output = sr_output r, st_error = sr_error r,
      st_input_tokens = sr_input_tokens r, st_output_tokens = sr_output_tokens r,
      st_retry_count = sr_retry_count r, st_started_at = started,
      st_finished_at = Some finished, st_duration_ms = sr_duration_ms r\<rparr>"

definition row_record :: "agent_step \<Rightarrow> step_record" where
  "row_record s =
     \<lparr>sr_step_type = st_step_type s, sr_input = st_input s, sr_output = st_output s,
      sr_error = st_error s, sr_provider_name = st_provider_name s, sr_model = st_model s,
      sr_tool_name = st_tool_name s, sr_input_tokens = st_input_tokens s,
      sr_output_tokens = st_output_tokens s, sr_retry_count = st_retry_count s,
      sr_duration_ms = st_duration_ms s\<rparr>"

text \<open>\<open>run.step_count += 1\<close> and the two token counters.\<close>

definition count_step :: "step_record \<Rightarrow> agent_run \<Rightarrow> agent_run" where
  "count_step r run = run
     \<lparr>run_step_count := run_step_count run + 1,
      run_total_input_tokens := run_total_input_tokens run + sr_input_tokens r,
      run_total_output_tokens := run_total_output_tokens run + sr_output_tokens r\<rparr>"

text \<open>\<open>session.get(AgentRun, run_id)\<close> with the \<open>assert run is not None\<close> after it.\<close>

definition get_existing_run :: "uuid \<Rightarrow> (('w, 'b) gw_state_scheme, agent_run) eff" where
  "get_existing_run rid =
     bind_e (query (\<lambda>d. find_row run_pk rid (agent_runs d))) (\<lambda>found.
       case found of None \<Rightarrow> throw (AssertionError []) | Some run \<Rightarrow> ret run)"

definition record_step :: "('w, 'e) gw_env_scheme \<Rightarrow> uuid \<Rightarrow> int \<Rightarrow> step_record \<Rightarrow>
    (('w, 'b) gw_state_scheme, unit) eff" where
  "record_step env rid i r =
     bind_e (from_world (utcnow env)) (\<lambda>finished.
     bind_e (get_existing_run rid) (\<lambda>run.
     bind_e (from_world (uuid4 env)) (\<lambda>u.
     bind_e (from_world (db_now env)) (\<lambda>started.
     store (\<lambda>d. map_option
       (\<lambda>rows. d\<lparr>agent_steps := rows,
                 agent_runs := update_row run_pk rid (count_step r) (agent_runs d)\<rparr>)
       (insert_row st_pk (step_row u rid i started finished r) (agent_steps d)))))))"

definition close_run :: "string \<Rightarrow> string option \<Rightarrow> string option \<Rightarrow> datetime \<Rightarrow> agent_run \<Rightarrow> agent_run" where
  "close_run status out err now run = run
     \<lparr>run_status := status, run_final_output := out, run_error := err, run_completed_at := Some now\<rparr>"

definition finish_run :: "('w, 'e) gw_env_scheme \<Rightarrow> uuid \<Rightarrow> string \<Rightarrow> string option \<Rightarrow> string option \<Rightarrow>
    (('w, 'b) gw_state_scheme, unit) eff" where
  "finish_run env rid status out err =
     bind_e (get_existing_run rid) (\<lambda>run.
     bind_e (from_world (utcnow env)) (\<lambda>now.
     store (\<lambda>d. Some (d\<lparr>agent_runs :=
       update_row run_pk rid (close_run status out err now) (agent_runs d)\<rparr>))))"

definition list_runs :: "('w, 'e) gw_env_scheme \<Rightarrow> string option \<Rightarrow> int \<Rightarrow>
    (('w, 'b) gw_state_scheme, agent_run list) eff" where
  "list_runs env tenant limit =
     bind_e (query (\<lambda>d. sql_runs_latest env
       (filter (\<lambda>r. case tenant of None \<Rightarrow> True | Some t \<Rightarrow> run_tenant r = t) (agent_runs d)))) (\<lambda>rows.
     lift_result (limited limit rows))"

definition get_run :: "uuid \<Rightarrow> string option \<Rightarrow> (('w, 'b) gw_state_scheme, agent_run option) eff" where
  "get_run rid tenant =
     bind_e (query (\<lambda>d. filter
       (\<lambda>r. run_pk r = rid \<and> (case tenant of None \<Rightarrow> True | Some t \<Rightarrow> run_tenant r = t))
       (agent_runs d))) (\<lambda>rows.
     lift_result (scalar_one_or_none rows))"

definition replay :: "('w, 'e) gw_env_scheme \<Rightarrow> uuid \<Rightarrow> string option \<Rightarrow>
    (('w, 'b) gw_state_scheme, replayed_run) eff" where
  "replay env rid tenant =
     bind_e (get_run rid tenant) (\<lambda>found.
       case found of
         None \<Rightarrow> throw (ValueError (''no such run: '' @ uuid_str rid))
       | Some run \<Rightarrow>
           bind_e (query (\<lambda>d. sql_steps_by_index env
             (filter (\<lambda>st. st_run_id st = rid) (agent_steps d)))) (\<lambda>rows.
           ret \<lparr>rep_run_id = run_pk run, rep_status = run_status run,
                rep_final_output = run_final_output run,
                rep_total_input_tokens = run_total_input_tokens run,
                rep_total_output_tokens = run_total_output_tokens run,
                rep_steps = map row_record rows\<rparr>))"

section \<open>What the operations do to the database\<close>

lemmas trace_defs = bind_e_def ret_def throw_def query_def store_def lift_result_def
  get_existing_run_def from_world_def Let_def

definition new_run :: "uuid \<Rightarrow> string \<Rightarrow> string \<Rightarrow> int \<Rightarrow> int \<Rightarrow> string \<Rightarrow> string \<Rightarrow> datetime \<Rightarrow> agent_run" where
  "new_run u tenant agent steps budget classification tier created =
     \<lparr>run_pk = u, run_tenant = tenant, run_agent_name = agent, run_status = ''running'',
      run_data_classification = classification, run_cost_tier = tier,
      run_max_steps = steps, run_token_budget = budget,
      run_total_input_tokens = 0, run_total_output_tokens = 0, run_step_count = 0,
      run_final_output = None, run_error = None,
      run_created_at = created, run_completed_at = None\<rparr>"

lemma start_run_cases:
  assumes "start_run env t a n b c r s = (x, s')"
  obtains e where "x = Inl e" "db s' = db s"
  | u created where "x = Inr u" "u \<notin> run_pk ` set (agent_runs (db s))"
      "db s' = (db s)\<lparr>agent_runs := agent_runs (db s) @ [new_run u t a n b c r created]\<rparr>"
  using assms
  by (auto simp: start_run_def trace_defs insert_row_def new_run_def split: prod.splits if_splits)

lemma record_step_cases:
  assumes "record_step env rid i r s = (x, s')"
  obtains e where "x = Inl e" "db s' = db s"
  | u started finished where "x = Inr ()" "rid \<in> run_pk ` set (agent_runs (db s))"
      "u \<notin> st_pk ` set (agent_steps (db s))"
      "db s' = (db s)\<lparr>agent_steps := agent_steps (db s) @ [step_row u rid i started finished r],
         agent_runs := update_row run_pk rid (count_step r) (agent_runs (db s))\<rparr>"
proof (cases "find_row run_pk rid (agent_runs (db s))")
  case None
  then show thesis using assms that(1)
    by (auto simp: record_step_def trace_defs split: prod.splits)
next
  case (Some run)
  then have "rid \<in> run_pk ` set (agent_runs (db s))" by (auto dest: find_row_Some)
  then show thesis using assms that Some
    by (auto simp: record_step_def trace_defs insert_row_def step_row_def
      split: prod.splits if_splits)
qed

lemma finish_run_cases:
  assumes "finish_run env rid status out err s = (x, s')"
  obtains e where "x = Inl e" "db s' = db s"
  | now where "x = Inr ()" "rid \<in> run_pk ` set (agent_runs (db s))"
      "db s' = (db s)\<lparr>agent_runs :=
         update_row run_pk rid (close_run status out err now) (agent_runs (db s))\<rparr>"
proof (cases "find_row run_pk rid (agent_runs (db s))")
  case None
  then show thesis using assms that(1)
    by (auto simp: finish_run_def trace_defs split: prod.splits)
next
  case (Some run)
  then have "rid \<in> run_pk ` set (agent_runs (db s))" by (auto dest: find_row_Some)
  then show thesis using assms that(2) Some
    by (auto simp: finish_run_def trace_defs split: prod.splits)
qed

lemma count_step_simps [simp]:
  "run_pk (count_step r run) = run_pk run"
  "run_tenant (count_step r run) = run_tenant run"
  "run_status (count_step r run) = run_status run"
  "run_step_count (count_step r run) = run_step_count run + 1"
  "run_total_input_tokens (count_step r run) = run_total_input_tokens run + sr_input_tokens r"
  "run_total_output_tokens (count_step r run) = run_total_output_tokens run + sr_output_tokens r"
  by (simp_all add: count_step_def)

lemma close_run_simps [simp]:
  "run_pk (close_run st out err now run) = run_pk run"
  "run_tenant (close_run st out err now run) = run_tenant run"
  "run_status (close_run st out err now run) = st"
  "run_final_output (close_run st out err now run) = out"
  "run_error (close_run st out err now run) = err"
  "run_step_count (close_run st out err now run) = run_step_count run"
  "run_total_input_tokens (close_run st out err now run) = run_total_input_tokens run"
  "run_total_output_tokens (close_run st out err now run) = run_total_output_tokens run"
  by (simp_all add: close_run_def)

lemma step_row_simps [simp]:
  "st_pk (step_row u rid i t t' r) = u"
  "st_run_id (step_row u rid i t t' r) = rid"
  "st_step_index (step_row u rid i t t' r) = i"
  "st_input_tokens (step_row u rid i t t' r) = sr_input_tokens r"
  "st_output_tokens (step_row u rid i t t' r) = sr_output_tokens r"
  "row_record (step_row u rid i t t' r) = r"
  by (simp_all add: step_row_def row_record_def)

section \<open>The books of a run balance\<close>

text \<open>The step rows of a run, and what the counters of its row have to be.\<close>

definition steps_of :: "database \<Rightarrow> uuid \<Rightarrow> agent_step list" where
  "steps_of d rid = filter (\<lambda>st. st_run_id st = rid) (agent_steps d)"

definition balanced :: "database \<Rightarrow> agent_run \<Rightarrow> bool" where
  "balanced d run \<longleftrightarrow>
     run_step_count run = int (length (steps_of d (run_pk run))) \<and>
     run_total_input_tokens run = sum_list (map st_input_tokens (steps_of d (run_pk run))) \<and>
     run_total_output_tokens run = sum_list (map st_output_tokens (steps_of d (run_pk run)))"

definition trace_ok :: "database \<Rightarrow> bool" where
  "trace_ok d \<longleftrightarrow> keyed run_pk (agent_runs d) \<and> keyed st_pk (agent_steps d) \<and>
     list_all (\<lambda>st. st_run_id st \<in> run_pk ` set (agent_runs d)) (agent_steps d) \<and>
     list_all (balanced d) (agent_runs d)"

lemma trace_ok_empty: "trace_ok empty_db"
  by (simp add: trace_ok_def empty_db_def keyed_def)

lemma steps_of_no_run: "trace_ok d \<Longrightarrow> rid \<notin> run_pk ` set (agent_runs d) \<Longrightarrow> steps_of d rid = []"
  by (auto simp: trace_ok_def steps_of_def filter_empty_conv list_all_iff)

lemma start_run_trace_ok:
  assumes "trace_ok (db s)"
  shows "trace_ok (db (snd (start_run env t a n b c r s)))"
proof (cases "start_run env t a n b c r s")
  case (Pair x s')
  show ?thesis using Pair
  proof (cases rule: start_run_cases)
    case (2 u created)
    let ?d = "db s'"
    have "agent_steps ?d = agent_steps (db s)" using 2 by simp
    then have st: "steps_of ?d = steps_of (db s)" by (simp add: steps_of_def fun_eq_iff)
    have "balanced ?d (new_run u t a n b c r created)"
      using 2(2) assms by (simp add: balanced_def st steps_of_no_run new_run_def)
    moreover have "balanced ?d run" if "run \<in> set (agent_runs (db s))" for run
      using that assms by (simp add: balanced_def st trace_ok_def list_all_iff)
    ultimately show ?thesis
      using assms 2 Pair by (auto simp: trace_ok_def keyed_def list_all_iff new_run_def)
  qed (use Pair assms in simp)
qed

lemma steps_of_snoc:
  "agent_steps d' = agent_steps d @ [st] \<Longrightarrow>
     steps_of d' k = steps_of d k @ (if st_run_id st = k then [st] else [])"
  by (simp add: steps_of_def)

lemma record_step_trace_ok:
  assumes "trace_ok (db s)"
  shows "trace_ok (db (snd (record_step env rid i r s)))"
proof (cases "record_step env rid i r s")
  case (Pair x s')
  show ?thesis using Pair
  proof (cases rule: record_step_cases)
    case (2 u started finished)
    let ?d = "db s'"
    have runs: "agent_runs ?d = update_row run_pk rid (count_step r) (agent_runs (db s))"
      and steps: "agent_steps ?d = agent_steps (db s) @ [step_row u rid i started finished r]"
      using 2(4) by simp_all
    have pks: "run_pk ` set (agent_runs ?d) = run_pk ` set (agent_runs (db s))"
      by (simp add: runs update_row_keys)
    have "balanced ?d run" if "run \<in> set (agent_runs ?d)" for run
    proof -
      from that obtain run0 where r0: "run0 \<in> set (agent_runs (db s))"
        "run = (if run_pk run0 = rid then count_step r run0 else run0)"
        by (auto simp: runs update_row_def)
      have "balanced (db s) run0" using r0(1) assms by (simp add: trace_ok_def list_all_iff)
      then show ?thesis by (auto simp: balanced_def r0(2) steps_of_snoc [OF steps])
    qed
    moreover have "keyed run_pk (agent_runs ?d)"
      using assms by (simp add: runs update_row_keyed trace_ok_def)
    moreover have "keyed st_pk (agent_steps ?d)"
      using assms 2(3) by (auto simp: steps keyed_def trace_ok_def)
    ultimately have "trace_ok ?d"
      using assms 2(2) by (auto simp: trace_ok_def list_all_iff pks steps)
    then show ?thesis using Pair by simp
  qed (use Pair assms in simp)
qed

lemma finish_run_trace_ok:
  assumes "trace_ok (db s)"
  shows "trace_ok (db (snd (finish_run env rid status out err s)))"
proof (cases "finish_run env rid status out err s")
  case (Pair x s')
  show ?thesis using Pair
  proof (cases rule: finish_run_cases)
    case (2 now)
    let ?d = "db s'"
    have runs: "agent_runs ?d = update_row run_pk rid (close_run status out err now) (agent_runs (db s))"
      and steps: "agent_steps ?d = agent_steps (db s)"
      using 2(3) by simp_all
    have pks: "run_pk ` set (agent_runs ?d) = run_pk ` set (agent_runs (db s))"
      by (simp add: runs update_row_keys)
    have st: "steps_of ?d = steps_of (db s)" by (simp add: steps_of_def steps fun_eq_iff)
    have "balanced ?d run" if "run \<in> set (agent_runs ?d)" for run
      using that assms by (auto simp: runs update_row_def trace_ok_def list_all_iff balanced_def st)
    moreover have "keyed run_pk (agent_runs ?d)"
      using assms by (simp add: runs update_row_keyed trace_ok_def)
    ultimately have "trace_ok ?d"
      using assms by (auto simp: trace_ok_def list_all_iff pks steps)
    then show ?thesis using Pair by simp
  qed (use Pair assms in simp)
qed

section \<open>The run store interface\<close>

text \<open>
  What the runtime relies on when it records a session: a recorded step is added to the
  steps of its run and counted in the row of that run, and closing a run sets its outcome
  and keeps its steps.
\<close>

locale run_store =
  fixes row :: "uuid \<Rightarrow> 's \<Rightarrow> agent_run option"
    and steps :: "uuid \<Rightarrow> 's \<Rightarrow> (int \<times> step_record) list"
    and record_op :: "uuid \<Rightarrow> int \<Rightarrow> step_record \<Rightarrow> ('s, unit) eff"
    and finish_op :: "uuid \<Rightarrow> string \<Rightarrow> string option \<Rightarrow> string option \<Rightarrow> ('s, unit) eff"
  assumes record_row: "record_op rid i r s = (Inr (), s') \<Longrightarrow>
      row k s' = (if k = rid then map_option (count_step r) (row k s) else row k s)"
    and record_steps: "record_op rid i r s = (Inr (), s') \<Longrightarrow>
      steps k s' = steps k s @ (if k = rid then [(i, r)] else [])"
    and finish_row: "finish_op rid status out err s = (Inr (), s') \<Longrightarrow>
      \<exists>now. row k s' = (if k = rid then map_option (close_run status out err now) (row k s) else row k s)"
    and finish_steps: "finish_op rid status out err s = (Inr (), s') \<Longrightarrow> steps k s' = steps k s"
begin

lemma record_all_steps:
  "for_e (\<lambda>(i, r). record_op rid i r) rs s = (Inr (), s') \<Longrightarrow>
     steps k s' = steps k s @ (if k = rid then rs else [])"
proof (induction rs arbitrary: s)
  case (Cons x rs)
  obtain i r where x: "x = (i, r)" by fastforce
  from Cons.prems obtain s1 where 1: "record_op rid i r s = (Inr (), s1)"
    and 2: "for_e (\<lambda>(i, r). record_op rid i r) rs s1 = (Inr (), s')"
    unfolding for_e.simps x by (auto elim: bind_e_InrE)
  then show ?case using Cons.IH [OF 2] record_steps [OF 1, of k] by (simp add: x)
qed simp

lemma record_all_row:
  "for_e (\<lambda>(i, r). record_op rid i r) rs s = (Inr (), s') \<Longrightarrow>
     row k s' = (if k = rid then map_option (fold (\<lambda>(i, r). count_step r) rs) (row k s) else row k s)"
proof (induction rs arbitrary: s)
  case Nil
  then show ?case by (simp add: option.map_ident id_def)
next
  case (Cons x rs)
  obtain i r where x: "x = (i, r)" by fastforce
  from Cons.prems obtain s1 where 1: "record_op rid i r s = (Inr (), s1)"
    and 2: "for_e (\<lambda>(i, r). record_op rid i r) rs s1 = (Inr (), s')"
    unfolding for_e.simps x by (auto elim: bind_e_InrE)
  then show ?case using Cons.IH [OF 2] record_row [OF 1, of k]
    by (cases "k = rid") (simp_all add: x option.map_comp comp_def)
qed

lemma session_row:
  assumes "row rid s = Some run"
    and "for_e (\<lambda>(i, r). record_op rid i r) rs s = (Inr (), s1)"
    and "finish_op rid status out err s1 = (Inr (), s2)"
  shows "\<exists>now. row rid s2 = Some (close_run status out err now (fold (\<lambda>(i, r). count_step r) rs run))"
  using record_all_row [OF assms(2), of rid] finish_row [OF assms(3), of rid] assms(1) by auto

lemma session_steps:
  assumes "for_e (\<lambda>(i, r). record_op rid i r) rs s = (Inr (), s1)"
    and "finish_op rid status out err s1 = (Inr (), s2)"
  shows "steps rid s2 = steps rid s @ rs"
  using record_all_steps [OF assms(1), of rid] finish_steps [OF assms(2), of rid] by simp

end

definition run_row :: "uuid \<Rightarrow> ('w, 'b) gw_state_scheme \<Rightarrow> agent_run option" where
  "run_row rid s = find_row run_pk rid (agent_runs (db s))"

definition run_steps :: "uuid \<Rightarrow> ('w, 'b) gw_state_scheme \<Rightarrow> (int \<times> step_record) list" where
  "run_steps rid s = map (\<lambda>st. (st_step_index st, row_record st)) (steps_of (db s) rid)"

interpretation trace: run_store run_row run_steps "record_step env" "finish_run env"
proof
  fix rid i r s s' k
  assume "record_step env rid i r s = (Inr (), s')"
  then show "run_row k s' = (if k = rid then map_option (count_step r) (run_row k s) else run_row k s)"
    and "run_steps k s' = run_steps k s @ (if k = rid then [(i, r)] else [])"
    by (auto elim!: record_step_cases simp: run_row_def find_update_row run_steps_def steps_of_def)
next
  fix rid status out err s s' k
  assume fin: "finish_run env rid status out err s = (Inr (), s')"
  then show "\<exists>now. run_row k s' =
      (if k = rid then map_option (close_run status out err now) (run_row k s) else run_row k s)"
    by (auto elim!: finish_run_cases simp: run_row_def find_update_row)
  show "run_steps k s' = run_steps k s"
    using fin by (auto elim!: finish_run_cases simp: run_steps_def steps_of_def)
qed

lemma fold_count_step:
  "run_pk (fold (\<lambda>(i, r). count_step r) rs run) = run_pk run"
  "run_tenant (fold (\<lambda>(i, r). count_step r) rs run) = run_tenant run"
  "run_total_input_tokens (fold (\<lambda>(i, r). count_step r) rs run) =
     run_total_input_tokens run + sum_list (map (sr_input_tokens \<circ> snd) rs)"
  "run_total_output_tokens (fold (\<lambda>(i, r). count_step r) rs run) =
     run_total_output_tokens run + sum_list (map (sr_output_tokens \<circ> snd) rs)"
  by (induction rs arbitrary: run) (auto simp: case_prod_beta)

lemma get_run_result:
  assumes "keyed run_pk (agent_runs (db s))"
  shows "get_run rid tenant s =
    (Inr (case run_row rid s of
            None \<Rightarrow> None
          | Some run \<Rightarrow> if (case tenant of None \<Rightarrow> True | Some t \<Rightarrow> run_tenant run = t)
                        then Some run else None), s)"
  using scalar_one_or_none_keyed [OF assms]
  by (simp add: get_run_def trace_defs run_row_def split: option.splits)

section \<open>Properties\<close>

text \<open>
  Whatever the store does, and whether or not it raises, the books stay balanced: primary
  keys are distinct, every step belongs to a stored run, and the step count and token totals of
  every run row are the number and the sums of its step rows.
\<close>

theorem trace_store_balanced:
  assumes "trace_ok (db s)"
  shows "trace_ok (db (snd (start_run env tenant agent steps budget classification tier s))) \<and>
    trace_ok (db (snd (record_step env rid i r s))) \<and>
    trace_ok (db (snd (finish_run env rid status out err s)))"
  using assms by (simp add: start_run_trace_ok record_step_trace_ok finish_run_trace_ok)

theorem trace_store_balanced_witness:
  "trace_ok (db (snd (start_run counter_env ''acme'' ''default'' 8 20000 ''internal'' ''standard''
     start_state)))"
  using trace_store_balanced [of start_state counter_env "''acme''" "''default''" 8 20000
    "''internal''" "''standard''"]
  by (simp add: start_state_def trace_ok_empty)

text \<open>
  Reading back a session gives what was recorded: after a run is opened, any sequence of
  steps recorded for it and the run closed, \<open>replay\<close> returns its outcome, its token totals and
  exactly the recorded steps, in the recorded order if the step indices increase.
\<close>

theorem replay_returns_recorded:
  assumes ok: "trace_ok (db s)" and env: "steps_order_ok env"
    and start: "start_run env tenant agent steps budget classification tier s = (Inr rid, s1)"
    and rec: "for_e (\<lambda>(i, r). record_step env rid i r) rs s1 = (Inr (), s2)"
    and fin: "finish_run env rid status out err s2 = (Inr (), s3)"
  shows "\<exists>rep. replay env rid (Some tenant) s3 = (Inr rep, s3) \<and>
    rep_run_id rep = rid \<and> rep_status rep = status \<and> rep_final_output rep = out \<and>
    rep_total_input_tokens rep = sum_list (map (sr_input_tokens \<circ> snd) rs) \<and>
    rep_total_output_tokens rep = sum_list (map (sr_output_tokens \<circ> snd) rs) \<and>
    mset (rep_steps rep) = mset (map snd rs) \<and>
    (if sorted_wrt (<) (map fst rs) then rep_steps rep = map snd rs else True)"
proof -
  from start obtain created where fresh: "rid \<notin> run_pk ` set (agent_runs (db s))"
    and db1: "db s1 = (db s)\<lparr>agent_runs := agent_runs (db s) @
      [new_run rid tenant agent steps budget classification tier created]\<rparr>"
    by (auto elim: start_run_cases)
  let ?run = "new_run rid tenant agent steps budget classification tier created"
  have "insert_row run_pk ?run (agent_runs (db s)) = Some (agent_runs (db s1))"
    using fresh by (simp add: insert_row_def db1 new_run_def)
  from find_insert_row [OF this] have row1: "run_row rid s1 = Some ?run"
    by (simp add: run_row_def new_run_def)
  have "steps_of (db s) rid = []" by (rule steps_of_no_run [OF ok fresh])
  then have "run_steps rid s1 = []" by (simp add: run_steps_def steps_of_def db1)
  with trace.session_steps [OF rec fin] have steps3: "run_steps rid s3 = rs" by simp
  from trace.session_row [OF row1 rec fin] obtain now where row3:
    "run_row rid s3 = Some (close_run status out err now (fold (\<lambda>(i, r). count_step r) rs ?run))"
    by blast
  have "trace_ok (db s3)"
  proof -
    have "trace_ok (db s1)" using start_run_trace_ok [OF ok] start by (metis snd_conv)
    moreover have "trace_ok (db s1) \<longrightarrow> trace_ok (db (snd (for_e (\<lambda>(i, r). record_step env rid i r) rs s1)))"
      by (rule for_e_rel) (auto simp: record_step_trace_ok)
    ultimately have "trace_ok (db s2)" using rec by simp
    then show ?thesis using finish_run_trace_ok fin by (metis snd_conv)
  qed
  then have keyed: "keyed run_pk (agent_runs (db s3))" by (simp add: trace_ok_def)
  let ?rows = "sql_steps_by_index env (steps_of (db s3) rid)"
  let ?rep = "\<lparr>rep_run_id = rid, rep_status = status, rep_final_output = out,
     rep_total_input_tokens = sum_list (map (sr_input_tokens \<circ> snd) rs),
     rep_total_output_tokens = sum_list (map (sr_output_tokens \<circ> snd) rs),
     rep_steps = map row_record ?rows\<rparr>"
  have "replay env rid (Some tenant) s3 = (Inr ?rep, s3)"
    using get_run_result [OF keyed, of rid "Some tenant"] row3
    by (simp add: replay_def trace_defs fold_count_step new_run_def steps_of_def)
  moreover have perm: "mset ?rows = mset (steps_of (db s3) rid)"
    and sorted: "sorted (map st_step_index ?rows)"
    using env by (simp_all add: steps_order_ok_def)
  have recs: "map row_record (steps_of (db s3) rid) = map snd rs"
    and idxs: "map st_step_index (steps_of (db s3) rid) = map fst rs"
    using arg_cong [OF steps3, of "map snd"] arg_cong [OF steps3, of "map fst"]
    by (simp_all add: run_steps_def comp_def)
  have "mset (map row_record ?rows) = mset (map snd rs)"
    by (simp only: mset_map perm flip: recs)
  moreover have "?rows = steps_of (db s3) rid" if "sorted_wrt (<) (map fst rs)"
    by (rule sorted_unique [OF perm sorted]) (simp only: idxs that)
  ultimately show ?thesis by (intro exI [of _ ?rep]) (simp add: recs)
qed

text \<open>A session on the concrete environment, for the witnesses.\<close>

definition demo_steps :: "(int \<times> step_record) list" where
  "demo_steps =
     [(0, (step_record ''llm_call'' [])\<lparr>sr_input_tokens := 7, sr_output_tokens := 2\<rparr>),
      (0, (step_record ''tool_call'' [(''expression'', JStr ''2+2'')])\<lparr>sr_tool_name := Some ''calculator''\<rparr>),
      (1, (step_record ''llm_call'' [])\<lparr>sr_input_tokens := 9, sr_output_tokens := 3\<rparr>)]"

definition demo_started :: "uuid result \<times> nat gw_state" where
  "demo_started = start_run counter_env ''acme'' ''default'' 8 20000 ''internal'' ''standard'' start_state"

definition demo_recorded :: "unit result \<times> nat gw_state" where
  "demo_recorded = for_e (\<lambda>(i, r). record_step counter_env 0 i r) demo_steps (snd demo_started)"

definition demo_finished :: "unit result \<times> nat gw_state" where
  "demo_finished = finish_run counter_env 0 ''completed'' (Some ''4'') None (snd demo_recorded)"

lemma demo_runs:
  "demo_started = (Inr 0, snd demo_started)"
  "demo_recorded = (Inr (), snd demo_recorded)"
  "demo_finished = (Inr (), snd demo_finished)"
proof -
  have "fst demo_started = Inr 0" "fst demo_recorded = Inr ()" "fst demo_finished = Inr ()"
    by code_simp+
  then show "demo_started = (Inr 0, snd demo_started)"
    "demo_recorded = (Inr (), snd demo_recorded)"
    "demo_finished = (Inr (), snd demo_finished)"
    by (metis prod.collapse)+
qed

theorem replay_returns_recorded_witness:
  "\<exists>rep. replay counter_env 0 (Some ''acme'') (snd demo_finished) = (Inr rep, snd demo_finished) \<and>
    rep_total_input_tokens rep = 16 \<and> rep_final_output rep = Some ''4''"
proof -
  have "trace_ok (db start_state)" by (simp add: start_state_def trace_ok_empty)
  moreover have "start_run counter_env ''acme'' ''default'' 8 20000 ''internal'' ''standard''
      start_state = (Inr 0, snd demo_started)"
    using demo_runs(1) unfolding demo_started_def .
  moreover have "for_e (\<lambda>(i, r). record_step counter_env 0 i r) demo_steps (snd demo_started) =
      (Inr (), snd demo_recorded)"
    using demo_runs(2) unfolding demo_recorded_def .
  moreover have "finish_run counter_env 0 ''completed'' (Some ''4'') None (snd demo_recorded) =
      (Inr (), snd demo_finished)"
    using demo_runs(3) unfolding demo_finished_def .
  moreover have "sum_list (map (sr_input_tokens \<circ> snd) demo_steps) = 16" by code_simp
  ultimately show ?thesis
    using replay_returns_recorded [OF _ counter_env_ok(1)] by metis
qed

text \<open>
  A tenant filter hides the runs of everybody else: reading back a run of another tenant
  raises the same error, from the same state, as reading back a run that does not exist.
\<close>

theorem replay_hides_other_tenants:
  assumes "trace_ok (db s)"
    and "case run_row rid s of None \<Rightarrow> True | Some run \<Rightarrow> run_tenant run \<noteq> t"
  shows "replay env rid (Some t) s = (Inl (ValueError (''no such run: '' @ uuid_str rid)), s)"
  using assms get_run_result [of s rid "Some t"]
  by (auto simp: replay_def trace_defs trace_ok_def split: option.splits)

theorem replay_hides_other_tenants_witness:
  "fst (replay counter_env 0 (Some ''acme-legal'') (snd demo_finished)) =
     Inl (ValueError (''no such run: '' @ uuid_str 0))"
proof -
  have "trace_ok (db (snd demo_finished))"
    by code_simp
  moreover have "map_option run_tenant (run_row 0 (snd demo_finished)) = Some ''acme''"
    by code_simp
  ultimately show ?thesis
    using replay_hides_other_tenants [where s = "snd demo_finished" and rid = 0
      and t = "''acme-legal''" and env = counter_env]
    by auto
qed

text \<open>
  The list of runs is the latest runs of the tenant: never more than the limit, newest
  first, only its own, and no run of the tenant that is left out is newer than one listed.
\<close>

theorem list_runs_latest:
  assumes env: "runs_order_ok env" and "list_runs env (Some t) n s = (Inr rows, s')"
  shows "s' = s \<and> int (length rows) \<le> n \<and> sorted (rev (map run_created_at rows)) \<and>
    set rows \<subseteq> {r \<in> set (agent_runs (db s)). run_tenant r = t} \<and>
    (\<forall>r\<in>set rows. \<forall>r'\<in>{r \<in> set (agent_runs (db s)). run_tenant r = t} - set rows.
       run_created_at r' \<le> run_created_at r)"
proof -
  let ?all = "filter (\<lambda>r. run_tenant r = t) (agent_runs (db s))"
  let ?q = "sql_runs_latest env ?all"
  have rows: "rows = take (nat n) ?q" "0 \<le> n" and s': "s' = s"
    using assms(2) by (auto simp: list_runs_def trace_defs limited_def split: if_splits)
  have "mset ?q = mset ?all" and sorted: "sorted (rev (map run_created_at ?q))"
    using env by (simp_all add: runs_order_ok_def)
  then have perm: "set ?q = set ?all" by (blast dest: mset_eq_setD)
  have split: "sorted (rev (map run_created_at (rows @ drop (nat n) ?q)))"
    using sorted rows(1) by simp
  have "r' \<in> set (drop (nat n) ?q)" if "r' \<in> set ?all - set rows" for r'
    using that perm rows(1) by (metis Diff_iff Un_iff append_take_drop_id set_append)
  then have "run_created_at r' \<le> run_created_at r"
    if "r \<in> set rows" "r' \<in> set ?all - set rows" for r r'
    using split that by (auto simp: sorted_append rev_map [symmetric])
  moreover have "set rows \<subseteq> set ?all" using perm rows(1) by (metis set_take_subset)
  moreover have "sorted (rev (map run_created_at rows))" using split by (auto simp: sorted_append)
  moreover have "int (length rows) \<le> n" using rows by simp
  ultimately show ?thesis by (auto simp: s')
qed

theorem list_runs_latest_witness:
  "list_all (\<lambda>r. run_tenant r = ''acme'')
     (agent_runs (db (snd demo_finished)))"
proof -
  let ?s = "snd demo_finished"
  have "map_sum id (map run_pk) (fst (list_runs counter_env (Some ''acme'') 50 ?s)) = Inr [0]"
    by code_simp
  then obtain rows s' where l: "list_runs counter_env (Some ''acme'') 50 ?s = (Inr rows, s')"
    and pks: "map run_pk rows = [0]"
    by (cases "list_runs counter_env (Some ''acme'') 50 ?s"; cases "fst (list_runs counter_env (Some ''acme'') 50 ?s)")
      auto
  from list_runs_latest [OF counter_env_ok(2) l]
  have "set rows \<subseteq> {r \<in> set (agent_runs (db ?s)). run_tenant r = ''acme''}" by blast
  moreover have "length (agent_runs (db ?s)) = 1" by code_simp
  moreover have "rows \<noteq> []" using pks by auto
  ultimately show ?thesis by (auto simp: length_Suc_conv neq_Nil_conv)
qed

text \<open>
  The order of a replay is not determined: a model call and the tool calls it asked for
  share a step index, and \<open>ORDER BY step_index\<close> alone lets the database return them in either
  order. Two databases that both sort correctly replay the same stored run differently.
\<close>

theorem replay_order_open:
  "\<exists>env :: nat gw_env. steps_order_ok env \<and> steps_order_ok counter_env \<and>
     map_sum id (\<lambda>rep. map sr_step_type (rep_steps rep))
       (fst (replay counter_env 0 None (snd demo_finished))) =
       Inr [''llm_call'', ''tool_call'', ''llm_call''] \<and>
     map_sum id (\<lambda>rep. map sr_step_type (rep_steps rep))
       (fst (replay env 0 None (snd demo_finished))) =
       Inr [''tool_call'', ''llm_call'', ''llm_call'']"
proof -
  let ?env = "counter_env\<lparr>sql_steps_by_index := \<lambda>rows. sort_key st_step_index (rev rows)\<rparr>"
  have "steps_order_ok ?env" by (simp add: steps_order_ok_def)
  moreover have "map_sum id (\<lambda>rep. map sr_step_type (rep_steps rep))
      (fst (replay counter_env 0 None (snd demo_finished))) =
      Inr [''llm_call'', ''tool_call'', ''llm_call'']" by code_simp
  moreover have "map_sum id (\<lambda>rep. map sr_step_type (rep_steps rep))
      (fst (replay ?env 0 None (snd demo_finished))) =
      Inr [''tool_call'', ''llm_call'', ''llm_call'']" by code_simp
  ultimately show ?thesis using counter_env_ok(1) by blast
qed

end
