(* ===== verification/Audit_Log.thy ===== *)
theory Audit_Log
  imports Database
begin

text \<open>
  \<open>governance/audit.py\<close>: \<open>AuditStore.record\<close>, which inserts one row per governed action, and
  \<open>AuditStore.for_tenant\<close>, which reads a tenant's rows back, latest first.
\<close>

section \<open>Operations\<close>

text \<open>The keyword arguments of \<open>record\<close>, and their defaults.\<close>

record audit_args =
  aa_tenant :: string
  aa_action :: string
  aa_actor :: string
  aa_run_id :: "uuid option"
  aa_provider_name :: "string option"
  aa_model :: "string option"
  aa_input_tokens :: int
  aa_output_tokens :: int
  aa_policy_rule :: "string option"
  aa_policy_action :: "string option"
  aa_detail :: "jdict option"

definition audit_args :: "string \<Rightarrow> string \<Rightarrow> audit_args" where
  "audit_args tenant action =
     \<lparr>aa_tenant = tenant, aa_action = action, aa_actor = ''system'', aa_run_id = None,
      aa_provider_name = None, aa_model = None, aa_input_tokens = 0, aa_output_tokens = 0,
      aa_policy_rule = None, aa_policy_action = None, aa_detail = None\<rparr>"

definition audit_row :: "uuid \<Rightarrow> datetime \<Rightarrow> audit_args \<Rightarrow> audit_entry" where
  "audit_row u now a =
     \<lparr>au_pk = u, au_tenant = aa_tenant a, au_run_id = aa_run_id a, au_actor = aa_actor a,
      au_action = aa_action a, au_provider_name = aa_provider_name a, au_model = aa_model a,
      au_input_tokens = aa_input_tokens a, au_output_tokens = aa_output_tokens a,
      au_policy_rule = aa_policy_rule a, au_policy_action = aa_policy_action a,
      au_detail = aa_detail a, au_created_at = now\<rparr>"

definition record_audit :: "('w, 'e) gw_env_scheme \<Rightarrow> audit_args \<Rightarrow>
    (('w, 'b) gw_state_scheme, uuid) eff" where
  "record_audit env a =
     bind_e (from_world (uuid4 env)) (\<lambda>u.
     bind_e (from_world (db_now env)) (\<lambda>now.
     bind_e (store (\<lambda>d. map_option (\<lambda>rows. d\<lparr>audit_log := rows\<rparr>)
       (insert_row au_pk (audit_row u now a) (audit_log d)))) (\<lambda>_.
     ret u)))"

definition audit_for_tenant :: "('w, 'e) gw_env_scheme \<Rightarrow> string \<Rightarrow> datetime option \<Rightarrow> int \<Rightarrow>
    (('w, 'b) gw_state_scheme, audit_entry list) eff" where
  "audit_for_tenant env tenant since limit =
     bind_e (query (\<lambda>d. sql_audit_latest env
       (filter (\<lambda>e. au_tenant e = tenant \<and>
                    (case since of None \<Rightarrow> True | Some t \<Rightarrow> t \<le> au_created_at e)) (audit_log d)))) (\<lambda>rows.
     lift_result (limited limit rows))"

section \<open>The log only grows\<close>

lemmas audit_defs = bind_e_def ret_def query_def store_def lift_result_def from_world_def Let_def

lemma record_audit_cases:
  assumes "record_audit env a s = (x, s')"
  obtains e where "x = Inl e" "db s' = db s"
  | u now where "x = Inr u" "u \<notin> au_pk ` set (audit_log (db s))"
      "db s' = (db s)\<lparr>audit_log := audit_log (db s) @ [audit_row u now a]\<rparr>"
  using assms
  by (auto simp: record_audit_def audit_defs insert_row_def audit_row_def split: prod.splits if_splits)

text \<open>A row stores the arguments it was recorded with.\<close>

definition audits :: "audit_args \<Rightarrow> audit_entry \<Rightarrow> bool" where
  "audits a e \<longleftrightarrow> e = audit_row (au_pk e) (au_created_at e) a"

lemma audits_row [simp]: "audits a (audit_row u now a)"
  by (simp add: audits_def audit_row_def)

interpretation audit: append_log "\<lambda>s. audit_log (db s)" "record_audit env" audits
proof
  fix a s x s' e
  show "record_audit env a s = (Inr x, s') \<Longrightarrow>
      \<exists>r. audit_log (db s') = audit_log (db s) @ [r] \<and> audits a r"
    by (auto elim!: record_audit_cases)
  show "record_audit env a s = (Inl e, s') \<Longrightarrow> audit_log (db s') = audit_log (db s)"
    by (auto elim!: record_audit_cases)
qed

section \<open>Properties\<close>

text \<open>
  The audit log is append-only and complete: a sequence of recordings leaves every row that
  was there in place, and if none raises it has added exactly one row for each, in order, with
  the arguments it was given.
\<close>

theorem audit_append_only:
  "prefix (audit_log (db s))
     (audit_log (db (snd (for_e (\<lambda>a. discard (record_audit env a)) as s)))) \<and>
   (case for_e (\<lambda>a. discard (record_audit env a)) as s of
      (Inl e, s') \<Rightarrow> True
    | (Inr _, s') \<Rightarrow>
        \<exists>rows. audit_log (db s') = audit_log (db s) @ rows \<and> list_all2 audits as rows)"
proof -
  have "\<exists>rows. audit_log (db s') = audit_log (db s) @ rows \<and> list_all2 audits as rows"
    if "for_e (\<lambda>a. discard (record_audit env a)) as s = (Inr x, s')" for x s'
    using audit.add_all that by simp
  with audit.add_all_prefix [of s env "as"] show ?thesis
    by (auto split: prod.splits sum.splits)
qed

text \<open>
  Reading the log of a tenant returns rows of that tenant only, none older than asked for,
  newest first and not more than the limit; and if fewer than the limit come back, they are all
  the tenant has.
\<close>

theorem audit_for_tenant_scoped:
  assumes env: "audit_order_ok env"
    and run: "audit_for_tenant env t since n s = (Inr rows, s')"
  shows "s' = s \<and> int (length rows) \<le> n \<and> sorted (rev (map au_created_at rows)) \<and>
    list_all (\<lambda>e. e \<in> set (audit_log (db s)) \<and> au_tenant e = t \<and>
                  (case since of None \<Rightarrow> True | Some d \<Rightarrow> d \<le> au_created_at e)) rows \<and>
    (if int (length rows) < n then
       mset rows = mset (filter (\<lambda>e. au_tenant e = t \<and>
         (case since of None \<Rightarrow> True | Some d \<Rightarrow> d \<le> au_created_at e)) (audit_log (db s)))
     else True)"
proof -
  let ?all = "filter (\<lambda>e. au_tenant e = t \<and>
    (case since of None \<Rightarrow> True | Some d \<Rightarrow> d \<le> au_created_at e)) (audit_log (db s))"
  let ?q = "sql_audit_latest env ?all"
  have rows: "rows = take (nat n) ?q" "0 \<le> n" and s': "s' = s"
    using run by (auto simp: audit_for_tenant_def audit_defs limited_def split: if_splits)
  have perm: "mset ?q = mset ?all" and sorted: "sorted (rev (map au_created_at ?q))"
    using env by (simp_all add: audit_order_ok_def)
  have "sorted (rev (map au_created_at (rows @ drop (nat n) ?q)))" using sorted rows(1) by simp
  then have "sorted (rev (map au_created_at rows))" by (auto simp: sorted_append)
  moreover have "set rows \<subseteq> set ?all"
    using mset_eq_setD [OF perm] set_take_subset [of "nat n" ?q] by (simp add: rows(1))
  then have "list_all (\<lambda>e. e \<in> set (audit_log (db s)) \<and> au_tenant e = t \<and>
      (case since of None \<Rightarrow> True | Some d \<Rightarrow> d \<le> au_created_at e)) rows"
    by (auto simp: list_all_iff)
  moreover have "mset rows = mset ?all" if "int (length rows) < n"
  proof -
    have "length ?q \<le> nat n" using that unfolding rows(1) length_take by linarith
    then have "rows = ?q" unfolding rows(1) by simp
    then show ?thesis using perm by (simp only:)
  qed
  moreover have "int (length rows) \<le> n" using rows by simp
  ultimately show ?thesis by (simp add: s')
qed

theorem audit_for_tenant_scoped_witness:
  "\<exists>rows s'. audit_for_tenant counter_env ''acme'' None 10
     (snd (for_e (\<lambda>a. discard (record_audit counter_env a))
        [audit_args ''acme'' ''agent_run'', audit_args ''other'' ''agent_run''] start_state)) =
     (Inr rows, s') \<and> map au_action rows = [''agent_run''] \<and>
     list_all (\<lambda>e. au_tenant e = ''acme'') rows"
proof -
  let ?s = "snd (for_e (\<lambda>a. discard (record_audit counter_env a))
     [audit_args ''acme'' ''agent_run'', audit_args ''other'' ''agent_run''] start_state)"
  have "map_sum id (map au_action) (fst (audit_for_tenant counter_env ''acme'' None 10 ?s)) =
      Inr [''agent_run'']" by code_simp
  then obtain rows s' where r: "audit_for_tenant counter_env ''acme'' None 10 ?s = (Inr rows, s')"
    and a: "map au_action rows = [''agent_run'']"
    by (cases "audit_for_tenant counter_env ''acme'' None 10 ?s";
        cases "fst (audit_for_tenant counter_env ''acme'' None 10 ?s)") auto
  from audit_for_tenant_scoped [OF counter_env_ok(3) r]
  have "list_all (\<lambda>e. au_tenant e = ''acme'') rows" by (auto simp: list_all_iff)
  with r a show ?thesis by (intro exI [of _ rows] exI [of _ s']) (simp only: simp_thms)
qed

end
