(* ===== verification/Cost.thy ===== *)
theory Cost
  imports Database
begin

text \<open>
  The cost side: the pricing table (\<open>cost/pricing.py\<close>, \<open>policies/pricing.yaml\<close>), the tracker
  that inserts one cost entry per call and sums a tenant's month (\<open>cost/tracker.py\<close>), and the
  budget check (\<open>cost/budgets.py\<close>). Float operations round with \<open>fl\<close> of the environment.
\<close>

section \<open>Pricing\<close>

record model_pricing =
  mp_input_per_1k_usd :: real
  mp_output_per_1k_usd :: real

record pricing_table =
  pt_version :: int
  pt_default_currency :: string
  pt_providers :: "(string \<times> (string \<times> model_pricing) list) list"
  pt_fallback :: model_pricing

text \<open>\<open>self.providers.get(provider, {}).get(model, self.fallback)\<close>.\<close>

definition price_for :: "pricing_table \<Rightarrow> string \<Rightarrow> string \<Rightarrow> model_pricing" where
  "price_for pt provider model =
     (let models = (case map_of (pt_providers pt) provider of None \<Rightarrow> [] | Some ms \<Rightarrow> ms)
      in case map_of models model of None \<Rightarrow> pt_fallback pt | Some p \<Rightarrow> p)"

definition estimate_cost_usd ::
    "(real \<Rightarrow> real) \<Rightarrow> pricing_table \<Rightarrow> string \<Rightarrow> string \<Rightarrow> int \<Rightarrow> int \<Rightarrow> real" where
  "estimate_cost_usd rnd pt provider model inp out =
     (let pricing = price_for pt provider model
      in rnd (rnd (rnd (real_of_int inp / 1000) * mp_input_per_1k_usd pricing) +
              rnd (rnd (real_of_int out / 1000) * mp_output_per_1k_usd pricing)))"

text \<open>\<open>policies/pricing.yaml\<close>.\<close>

definition pricing_yaml :: pricing_table where
  "pricing_yaml =
     \<lparr>pt_version = 1, pt_default_currency = ''USD'',
      pt_providers =
        [(''local'',
          [(''llama3.1:8b'', \<lparr>mp_input_per_1k_usd = 0, mp_output_per_1k_usd = 0\<rparr>)]),
         (''bedrock'',
          [(''anthropic.claude-3-5-sonnet-20241022-v2:0'',
            \<lparr>mp_input_per_1k_usd = 3 / 1000, mp_output_per_1k_usd = 15 / 1000\<rparr>)]),
         (''foundry'',
          [(''gpt-4o'', \<lparr>mp_input_per_1k_usd = 25 / 10000, mp_output_per_1k_usd = 1 / 100\<rparr>)])],
      pt_fallback = \<lparr>mp_input_per_1k_usd = 0, mp_output_per_1k_usd = 0\<rparr>\<rparr>"

section \<open>The tracker\<close>

record cost_args =
  ca_tenant :: string
  ca_provider_name :: string
  ca_model :: string
  ca_input_tokens :: int
  ca_output_tokens :: int
  ca_run_id :: "uuid option"

definition cost_row :: "uuid \<Rightarrow> datetime \<Rightarrow> real \<Rightarrow> cost_args \<Rightarrow> cost_entry" where
  "cost_row u now usd a =
     \<lparr>ce_pk = u, ce_tenant = ca_tenant a, ce_run_id = ca_run_id a,
      ce_provider_name = ca_provider_name a, ce_model = ca_model a,
      ce_input_tokens = ca_input_tokens a, ce_output_tokens = ca_output_tokens a,
      ce_cost_usd = usd, ce_created_at = now\<rparr>"

definition cost_of :: "(real \<Rightarrow> real) \<Rightarrow> pricing_table \<Rightarrow> cost_args \<Rightarrow> real" where
  "cost_of rnd pt a = estimate_cost_usd rnd pt (ca_provider_name a) (ca_model a)
     (ca_input_tokens a) (ca_output_tokens a)"

definition record_cost :: "('w, 'e) gw_env_scheme \<Rightarrow> pricing_table \<Rightarrow> cost_args \<Rightarrow>
    (('w, 'b) gw_state_scheme, real) eff" where
  "record_cost env pt a =
     (let usd = cost_of (fl env) pt a in
      bind_e (from_world (uuid4 env)) (\<lambda>u.
      bind_e (from_world (db_now env)) (\<lambda>now.
      bind_e (store (\<lambda>d. map_option (\<lambda>rows. d\<lparr>cost_entries := rows\<rparr>)
        (insert_row ce_pk (cost_row u now usd a) (cost_entries d)))) (\<lambda>_.
      ret usd))))"

text \<open>The entries the month-to-date query sums, and \<open>coalesce(sum(cost_usd), 0.0)\<close>.\<close>

definition month_entries :: "datetime \<Rightarrow> string \<Rightarrow> database \<Rightarrow> cost_entry list" where
  "month_entries as_of tenant d =
     filter (\<lambda>e. ce_tenant e = tenant \<and> start_of_month as_of \<le> ce_created_at e) (cost_entries d)"

definition coalesce_sum :: "('w, 'e) gw_env_scheme \<Rightarrow> cost_entry list \<Rightarrow> real" where
  "coalesce_sum env rows = (if rows = [] then 0 else sql_sum env (map ce_cost_usd rows))"

definition month_to_date_usd :: "('w, 'e) gw_env_scheme \<Rightarrow> string \<Rightarrow> datetime option \<Rightarrow>
    (('w, 'b) gw_state_scheme, real) eff" where
  "month_to_date_usd env tenant as_of =
     bind_e (case as_of of None \<Rightarrow> from_world (utcnow env) | Some t \<Rightarrow> ret t) (\<lambda>now.
     query (\<lambda>d. coalesce_sum env (month_entries now tenant d)))"

section \<open>Budgets\<close>

datatype budget_status = OK | SOFT_ALERT | HARD_STOP

fun budget_status_value :: "budget_status \<Rightarrow> string" where
  "budget_status_value OK = ''ok''"
| "budget_status_value SOFT_ALERT = ''soft_alert''"
| "budget_status_value HARD_STOP = ''hard_stop''"

record budget_check =
  bc_status :: budget_status
  bc_month_to_date_usd :: real
  bc_monthly_budget_usd :: real
  bc_percent_used :: real

definition percent_used :: "(real \<Rightarrow> real) \<Rightarrow> real \<Rightarrow> real \<Rightarrow> real" where
  "percent_used rnd spent budget = (if budget > 0 then rnd (spent / budget) else 0)"

definition status_for :: "real \<Rightarrow> real \<Rightarrow> budget_status" where
  "status_for threshold percent =
     (if percent \<ge> 1 then HARD_STOP
      else if percent \<ge> threshold then SOFT_ALERT
      else OK)"

definition check_budget :: "('w, 'e) gw_env_scheme \<Rightarrow> real \<Rightarrow> string \<Rightarrow> real \<Rightarrow>
    (('w, 'b) gw_state_scheme, budget_check) eff" where
  "check_budget env threshold tenant budget =
     bind_e (month_to_date_usd env tenant None) (\<lambda>spent.
       let percent = percent_used (fl env) spent budget in
       ret \<lparr>bc_status = status_for threshold percent, bc_month_to_date_usd = spent,
            bc_monthly_budget_usd = budget, bc_percent_used = percent\<rparr>)"

section \<open>What the code relies on of floats and sums\<close>

text \<open>Rounding to a float is monotone and leaves 0 and 1, which are floats, alone.\<close>

definition rounds :: "(real \<Rightarrow> real) \<Rightarrow> bool" where
  "rounds rnd \<longleftrightarrow> mono rnd \<and> rnd 0 = 0 \<and> rnd 1 = 1"

text \<open>The database's float sum does not shrink when non-negative numbers are added.\<close>

definition sum_grows :: "('w, 'e) gw_env_scheme \<Rightarrow> bool" where
  "sum_grows env \<longleftrightarrow> (\<forall>xs ys. list_all (\<lambda>y. 0 \<le> y) ys \<longrightarrow> sql_sum env xs \<le> sql_sum env (xs @ ys)) \<and>
     sql_sum env [] = 0"

definition prices_ok :: "pricing_table \<Rightarrow> bool" where
  "prices_ok pt \<longleftrightarrow>
     list_all (\<lambda>p. 0 \<le> mp_input_per_1k_usd p \<and> 0 \<le> mp_output_per_1k_usd p)
       (pt_fallback pt # concat (map (\<lambda>(k, ms). map snd ms) (pt_providers pt)))"

lemma rounds_id: "rounds (\<lambda>x. x)"
  by (simp add: rounds_def mono_def)

lemma rounds_nonneg: "rounds rnd \<Longrightarrow> 0 \<le> x \<Longrightarrow> 0 \<le> rnd x"
  by (metis monoD rounds_def)

lemma rounds_mono: "rounds rnd \<Longrightarrow> x \<le> y \<Longrightarrow> rnd x \<le> rnd y"
  by (simp add: rounds_def monoD)

lemma prices_ok_yaml: "prices_ok pricing_yaml"
  by (simp add: prices_ok_def pricing_yaml_def)

lemma price_for_ok:
  assumes "prices_ok pt"
  shows "0 \<le> mp_input_per_1k_usd (price_for pt p m)" "0 \<le> mp_output_per_1k_usd (price_for pt p m)"
proof -
  have "price_for pt p m \<in> set (pt_fallback pt # concat (map (\<lambda>(k, ms). map snd ms) (pt_providers pt)))"
    by (force simp: price_for_def Let_def dest!: map_of_SomeD split: option.splits)
  then show "0 \<le> mp_input_per_1k_usd (price_for pt p m)" "0 \<le> mp_output_per_1k_usd (price_for pt p m)"
    using assms by (auto simp: prices_ok_def list_all_iff)
qed

lemma estimate_mono:
  assumes r: "rounds rnd" and p: "prices_ok pt" and "i \<le> i'" "j \<le> j'"
  shows "estimate_cost_usd rnd pt prov m i j \<le> estimate_cost_usd rnd pt prov m i' j'"
  using assms
  by (auto simp: estimate_cost_usd_def Let_def
    intro!: rounds_mono [OF r] add_mono mult_right_mono price_for_ok divide_right_mono)

lemma estimate_nonneg:
  assumes r: "rounds rnd" and p: "prices_ok pt" and "0 \<le> i" "0 \<le> j"
  shows "0 \<le> estimate_cost_usd rnd pt prov m i j"
  using assms
  by (auto simp: estimate_cost_usd_def Let_def
    intro!: rounds_nonneg [OF r] add_nonneg_nonneg mult_nonneg_nonneg price_for_ok)

section \<open>Recording\<close>

lemmas cost_defs = bind_e_def ret_def query_def store_def from_world_def Let_def

lemma record_cost_cases:
  assumes "record_cost env pt a s = (x, s')"
  obtains e where "x = Inl e" "db s' = db s"
  | u now where "x = Inr (cost_of (fl env) pt a)" "u \<notin> ce_pk ` set (cost_entries (db s))"
      "db s' = (db s)\<lparr>cost_entries := cost_entries (db s) @ [cost_row u now (cost_of (fl env) pt a) a]\<rparr>"
  using assms
  by (auto simp: record_cost_def cost_defs insert_row_def cost_row_def split: prod.splits if_splits)

text \<open>A row stores the call it was recorded for, and what it costs by the table.\<close>

definition charges :: "(real \<Rightarrow> real) \<Rightarrow> pricing_table \<Rightarrow> cost_args \<Rightarrow> cost_entry \<Rightarrow> bool" where
  "charges rnd pt a e \<longleftrightarrow> e = cost_row (ce_pk e) (ce_created_at e) (cost_of rnd pt a) a"

lemma charges_row [simp]: "charges rnd pt a (cost_row u now (cost_of rnd pt a) a)"
  by (simp add: charges_def cost_row_def)

interpretation cost: append_log "\<lambda>s. cost_entries (db s)" "record_cost env pt" "charges (fl env) pt"
proof
  fix a s x s' e
  show "record_cost env pt a s = (Inr x, s') \<Longrightarrow>
      \<exists>r. cost_entries (db s') = cost_entries (db s) @ [r] \<and> charges (fl env) pt a r"
    by (auto elim!: record_cost_cases)
  show "record_cost env pt a s = (Inl e, s') \<Longrightarrow> cost_entries (db s') = cost_entries (db s)"
    by (auto elim!: record_cost_cases)
qed

section \<open>Months\<close>

text \<open>A date with its fields in range (the upper bounds do not matter here).\<close>

definition valid_date :: "datetime \<Rightarrow> bool" where
  "valid_date d \<longleftrightarrow> 1 \<le> dt_month d \<and> 1 \<le> dt_day d \<and> 0 \<le> dt_hour d \<and> 0 \<le> dt_minute d \<and>
     0 \<le> dt_second d \<and> 0 \<le> dt_micro d"

lemma start_of_month_le:
  assumes "valid_date c"
  shows "start_of_month d \<le> c \<longleftrightarrow> (dt_year d, dt_month d) \<le> (dt_year c, dt_month c)"
  using assms
  by (auto simp: less_eq_datetime_def dt_key_def start_of_month_def valid_date_def)

lemma start_of_month_cong:
  "dt_year a = dt_year b \<Longrightarrow> dt_month a = dt_month b \<Longrightarrow> start_of_month a = start_of_month b"
  by (simp add: start_of_month_def)

lemma month_entries_cong:
  "start_of_month a = start_of_month b \<Longrightarrow> month_entries a t d = month_entries b t d"
  by (simp add: month_entries_def)

section \<open>Budget decisions\<close>

definition spent_so_far :: "('w, 'e) gw_env_scheme \<Rightarrow> string \<Rightarrow> ('w, 'b) gw_state_scheme \<Rightarrow> real" where
  "spent_so_far env t s =
     coalesce_sum env (month_entries (fst (utcnow env (world s))) t (db s))"

lemma check_budget_result:
  "check_budget env th t budget s =
     (Inr \<lparr>bc_status = status_for th (percent_used (fl env) (spent_so_far env t s) budget),
           bc_month_to_date_usd = spent_so_far env t s, bc_monthly_budget_usd = budget,
           bc_percent_used = percent_used (fl env) (spent_so_far env t s) budget\<rparr>,
      s\<lparr>world := snd (utcnow env (world s))\<rparr>)"
  by (simp add: check_budget_def month_to_date_usd_def cost_defs spent_so_far_def
    split: prod.splits)

lemma check_budgetE:
  assumes "check_budget env th t budget s = (Inr r, s')"
  obtains "bc_status r = status_for th (percent_used (fl env) (spent_so_far env t s) budget)"
    "bc_month_to_date_usd r = spent_so_far env t s" "bc_monthly_budget_usd r = budget"
    "bc_percent_used r = percent_used (fl env) (spent_so_far env t s) budget" "db s' = db s"
  using assms by (auto simp: check_budget_result)

lemma coalesce_sum_eq: "sum_grows env \<Longrightarrow> coalesce_sum env rows = sql_sum env (map ce_cost_usd rows)"
  by (simp add: coalesce_sum_def sum_grows_def)

lemma coalesce_sum_mono:
  assumes "sum_grows env" and "list_all (\<lambda>e. 0 \<le> ce_cost_usd e) new"
  shows "coalesce_sum env rows \<le> coalesce_sum env (rows @ new)"
  using assms by (simp add: coalesce_sum_eq) (simp add: sum_grows_def list.pred_map comp_def)

lemma percent_mono:
  assumes "rounds rnd" and "x \<le> y"
  shows "percent_used rnd x budget \<le> percent_used rnd y budget"
  using rounds_mono [OF assms(1), of "x / budget" "y / budget"] assms(2)
  by (simp add: percent_used_def divide_right_mono)

lemma hard_stop_iff: "status_for th p = HARD_STOP \<longleftrightarrow> 1 \<le> p"
  by (simp add: status_for_def)

section \<open>Properties\<close>

text \<open>
  Prices are sane: with non-negative prices and rounding, the estimated cost of a call is
  not negative and does not go down when the call uses more tokens. The shipped table has such
  prices.
\<close>

theorem estimate_cost_sane:
  assumes "rounds rnd" and "prices_ok pt" and "0 \<le> i" "i \<le> i'" "0 \<le> j" "j \<le> j'"
  shows "0 \<le> estimate_cost_usd rnd pt prov m i j \<and>
    estimate_cost_usd rnd pt prov m i j \<le> estimate_cost_usd rnd pt prov m i' j' \<and>
    prices_ok pricing_yaml"
  using assms by (simp add: estimate_mono estimate_nonneg prices_ok_yaml)

theorem estimate_cost_sane_witness:
  "0 \<le> estimate_cost_usd (\<lambda>x. x) pricing_yaml ''foundry'' ''gpt-4o'' 1000 2000 \<and>
   estimate_cost_usd (\<lambda>x. x) pricing_yaml ''foundry'' ''gpt-4o'' 1000 2000 = 225 / 10000"
  using estimate_cost_sane [OF rounds_id prices_ok_yaml, of 1000 1000 2000 2000 "''foundry''" "''gpt-4o''"]
  by (simp add: estimate_cost_usd_def price_for_def pricing_yaml_def)

text \<open>
  The cost table is append-only and complete: a sequence of recordings leaves every entry
  in place, and if none raises it has added exactly one entry for each call, priced by the table.
\<close>

theorem cost_append_only:
  "prefix (cost_entries (db s))
     (cost_entries (db (snd (for_e (\<lambda>a. discard (record_cost env pt a)) as s)))) \<and>
   (case for_e (\<lambda>a. discard (record_cost env pt a)) as s of
      (Inl e, s') \<Rightarrow> True
    | (Inr _, s') \<Rightarrow>
        \<exists>rows. cost_entries (db s') = cost_entries (db s) @ rows \<and> list_all2 (charges (fl env) pt) as rows)"
proof -
  have "\<exists>rows. cost_entries (db s') = cost_entries (db s) @ rows \<and> list_all2 (charges (fl env) pt) as rows"
    if "for_e (\<lambda>a. discard (record_cost env pt a)) as s = (Inr x, s')" for x s'
    using cost.add_all that by simp
  with cost.add_all_prefix [of s env pt "as"] show ?thesis
    by (auto split: prod.splits sum.splits)
qed

text \<open>
  Month to date counts what it should: the entries of the tenant, and no others, from the
  month of the given date on; recording a call of another tenant does not move it.
\<close>

theorem month_to_date_exact:
  assumes "list_all (\<lambda>e. valid_date (ce_created_at e)) (cost_entries (db s))"
  shows "month_to_date_usd env t (Some d) s =
    (Inr (coalesce_sum env (filter
       (\<lambda>e. ce_tenant e = t \<and>
            (dt_year d, dt_month d) \<le> (dt_year (ce_created_at e), dt_month (ce_created_at e)))
       (cost_entries (db s)))), s) \<and>
   (if ca_tenant a = t then True
    else fst (month_to_date_usd env t (Some d) (snd (record_cost env pt a s))) =
      fst (month_to_date_usd env t (Some d) s))"
proof
  have "month_entries d t (db s) = filter
       (\<lambda>e. ce_tenant e = t \<and>
            (dt_year d, dt_month d) \<le> (dt_year (ce_created_at e), dt_month (ce_created_at e)))
       (cost_entries (db s))"
    unfolding month_entries_def
    by (rule filter_cong) (use assms in \<open>auto simp: list_all_iff start_of_month_le\<close>)
  then show "month_to_date_usd env t (Some d) s =
    (Inr (coalesce_sum env (filter
       (\<lambda>e. ce_tenant e = t \<and>
            (dt_year d, dt_month d) \<le> (dt_year (ce_created_at e), dt_month (ce_created_at e)))
       (cost_entries (db s)))), s)"
    by (simp add: month_to_date_usd_def cost_defs)
  have "month_entries d t (db (snd (record_cost env pt a s))) = month_entries d t (db s)"
    if "ca_tenant a \<noteq> t"
  proof (cases "record_cost env pt a s")
    case (Pair x s')
    then show ?thesis using that
      by (auto elim!: record_cost_cases simp: month_entries_def cost_row_def)
  qed
  then show "if ca_tenant a = t then True
    else fst (month_to_date_usd env t (Some d) (snd (record_cost env pt a s))) =
      fst (month_to_date_usd env t (Some d) s)"
    by (simp add: month_to_date_usd_def cost_defs)
qed

theorem month_to_date_exact_witness:
  "fst (month_to_date_usd counter_env ''acme'' (Some (DateTime 2026 3 1 0 0 0 0))
     (snd (record_cost counter_env pricing_yaml
        \<lparr>ca_tenant = ''other'', ca_provider_name = ''foundry'', ca_model = ''gpt-4o'',
         ca_input_tokens = 1000, ca_output_tokens = 0, ca_run_id = None\<rparr> start_state))) = Inr 0"
  using month_to_date_exact [of start_state counter_env "''acme''" "DateTime 2026 3 1 0 0 0 0"
    "\<lparr>ca_tenant = ''other'', ca_provider_name = ''foundry'', ca_model = ''gpt-4o'',
      ca_input_tokens = 1000, ca_output_tokens = 0, ca_run_id = None\<rparr>" pricing_yaml]
  by (simp add: start_state_def empty_db_def coalesce_sum_def)

text \<open>
  The decision of the budget check: a tenant that has spent its budget or more is stopped;
  one that is below the budget by the rounded ratio is not; and a budget of zero (or less) is
  never used up, whatever was spent.
\<close>

theorem budget_decision:
  assumes rnd: "rounds (fl env)" and "0 < th"
    and check: "check_budget env th t budget s = (Inr r, s')"
  shows "db s' = db s \<and> bc_monthly_budget_usd r = budget \<and>
    (if budget \<le> 0 then bc_status r = OK \<and> bc_percent_used r = 0
     else bc_percent_used r = fl env (bc_month_to_date_usd r / budget) \<and>
       (bc_status r = HARD_STOP \<longleftrightarrow> 1 \<le> bc_percent_used r) \<and>
       (bc_status r = SOFT_ALERT \<longleftrightarrow> th \<le> bc_percent_used r \<and> bc_percent_used r < 1) \<and>
       (if budget \<le> bc_month_to_date_usd r then bc_status r = HARD_STOP else True))"
proof -
  let ?x = "spent_so_far env t s"
  have "0 < budget \<and> budget \<le> ?x \<longrightarrow> 1 \<le> fl env (?x / budget)"
  proof
    assume "0 < budget \<and> budget \<le> ?x"
    then have "1 \<le> ?x / budget" by simp
    then have "fl env 1 \<le> fl env (?x / budget)" by (rule rounds_mono [OF rnd])
    then show "1 \<le> fl env (?x / budget)" using rnd by (simp add: rounds_def)
  qed
  then show ?thesis
    using assms(2) by (rule_tac check_budgetE [OF check])
      (auto simp: percent_used_def status_for_def)
qed

theorem budget_decision_witness:
  "map_sum id bc_status (fst (check_budget counter_env (8 / 10) ''acme'' 0 start_state)) = Inr OK"
proof -
  obtain r s' where r: "check_budget counter_env (8 / 10) ''acme'' 0 start_state = (Inr r, s')"
    unfolding check_budget_result by blast
  from budget_decision [OF _ _ r]
  have "bc_status r = OK" by (simp add: counter_env_def rounds_id)
  then show ?thesis unfolding r by simp
qed

text \<open>
  A hard stop is sticky within the month: once the check has stopped a tenant, it stops it
  again in the same month after any number of further recorded calls.
\<close>

theorem hard_stop_sticky:
  assumes rnd: "rounds (fl env)" and sum: "sum_grows env" and prices: "prices_ok pt"
    and check: "check_budget env th t budget s = (Inr r, s1)" and stop: "bc_status r = HARD_STOP"
    and calls: "for_e (\<lambda>a. discard (record_cost env pt a)) as s1 = (Inr (), s2)"
    and tokens: "list_all (\<lambda>a. 0 \<le> ca_input_tokens a \<and> 0 \<le> ca_output_tokens a) as"
    and month: "start_of_month (fst (utcnow env (world s2))) = start_of_month (fst (utcnow env (world s)))"
  shows "\<exists>r' s3. check_budget env th t budget s2 = (Inr r', s3) \<and> bc_status r' = HARD_STOP \<and>
    bc_month_to_date_usd r \<le> bc_month_to_date_usd r'"
proof -
  let ?d = "fst (utcnow env (world s))"
  from cost.add_all [OF calls] obtain new where
    new: "cost_entries (db s2) = cost_entries (db s1) @ new" "list_all2 (charges (fl env) pt) as new"
    by blast
  have "list_all (\<lambda>e. 0 \<le> ce_cost_usd e) new"
    using new(2) tokens
  proof (induction rule: list_all2_induct)
    case (Cons a "as" e new)
    then have "ce_cost_usd e = cost_of (fl env) pt a"
      by (metis charges_def cost_entry.select_convs(8) cost_row_def)
    with Cons show ?case by (simp add: cost_of_def estimate_nonneg [OF rnd prices])
  qed simp
  then have "list_all (\<lambda>e. 0 \<le> ce_cost_usd e) (month_entries ?d t (db s2\<lparr>cost_entries := new\<rparr>))"
    by (auto simp: month_entries_def list_all_iff)
  moreover have "db s1 = db s"
    by (rule check_budgetE [OF check])
  then have "month_entries ?d t (db s2) =
      month_entries ?d t (db s) @ month_entries ?d t (db s2\<lparr>cost_entries := new\<rparr>)"
    using new(1) by (simp add: month_entries_def)
  ultimately have "spent_so_far env t s \<le> coalesce_sum env (month_entries ?d t (db s2))"
    using coalesce_sum_mono [OF sum] by (simp add: spent_so_far_def)
  then have le: "spent_so_far env t s \<le> spent_so_far env t s2"
    by (simp add: spent_so_far_def month_entries_cong [OF month])
  have "1 \<le> percent_used (fl env) (spent_so_far env t s) budget"
    and spent: "bc_month_to_date_usd r = spent_so_far env t s"
    using stop by (auto intro: check_budgetE [OF check] simp: hard_stop_iff)
  with percent_mono [OF rnd le, of budget]
  show ?thesis using le by (simp add: check_budget_result hard_stop_iff)
qed

definition demo_call :: cost_args where
  "demo_call = \<lparr>ca_tenant = ''acme'', ca_provider_name = ''foundry'', ca_model = ''gpt-4o'',
     ca_input_tokens = 400000, ca_output_tokens = 0, ca_run_id = None\<rparr>"

definition spent_state :: "nat gw_state" where
  "spent_state = start_state\<lparr>db := empty_db\<lparr>cost_entries :=
     [cost_row 77 (DateTime 2026 3 2 0 0 0 0) 2 demo_call]\<rparr>\<rparr>"

theorem hard_stop_sticky_witness:
  "\<exists>r' s3. check_budget counter_env (8 / 10) ''acme'' 1
     (snd (record_cost counter_env pricing_yaml demo_call
        (snd (check_budget counter_env (8 / 10) ''acme'' 1 spent_state)))) = (Inr r', s3) \<and>
     bc_status r' = HARD_STOP"
proof -
  let ?s1 = "snd (check_budget counter_env (8 / 10) ''acme'' 1 spent_state)"
  let ?s2 = "snd (record_cost counter_env pricing_yaml demo_call ?s1)"
  have "spent_so_far counter_env ''acme'' spent_state = 2"
    by (simp add: spent_so_far_def counter_env_def spent_state_def start_state_def
      month_entries_def empty_db_def cost_row_def demo_call_def start_of_month_def
      less_eq_datetime_def dt_key_def coalesce_sum_def)
  then obtain r where r: "check_budget counter_env (8 / 10) ''acme'' 1 spent_state = (Inr r, ?s1)"
      "bc_status r = HARD_STOP"
    by (simp add: check_budget_result percent_used_def hard_stop_iff counter_env_def)
  have env: "rounds (fl counter_env)" "sum_grows counter_env"
    by (auto simp: counter_env_def rounds_id sum_grows_def list_all_iff intro!: sum_list_nonneg)
  have "for_e (\<lambda>a. discard (record_cost counter_env pricing_yaml a)) [demo_call] ?s1 = (Inr (), ?s2)"
    by (simp add: bind_e_def discard_cases record_cost_def ret_def from_world_def store_def
      insert_row_def counter_env_def check_budget_result Let_def spent_state_def start_state_def
      empty_db_def cost_row_def)
  moreover have "start_of_month (fst (utcnow counter_env (world ?s2))) =
      start_of_month (fst (utcnow counter_env (world spent_state)))"
    by (simp add: counter_env_def start_of_month_def)
  moreover have "list_all (\<lambda>a. 0 \<le> ca_input_tokens a \<and> 0 \<le> ca_output_tokens a) [demo_call]"
    by (simp add: demo_call_def)
  ultimately have "\<exists>r' s3. check_budget counter_env (8 / 10) ''acme'' 1 ?s2 = (Inr r', s3) \<and>
      bc_status r' = HARD_STOP \<and> bc_month_to_date_usd r \<le> bc_month_to_date_usd r'"
    using hard_stop_sticky [OF env prices_ok_yaml r] by blast
  then show ?thesis by blast
qed

end
