(* ===== verification/Runtime.thy ===== *)
theory Runtime
  imports Guardrails Trace_Store Audit_Log Cost "HOL-Library.AList"
begin

text \<open>
  The agent runtime, \<open>agent/runtime.py\<close>, with the tool interface and registry of
  \<open>agent/tools/base.py\<close> and \<open>agent/tools/registry.py\<close>: the tool-calling loop that asks the
  router for a model response, records every step, runs the tools the model asks for with
  retries, and ends with one of the five outcomes. The loop over \<open>range(max_steps)\<close> and the
  retry loop are structural recursions on the number of turns left, so the model is total.
\<close>

section \<open>Tools\<close>

text \<open>
  A tool: \<open>tool_validate\<close> is \<open>args_model.model_validate\<close> (the text of the \<open>ValidationError\<close>,
  or the validated arguments), \<open>tool_run\<close> is \<open>asyncio.wait_for(tool.run(args), timeout)\<close> on
  the state of the process, whose result is a JSON value.
\<close>

record 's tool =
  tool_name :: string
  tool_description :: string
  tool_schema :: jdict
  tool_timeout_s :: real
  tool_validate :: "jdict \<Rightarrow> string + jdict"
  tool_run :: "real \<Rightarrow> jdict \<Rightarrow> ('s, json) eff"

definition tool_spec_of :: "'s tool \<Rightarrow> tool_spec" where
  "tool_spec_of t =
     \<lparr>spec_name = tool_name t, spec_description = tool_description t, spec_parameters = tool_schema t\<rparr>"

text \<open>\<open>{t.name: t for t in tools}\<close>: a later tool of the same name takes the place of the first.\<close>

definition tool_registry :: "'s tool list \<Rightarrow> (string \<times> 's tool) list" where
  "tool_registry tools = fold (\<lambda>t. AList.update (tool_name t) t) tools []"

definition registry_specs :: "(string \<times> 's tool) list \<Rightarrow> tool_spec list" where
  "registry_specs reg = map (tool_spec_of \<circ> snd) reg"

section \<open>Configuration and results\<close>

record agent_config =
  ac_max_steps :: int
  ac_token_budget :: int
  ac_tool_retry_max_attempts :: int
  ac_tool_retry_backoff_base_s :: real

definition default_config :: agent_config where
  "default_config =
     \<lparr>ac_max_steps = 8, ac_token_budget = 20000, ac_tool_retry_max_attempts = 3,
      ac_tool_retry_backoff_base_s = 1 / 2\<rparr>"

record run_result =
  rr_run_id :: uuid
  rr_status :: string
  rr_final_output :: "string option"
  rr_total_input_tokens :: int
  rr_total_output_tokens :: int
  rr_step_count :: int

text \<open>\<open>AgentRuntime\<close>: what its constructor is given.\<close>

record ('w, 's) runtime =
  ag_router :: "'w router"
  ag_tools :: "(string \<times> 's tool) list"
  ag_config :: agent_config
  ag_guardrails :: "policy_set option"
  ag_pricing :: "pricing_table option"
  ag_audits :: bool

section \<open>Helpers\<close>

text \<open>\<open>int(x)\<close> of a float truncates towards zero.\<close>

definition int_trunc :: "real \<Rightarrow> int" where
  "int_trunc x = (if x < 0 then \<lceil>x\<rceil> else \<lfloor>x\<rfloor>)"

definition elapsed_ms :: "('w, 'e) gw_env_scheme \<Rightarrow> real \<Rightarrow> (('w, 'b) gw_state_scheme, int) eff" where
  "elapsed_ms env started =
     bind_e (from_world (monotonic env)) (\<lambda>now. ret (int_trunc (fl env (fl env (now - started) * 1000))))"

definition error_json :: "('w, 'e) gw_env_scheme \<Rightarrow> string option \<Rightarrow> string" where
  "error_json env e = json_dumps (float_repr env) (JObj [(''error'', json_opt_str e)])"

definition audit_hits :: "('w, 'e) gw_env_scheme \<Rightarrow> bool \<Rightarrow> string \<Rightarrow> uuid \<Rightarrow> string \<Rightarrow>
    guardrail_hit list \<Rightarrow> (('w, 'b) gw_state_scheme, unit) eff" where
  "audit_hits env audits_on tenant rid action hits =
     (if \<not> audits_on then ret ()
      else for_e (\<lambda>hit. discard (record_audit env
        ((audit_args tenant action)
           \<lparr>aa_run_id := Some rid, aa_policy_rule := Some (gh_rule hit),
            aa_policy_action := Some (gh_action hit),
            aa_detail := Some [(''matches'', JList (map JStr (gh_detail hit)))]\<rparr>))) hits)"

section \<open>Running a tool\<close>

definition is_tool_error :: "exn \<Rightarrow> bool" where
  "is_tool_error e = (case e of ToolExecutionError m \<Rightarrow> True | _ \<Rightarrow> False)"

definition retry_error :: "('w, 'e) gw_env_scheme \<Rightarrow> 's tool \<Rightarrow> exn \<Rightarrow> string" where
  "retry_error env t e = (case e of
     TimeoutError m \<Rightarrow> ''tool timed out after '' @ float_repr env (tool_timeout_s t) @ ''s''
   | _ \<Rightarrow> exn_str e)"

text \<open>\<open>for attempt in range(max_attempts)\<close>, with the number of attempts left as fuel.\<close>

fun retry_loop :: "('w, 'e) gw_env_scheme \<Rightarrow> agent_config \<Rightarrow> ('w, 'b) gw_state_scheme tool \<Rightarrow> jdict \<Rightarrow>
    real \<Rightarrow> nat \<Rightarrow> nat \<Rightarrow> string option \<Rightarrow>
    (('w, 'b) gw_state_scheme, string \<times> string option \<times> int \<times> int) eff" where
  "retry_loop env cfg t args started 0 k last_error =
     bind_e (elapsed_ms env started) (\<lambda>ms.
     ret (error_json env last_error, last_error, ac_tool_retry_max_attempts cfg, ms))"
| "retry_loop env cfg t args started (Suc n) k last_error =
     bind_e (catch_e (tool_run t (tool_timeout_s t) args)) (\<lambda>r.
       case r of
         Inr v \<Rightarrow> bind_e (elapsed_ms env started) (\<lambda>ms.
           ret (json_dumps (float_repr env) v, None, int k, ms))
       | Inl e \<Rightarrow>
           if is_tool_error e then
             bind_e (elapsed_ms env started) (\<lambda>ms.
             ret (error_json env (Some (exn_str e)), Some (exn_str e), int k, ms))
           else
             bind_e (if int k < ac_tool_retry_max_attempts cfg - 1
                     then from_world (sleep env (fl env (ac_tool_retry_backoff_base_s cfg * 2 ^ k)))
                     else ret ()) (\<lambda>_.
             retry_loop env cfg t args started n (k + 1) (Some (retry_error env t e))))"

definition execute_tool_with_retry :: "('w, 'e) gw_env_scheme \<Rightarrow> agent_config \<Rightarrow>
    ('w, 'b) gw_state_scheme tool \<Rightarrow> jdict \<Rightarrow>
    (('w, 'b) gw_state_scheme, string \<times> string option \<times> int \<times> int) eff" where
  "execute_tool_with_retry env cfg t arguments =
     bind_e (from_world (monotonic env)) (\<lambda>started.
       case tool_validate t arguments of
         Inl msg \<Rightarrow>
           (let error = ''invalid tool arguments: '' @ msg in
            bind_e (elapsed_ms env started) (\<lambda>ms.
            ret (error_json env (Some error), Some error, 0, ms)))
       | Inr args \<Rightarrow>
           retry_loop env cfg t args started (nat (ac_tool_retry_max_attempts cfg)) 0 None)"

text \<open>Truth value of an optional error text: \<open>None\<close> and the empty text are false.\<close>

definition no_error :: "string option \<Rightarrow> bool" where
  "no_error e = (case e of None \<Rightarrow> True | Some m \<Rightarrow> m = [])"

text \<open>One tool call of a response: its recorded step, and the content of the tool message.\<close>

definition run_tool_call :: "('w, 'e) gw_env_scheme \<Rightarrow> ('w, ('w, 'b) gw_state_scheme) runtime \<Rightarrow> uuid \<Rightarrow>
    int \<Rightarrow> tool_call \<Rightarrow> (('w, 'b) gw_state_scheme, string) eff" where
  "run_tool_call env ag rid i call =
     (case map_of (ag_tools ag) (call_name call) of
        None \<Rightarrow>
          (let error = ''unknown tool: '' @ call_name call in
           bind_e (record_step env rid i
             ((step_record ''tool_call'' (call_arguments call))
                \<lparr>sr_tool_name := Some (call_name call), sr_error := Some error\<rparr>)) (\<lambda>_.
           ret (error_json env (Some error))))
      | Some t \<Rightarrow>
          bind_e (execute_tool_with_retry env (ag_config ag) t (call_arguments call))
            (\<lambda>(content, error, retry_count, ms).
          bind_e (record_step env rid i
            ((step_record ''tool_call'' (call_arguments call))
               \<lparr>sr_tool_name := Some (tool_name t),
                sr_output := (if no_error error then Some [(''result'', JStr content)] else None),
                sr_error := error, sr_retry_count := retry_count, sr_duration_ms := Some ms\<rparr>)) (\<lambda>_.
          ret content)))"

fun run_tool_calls :: "('w, 'e) gw_env_scheme \<Rightarrow> ('w, ('w, 'b) gw_state_scheme) runtime \<Rightarrow> uuid \<Rightarrow>
    int \<Rightarrow> tool_call list \<Rightarrow> chat_message list \<Rightarrow> (('w, 'b) gw_state_scheme, chat_message list) eff" where
  "run_tool_calls env ag rid i [] messages = ret messages"
| "run_tool_calls env ag rid i (call # calls) messages =
     bind_e (run_tool_call env ag rid i call) (\<lambda>content.
     run_tool_calls env ag rid i calls (messages @
       [\<lparr>msg_role = TOOL, msg_content = content, msg_tool_call_id = Some (call_id call),
         msg_name = Some (call_name call)\<rparr>]))"

section \<open>The loop\<close>

text \<open>What one turn of the loop over the steps leaves to do.\<close>

datatype turn_outcome = Finished run_result | NextTurn "chat_message list" int int

definition make_request :: "('w, 's) runtime \<Rightarrow> string \<Rightarrow> uuid \<Rightarrow> chat_message list \<Rightarrow> chat_request" where
  "make_request ag tenant rid messages =
     \<lparr>req_messages = messages, req_model = [], req_tools = registry_specs (ag_tools ag),
      req_temperature = 2 / 10, req_max_output_tokens = 1024,
      req_tenant_id = tenant, req_request_id = uuid_str rid\<rparr>"

definition messages_input :: "chat_message list \<Rightarrow> jdict" where
  "messages_input messages = [(''messages'', JList (map message_dump messages))]"

definition failed_step :: "chat_message list \<Rightarrow> exn \<Rightarrow> int \<Rightarrow> step_record" where
  "failed_step messages e ms =
     (step_record ''llm_call'' (messages_input messages))
       \<lparr>sr_error := Some (exn_str e), sr_duration_ms := Some ms\<rparr>"

definition llm_step :: "chat_message list \<Rightarrow> chat_response \<Rightarrow> int \<Rightarrow> step_record" where
  "llm_step messages resp ms =
     (step_record ''llm_call'' (messages_input messages))
       \<lparr>sr_output := Some (response_dump resp), sr_provider_name := Some (resp_provider_name resp),
        sr_model := Some (resp_model resp), sr_input_tokens := input_tokens (resp_usage resp),
        sr_output_tokens := output_tokens (resp_usage resp), sr_duration_ms := Some ms\<rparr>"

definition track_cost :: "('w, 'e) gw_env_scheme \<Rightarrow> pricing_table option \<Rightarrow> string \<Rightarrow> uuid \<Rightarrow>
    chat_response \<Rightarrow> (('w, 'b) gw_state_scheme, unit) eff" where
  "track_cost env pricing tenant rid resp =
     (case pricing of
        None \<Rightarrow> ret ()
      | Some pt \<Rightarrow> discard (record_cost env pt
          \<lparr>ca_tenant = tenant, ca_provider_name = resp_provider_name resp, ca_model = resp_model resp,
           ca_input_tokens = input_tokens (resp_usage resp),
           ca_output_tokens = output_tokens (resp_usage resp), ca_run_id = Some rid\<rparr>))"

text \<open>\<open>finish_run\<close> and the result that reports it.\<close>

definition finish_with :: "('w, 'e) gw_env_scheme \<Rightarrow> uuid \<Rightarrow> string \<Rightarrow> string option \<Rightarrow> string option \<Rightarrow>
    int \<Rightarrow> int \<Rightarrow> int \<Rightarrow> (('w, 'b) gw_state_scheme, run_result) eff" where
  "finish_with env rid status out err tin tout steps =
     bind_e (finish_run env rid status out err) (\<lambda>_.
     ret \<lparr>rr_run_id = rid, rr_status = status, rr_final_output = out,
          rr_total_input_tokens = tin, rr_total_output_tokens = tout, rr_step_count = steps\<rparr>)"

text \<open>The end of a turn in which the model asked for no tool: the response screen.\<close>

definition answer :: "('w, 'e) gw_env_scheme \<Rightarrow> ('w, ('w, 'b) gw_state_scheme) runtime \<Rightarrow> string \<Rightarrow> uuid \<Rightarrow>
    string option \<Rightarrow> string \<Rightarrow> int \<Rightarrow> int \<Rightarrow> int \<Rightarrow> (('w, 'b) gw_state_scheme, run_result) eff" where
  "answer env ag tenant rid policy content tin tout steps =
     (case ag_guardrails ag of
        None \<Rightarrow> finish_with env rid ''completed'' (Some content) None tin tout steps
      | Some ps \<Rightarrow>
          bind_e (lift_result (screen_response ps content policy)) (\<lambda>post.
          bind_e (audit_hits env (ag_audits ag) tenant rid ''guardrail_response'' (gr_hits post)) (\<lambda>_.
          if \<not> gr_allowed post
          then finish_with env rid ''blocked_by_guardrail'' None (gr_block_reason post) tin tout steps
          else finish_with env rid ''completed'' (Some (gr_text post)) None tin tout steps)))"

text \<open>The rest of a turn after the router raised, and after it returned a response.\<close>

definition turn_failed :: "('w, 'e) gw_env_scheme \<Rightarrow> uuid \<Rightarrow> int \<Rightarrow> chat_message list \<Rightarrow> real \<Rightarrow> exn \<Rightarrow>
    int \<Rightarrow> int \<Rightarrow> (('w, 'b) gw_state_scheme, turn_outcome) eff" where
  "turn_failed env rid i messages started e tin tout =
     (if \<not> is_provider_error e then throw e
      else
        bind_e (elapsed_ms env started) (\<lambda>ms.
        bind_e (record_step env rid i (failed_step messages e ms)) (\<lambda>_.
        bind_e (finish_with env rid ''failed'' None (Some (exn_str e)) tin tout (i + 1)) (\<lambda>res.
        ret (Finished res)))))"

definition turn_answered :: "('w, 'e) gw_env_scheme \<Rightarrow> ('w, ('w, 'b) gw_state_scheme) runtime \<Rightarrow> string \<Rightarrow>
    uuid \<Rightarrow> string option \<Rightarrow> int \<Rightarrow> chat_message list \<Rightarrow> real \<Rightarrow> chat_response \<Rightarrow> int \<Rightarrow> int \<Rightarrow>
    (('w, 'b) gw_state_scheme, turn_outcome) eff" where
  "turn_answered env ag tenant rid policy i messages started resp tin tout =
     bind_e (elapsed_ms env started) (\<lambda>ms.
     bind_e (record_step env rid i (llm_step messages resp ms)) (\<lambda>_.
     bind_e (track_cost env (ag_pricing ag) tenant rid resp) (\<lambda>_.
     if tin + tout > ac_token_budget (ag_config ag) then
       bind_e (finish_with env rid ''budget_exceeded'' None (Some ''token budget exceeded'')
                 tin tout (i + 1)) (\<lambda>res.
       ret (Finished res))
     else if resp_tool_calls resp = [] then
       bind_e (answer env ag tenant rid policy (msg_content (resp_message resp)) tin tout (i + 1)) (\<lambda>res.
       ret (Finished res))
     else
       bind_e (run_tool_calls env ag rid i (resp_tool_calls resp) (messages @ [resp_message resp]))
         (\<lambda>messages.
       ret (NextTurn messages tin tout)))))"

definition agent_turn :: "('w, 'e) gw_env_scheme \<Rightarrow> ('w, ('w, 'b) gw_state_scheme) runtime \<Rightarrow> string \<Rightarrow>
    uuid \<Rightarrow> routing_context \<Rightarrow> string option \<Rightarrow> int \<Rightarrow> chat_message list \<Rightarrow> int \<Rightarrow> int \<Rightarrow>
    (('w, 'b) gw_state_scheme, turn_outcome) eff" where
  "agent_turn env ag tenant rid ctx policy i messages tin tout =
     bind_e (from_world (monotonic env)) (\<lambda>started.
     bind_e (catch_e (route env (ag_router ag) (make_request ag tenant rid messages) ctx)) (\<lambda>r.
       case r of
         Inl e \<Rightarrow> turn_failed env rid i messages started e tin tout
       | Inr resp \<Rightarrow>
           turn_answered env ag tenant rid policy i messages started resp
             (tin + input_tokens (resp_usage resp)) (tout + output_tokens (resp_usage resp))))"

text \<open>\<open>for step_index in range(max_steps)\<close>, with the number of steps left as fuel.\<close>

fun agent_loop :: "('w, 'e) gw_env_scheme \<Rightarrow> ('w, ('w, 'b) gw_state_scheme) runtime \<Rightarrow> string \<Rightarrow>
    uuid \<Rightarrow> routing_context \<Rightarrow> string option \<Rightarrow> nat \<Rightarrow> int \<Rightarrow> chat_message list \<Rightarrow> int \<Rightarrow> int \<Rightarrow>
    (('w, 'b) gw_state_scheme, run_result) eff" where
  "agent_loop env ag tenant rid ctx policy 0 i messages tin tout =
     finish_with env rid ''max_steps_exceeded'' None (Some ''max steps exceeded'') tin tout
       (ac_max_steps (ag_config ag))"
| "agent_loop env ag tenant rid ctx policy (Suc n) i messages tin tout =
     bind_e (agent_turn env ag tenant rid ctx policy i messages tin tout) (\<lambda>outcome.
       case outcome of
         Finished res \<Rightarrow> ret res
       | NextTurn messages tin tout \<Rightarrow>
           agent_loop env ag tenant rid ctx policy n (i + 1) messages tin tout)"

definition start_loop :: "('w, 'e) gw_env_scheme \<Rightarrow> ('w, ('w, 'b) gw_state_scheme) runtime \<Rightarrow> string \<Rightarrow>
    uuid \<Rightarrow> routing_context \<Rightarrow> string option \<Rightarrow> string \<Rightarrow> string \<Rightarrow>
    (('w, 'b) gw_state_scheme, run_result) eff" where
  "start_loop env ag tenant rid ctx policy system_prompt user_message =
     agent_loop env ag tenant rid ctx policy (nat (ac_max_steps (ag_config ag))) 0
       [chat_message SYSTEM system_prompt, chat_message USER user_message] 0 0"

definition run :: "('w, 'e) gw_env_scheme \<Rightarrow> ('w, ('w, 'b) gw_state_scheme) runtime \<Rightarrow> string \<Rightarrow> string \<Rightarrow>
    string \<Rightarrow> string \<Rightarrow> routing_context \<Rightarrow> string option \<Rightarrow> (('w, 'b) gw_state_scheme, run_result) eff" where
  "run env ag tenant agent_name system_prompt user_message ctx policy =
     bind_e (start_run env tenant agent_name (ac_max_steps (ag_config ag))
       (ac_token_budget (ag_config ag)) (ctx_data_classification ctx) (ctx_cost_tier ctx)) (\<lambda>rid.
     case ag_guardrails ag of
       None \<Rightarrow> start_loop env ag tenant rid ctx policy system_prompt user_message
     | Some ps \<Rightarrow>
         bind_e (lift_result (screen_request ps user_message policy)) (\<lambda>pre.
         bind_e (audit_hits env (ag_audits ag) tenant rid ''guardrail_request'' (gr_hits pre)) (\<lambda>_.
         if \<not> gr_allowed pre
         then finish_with env rid ''blocked_by_guardrail'' None (gr_block_reason pre) 0 0 0
         else start_loop env ag tenant rid ctx policy system_prompt (gr_text pre))))"

text \<open>\<open>AgentRuntime.replay\<close> is the store's.\<close>

definition runtime_replay :: "('w, 'e) gw_env_scheme \<Rightarrow> uuid \<Rightarrow> string option \<Rightarrow>
    (('w, 'b) gw_state_scheme, replayed_run) eff" where
  "runtime_replay env rid tenant = replay env rid tenant"

section \<open>What the parts leave alone\<close>

text \<open>Routing changes the breakers, the log and the world, and nothing that extends them.\<close>

lemma gateway_more [simp]:
  "gateway.more (emit e s) = gateway.more s"
  "gateway.more (snd (read_clock env s)) = gateway.more s"
  "gateway.more (snd (before_call env p s)) = gateway.more s"
  "gateway.more (on_success p s) = gateway.more s"
  "gateway.more (on_failure env p s) = gateway.more s"
  "gateway.more (snd (call_provider prov rq s)) = gateway.more s"
  by (simp_all add: emit_def breaker_defs call_provider_def split: option.splits prod.splits)

lemma gateway_more_eqs:
  "read_clock env s = (t, s1) \<Longrightarrow> gateway.more s1 = gateway.more s"
  "before_call env p s = (r, s1) \<Longrightarrow> gateway.more s1 = gateway.more s"
  "call_provider prov rq s = (x, s1) \<Longrightarrow> gateway.more s1 = gateway.more s"
  using gateway_more(2) [of env s] gateway_more(3) [of env p s] gateway_more(6) [of prov rq s]
  by simp_all

lemma observe_more [simp]: "gateway.more (observe env p t k resp s) = gateway.more s"
  by (auto simp: observe_def Let_def gateway_more_eqs split: option.splits prod.splits)

lemma attempt_more:
  "attempt env rt request p s = (t, s') \<Longrightarrow> gateway.more s' = gateway.more s"
  by (erule attempt_cases) (auto simp: gateway_more_eqs)

lemma route_loop_more: "gateway.more (snd (route_loop env rt request cands ps s)) = gateway.more s"
proof (induction ps arbitrary: s)
  case (Cons p ps)
  obtain t s1 where a: "attempt env rt request p s = (t, s1)" by fastforce
  then show ?case using Cons.IH [of s1] attempt_more [OF a] by (simp split: turn.splits)
qed simp

lemma route_more: "gateway.more (snd (route env rt request c s)) = gateway.more s"
  by (simp add: route_def Let_def route_loop_more)

lemma route_db:
  fixes s :: "('w, 'b) gw_state_scheme"
  shows "db (snd (route env rt request c s)) = db s"
    and "committed (snd (route env rt request c s)) = committed s"
proof -
  have "gateway.more a = gateway.more b \<Longrightarrow> db a = db b \<and> committed a = committed b"
    for a b :: "('w, 'b) gw_state_scheme"
    by (cases a; cases b) simp
  from this [OF route_more] show "db (snd (route env rt request c s)) = db s"
    and "committed (snd (route env rt request c s)) = committed s" by blast+
qed

end
