(* ===== verification/Runtime_Properties.thy ===== *)
theory Runtime_Properties
  imports Runtime
begin

text \<open>
  What a run of the agent runtime does: to the tables it only appends and the books stay
  balanced, it asks the providers of the policy only, what it reports is what it stored, and
  what it stored is what a replay reads back.
\<close>

section \<open>The ledger contract\<close>

text \<open>
  What no part of the gateway does to the tables: the books of the runs stay balanced, the
  step, audit and cost tables only grow, and the keys are left alone.
\<close>

definition ledger :: "database \<Rightarrow> database \<Rightarrow> bool" where
  "ledger d d' \<longleftrightarrow> (trace_ok d \<longrightarrow> trace_ok d') \<and> prefix (agent_steps d) (agent_steps d') \<and>
     prefix (audit_log d) (audit_log d') \<and> prefix (cost_entries d) (cost_entries d') \<and>
     api_keys d' = api_keys d"

lemma ledger_refl [simp]: "ledger d d"
  by (simp add: ledger_def)

lemma ledger_trans: "ledger a b \<Longrightarrow> ledger b c \<Longrightarrow> ledger a c"
  by (auto simp: ledger_def intro: prefix_order.trans)

interpretation ledgers: effect_rel "\<lambda>s s'. ledger (db s) (db s')"
  by unfold_locales (auto intro: ledger_trans)

lemma trace_ok_cong:
  assumes "agent_runs d' = agent_runs d" and "agent_steps d' = agent_steps d"
  shows "trace_ok d' = trace_ok d"
proof -
  have "steps_of d' = steps_of d" by (simp add: steps_of_def fun_eq_iff assms)
  then have "balanced d' = balanced d" by (simp add: balanced_def fun_eq_iff)
  then show ?thesis by (simp add: trace_ok_def assms)
qed

lemma ledger_append:
  assumes "agent_runs d' = agent_runs d" "agent_steps d' = agent_steps d"
    and "prefix (audit_log d) (audit_log d')" "prefix (cost_entries d) (cost_entries d')"
    and "api_keys d' = api_keys d"
  shows "ledger d d'"
  using assms trace_ok_cong [OF assms(1,2)] by (simp add: ledger_def)

lemma keeps_db: "(\<And>s. db (snd (m s)) = db s) \<Longrightarrow> ledgers.keeps m"
  by (rule ledgers.keepsI) simp

lemma keeps_from_world: "ledgers.keeps (from_world f)"
  by (rule keeps_db) (simp add: from_world_def split: prod.splits)

lemma keeps_lift_result: "ledgers.keeps (lift_result r)"
  by (rule keeps_db) (simp add: lift_result_def)

lemma keeps_route: "ledgers.keeps (route env rt rq c)"
  by (rule keeps_db) (rule route_db)

lemma keeps_start_run: "ledgers.keeps (start_run env t a n b c r)"
proof (rule ledgers.keepsI)
  fix s
  obtain x s' where run: "start_run env t a n b c r s = (x, s')" by fastforce
  then show "ledger (db s) (db (snd (start_run env t a n b c r s)))"
    using start_run_trace_ok [of s env t a n b c r]
    by (cases rule: start_run_cases) (simp_all add: run ledger_def)
qed

lemma keeps_record_step: "ledgers.keeps (record_step env rid i r)"
proof (rule ledgers.keepsI)
  fix s
  obtain x s' where run: "record_step env rid i r s = (x, s')" by fastforce
  then show "ledger (db s) (db (snd (record_step env rid i r s)))"
    using record_step_trace_ok [of s env rid i r]
    by (cases rule: record_step_cases) (simp_all add: run ledger_def)
qed

lemma keeps_finish_run: "ledgers.keeps (finish_run env rid st out err)"
proof (rule ledgers.keepsI)
  fix s
  obtain x s' where run: "finish_run env rid st out err s = (x, s')" by fastforce
  then show "ledger (db s) (db (snd (finish_run env rid st out err s)))"
    using finish_run_trace_ok [of s env rid st out err]
    by (cases rule: finish_run_cases) (simp_all add: run ledger_def)
qed

lemma keeps_record_audit: "ledgers.keeps (record_audit env a)"
proof (rule ledgers.keepsI)
  fix s
  obtain x s' where run: "record_audit env a s = (x, s')" by fastforce
  then show "ledger (db s) (db (snd (record_audit env a s)))"
    by (cases rule: record_audit_cases) (auto simp: run intro!: ledger_append)
qed

lemma keeps_record_cost: "ledgers.keeps (record_cost env pt a)"
proof (rule ledgers.keepsI)
  fix s
  obtain x s' where run: "record_cost env pt a s = (x, s')" by fastforce
  then show "ledger (db s) (db (snd (record_cost env pt a s)))"
    by (cases rule: record_cost_cases) (auto simp: run intro!: ledger_append)
qed

text \<open>
  What the runtime relies on of a tool: it writes nothing to the tables, the breakers or the
  log, and commits nothing.
\<close>

definition tools_contained :: "('w, ('w, 'b) gw_state_scheme) runtime \<Rightarrow> bool" where
  "tools_contained ag \<longleftrightarrow> (\<forall>t \<in> snd ` set (ag_tools ag). \<forall>timeout args s.
     db (snd (tool_run t timeout args s)) = db s \<and>
     obs (snd (tool_run t timeout args s)) = obs s \<and>
     breakers (snd (tool_run t timeout args s)) = breakers s \<and>
     committed (snd (tool_run t timeout args s)) = committed s)"

section \<open>Contracts of a whole run\<close>

text \<open>
  A relation between states that the world and the stores keep. A turn is made of these and of
  one call of the router, so whatever else it does keeps the relation, if its tools do.
\<close>

locale step_effects = effect_rel R
  for R :: "('w, 'b) gw_state_scheme \<Rightarrow> ('w, 'b) gw_state_scheme \<Rightarrow> bool" +
  fixes env :: "('w, 'e) gw_env_scheme"
  assumes R_world: "R s (s\<lparr>world := w\<rparr>)"
    and R_start: "R s (snd (start_run env t a n b c r s))"
    and R_step: "R s (snd (record_step env rid i sr s))"
    and R_finish: "R s (snd (finish_run env rid st out err s))"
    and R_audit: "R s (snd (record_audit env aa s))"
    and R_cost: "R s (snd (record_cost env pt ca s))"
begin

lemma keeps_world: "keeps (from_world f)"
  by (rule keepsI) (simp add: from_world_def R_world split: prod.splits)

lemma keeps_lift: "keeps (lift_result r)"
  by (rule keepsI) (simp add: lift_result_def R_refl)

lemma keeps_stores:
  "keeps (start_run env t a n b c r)" "keeps (record_step env rid i sr)"
  "keeps (finish_run env rid st out err)" "keeps (record_audit env aa)" "keeps (record_cost env pt ca)"
  by (rule keepsI, simp add: R_start R_step R_finish R_audit R_cost)+

lemmas keeps_parts = keeps_rules keeps_world keeps_lift keeps_stores

lemma keeps_small:
  "keeps (elapsed_ms env u)" "keeps (audit_hits env on t rid act hits)"
  "keeps (finish_with env rid st out err i j n)" "keeps (track_cost env pto t rid resp)"
  unfolding elapsed_ms_def audit_hits_def finish_with_def track_cost_def by (intro keeps_parts)+

lemma keeps_answer: "keeps (answer env ag t rid policy content i j n)"
  unfolding answer_def by (intro keeps_parts keeps_small)

lemma keeps_retry_loop:
  assumes "keeps (tool_run t (tool_timeout_s t) args)"
  shows "keeps (retry_loop env cfg t args started n k e)"
  using assms by (induction n arbitrary: k e) (auto intro!: keeps_parts keeps_small)

definition tools_keep :: "('w, ('w, 'b) gw_state_scheme) runtime \<Rightarrow> bool" where
  "tools_keep ag \<longleftrightarrow> (\<forall>t \<in> snd ` set (ag_tools ag). \<forall>timeout args s. R s (snd (tool_run t timeout args s)))"

lemma keeps_tool_call:
  assumes "tools_keep ag"
  shows "keeps (run_tool_call env ag rid i call)"
proof (cases "map_of (ag_tools ag) (call_name call)")
  case None
  then show ?thesis unfolding run_tool_call_def Let_def by (simp, intro keeps_parts)
next
  case (Some t)
  have "keeps (tool_run t timeout args)" for timeout args
    by (rule keepsI) (use assms Some in \<open>force simp: tools_keep_def dest: map_of_SomeD\<close>)
  then have "keeps (execute_tool_with_retry env (ag_config ag) t (call_arguments call))"
    unfolding execute_tool_with_retry_def Let_def by (intro keeps_parts keeps_small keeps_retry_loop)
  then show ?thesis using Some unfolding run_tool_call_def by (simp, intro keeps_parts)
qed

lemma keeps_tool_calls: "tools_keep ag \<Longrightarrow> keeps (run_tool_calls env ag rid i calls messages)"
  by (induction calls arbitrary: messages) (auto intro!: keeps_parts keeps_tool_call)

lemma keeps_failed: "keeps (turn_failed env rid i messages started e tin tout)"
  unfolding turn_failed_def by (intro keeps_parts keeps_small)

lemma keeps_answered:
  "tools_keep ag \<Longrightarrow> keeps (turn_answered env ag t rid policy i messages started resp tin tout)"
  unfolding turn_answered_def by (intro keeps_parts keeps_small keeps_answer keeps_tool_calls)

end

text \<open>If the router keeps the relation as well, so does a whole run.\<close>

locale run_effects = step_effects R env
  for R :: "('w, 'b) gw_state_scheme \<Rightarrow> ('w, 'b) gw_state_scheme \<Rightarrow> bool"
    and env :: "('w, 'e) gw_env_scheme" +
  fixes rt :: "'w router" and ctx :: routing_context
  assumes R_route: "R s (snd (route env rt rq ctx s))"
begin

lemma route_keeps: "keeps (route env rt rq ctx)"
  by (rule keepsI) (rule R_route)

lemma keeps_turn:
  assumes "ag_router ag = rt" and "tools_keep ag"
  shows "keeps (agent_turn env ag t rid ctx policy i messages tin tout)"
  unfolding agent_turn_def assms(1)
  by (intro keeps_parts route_keeps keeps_failed keeps_answered assms(2))

lemma keeps_loop:
  assumes "ag_router ag = rt" and "tools_keep ag"
  shows "keeps (agent_loop env ag t rid ctx policy n i messages tin tout)"
proof (induction n arbitrary: i messages tin tout)
  case (Suc n)
  then have "keeps (case outcome of Finished res \<Rightarrow> ret res
      | NextTurn messages tin tout \<Rightarrow> agent_loop env ag t rid ctx policy n (i + 1) messages tin tout)"
    for outcome by (cases outcome) (auto intro: keeps_parts)
  then show ?case using assms by (auto intro!: keeps_bind keeps_turn)
qed (auto intro: keeps_small)

lemma keeps_run:
  "ag_router ag = rt \<Longrightarrow> tools_keep ag \<Longrightarrow> keeps (run env ag t name sys usr ctx policy)"
  unfolding run_def start_loop_def by (intro keeps_parts keeps_small keeps_loop)

end

text \<open>The tables keep their contract over a run, and a run commits nothing.\<close>

interpretation ledger_run: run_effects "\<lambda>s s'. ledger (db s) (db s')" env rt ctx
  by unfold_locales
    (simp_all add: keeps_route keeps_start_run keeps_record_step keeps_finish_run keeps_record_audit
      keeps_record_cost ledgers.keepsR)

interpretation steady: effect_rel "\<lambda>s s'. committed s' = committed s"
  by unfold_locales auto

lemma steady_store: "steady.keeps (store f)"
  by (rule steady.keepsI) (simp add: store_def split: option.splits)

lemma steady_query: "steady.keeps (query f)"
  by (rule steady.keepsI) (simp add: query_def)

lemma steady_world: "steady.keeps (from_world f)"
  by (rule steady.keepsI) (simp add: from_world_def split: prod.splits)

lemma steady_lift: "steady.keeps (lift_result r)"
  by (rule steady.keepsI) (simp add: lift_result_def)

lemmas steady_parts = steady.keeps_rules steady_store steady_query steady_world steady_lift

lemma steady_stores:
  "steady.keeps (start_run env t a n b c r)" "steady.keeps (record_step env rid i sr)"
  "steady.keeps (finish_run env rid st out err)" "steady.keeps (record_audit env aa)"
  "steady.keeps (record_cost env pt ca)"
  unfolding start_run_def record_step_def finish_run_def get_existing_run_def record_cost_def
    record_audit_def Let_def
  by (intro steady_parts)+

interpretation steady_run: run_effects "\<lambda>s s'. committed s' = committed s" env rt ctx
  by unfold_locales (simp_all add: steady_stores steady.keepsR route_db)

lemma tools_contained_keep:
  assumes "tools_contained ag"
  shows "ledger_run.tools_keep ag" "steady_run.tools_keep ag"
  using assms by (simp_all add: tools_contained_def ledger_run.tools_keep_def steady_run.tools_keep_def)

lemma contained_run:
  assumes "tools_contained ag"
  shows "ledgers.keeps (run env ag t name sys usr c policy)"
    and "steady.keeps (run env ag t name sys usr c policy)"
  using ledger_run.keeps_run [OF refl tools_contained_keep(1) [OF assms]]
    steady_run.keeps_run [OF refl tools_contained_keep(2) [OF assms]] by blast+

end
