(* ===== verification/Runtime_Bounds.thy ===== *)
theory Runtime_Bounds
  imports Runtime_Results
begin

text \<open>
  How much a run may do: at most \<open>max_steps\<close> turns, each with one call of the router, which
  asks candidates in their order.
\<close>

section \<open>Turns\<close>

text \<open>At most \<open>n\<close> batches of provider calls, each a part of the candidates in their order.\<close>

definition batches :: "string list \<Rightarrow> nat \<Rightarrow> ('w, 'b) gateway_scheme \<Rightarrow> ('w, 'b) gateway_scheme \<Rightarrow> bool" where
  "batches cs n s s' \<longleftrightarrow> (\<exists>bs. called (obs s') = called (obs s) @ concat bs \<and> length bs \<le> n \<and>
     (\<forall>b \<in> set bs. subseq b cs))"

lemma batches_trans: "batches cs m a b \<Longrightarrow> batches cs n b c \<Longrightarrow> batches cs (m + n) a c"
  unfolding batches_def
  by (elim exE conjE, rule_tac x = "bs @ bsa" in exI) auto

lemma batches_mono: "batches cs m a b \<Longrightarrow> m \<le> n \<Longrightarrow> batches cs n a b"
  unfolding batches_def by (meson order_trans)

lemma batches_0: "batches cs 0 s s' \<longleftrightarrow> called (obs s') = called (obs s)"
  by (auto simp: batches_def)

lemma asks_nobody: "asks.keeps {} m \<Longrightarrow> called (obs (snd (m s))) = called (obs s)"
  unfolding asks.keeps_def asked_def by auto

interpretation idle: step_effects "batches cs 0" env
  by unfold_locales (simp_all add: batches_0 asks_nobody asks_stores)

lemma batches_bind:
  assumes "batches cs m s (snd (f s))" and "\<And>x s1. f s = (Inr x, s1) \<Longrightarrow> batches cs n s1 (snd (g x s1))"
  shows "batches cs (m + n) s (snd (bind_e f g s))"
proof -
  obtain r s1 where f: "f s = (r, s1)" by fastforce
  show ?thesis
  proof (cases r)
    case (Inl e)
    then show ?thesis using f assms(1) batches_mono [of cs m s s1 "m + n"] by (simp add: bind_e_def)
  next
    case (Inr x)
    then show ?thesis using f assms(1) assms(2) [of x s1] by (auto simp: bind_e_def intro: batches_trans)
  qed
qed

lemma batches_then:
  assumes "idle.keeps cs f" and "\<And>x s1. batches cs n s1 (snd (g x s1))"
  shows "batches cs n s (snd (bind_e f g s))"
  using batches_bind [of cs 0 s f n g] assms by (simp add: idle.keeps_def)

lemma batches_idle: "idle.keeps cs f \<Longrightarrow> batches cs n s (snd (f s))"
  by (rule batches_mono [of cs 0]) (auto simp: idle.keeps_def)

lemma batches_route:
  "batches (route_candidates (rt_policy rt) ctx) 1 s (snd (route env rt rq ctx s))"
proof -
  let ?c = "route_candidates (rt_policy rt) ctx"
  obtain cs where "subseq cs ?c"
      "called (obs (snd (route_loop env rt rq ?c ?c s))) = called (obs s) @ cs"
    using route_loop_log [of ?c env rt rq ?c s] by blast
  then show ?thesis
    by (auto simp: route_def batches_def Let_def intro: exI [of _ "[]"] exI [of _ "[cs]"])
qed

lemma contained_idle: "tools_contained ag \<Longrightarrow> idle.tools_keep cs ag"
  by (simp add: tools_contained_def idle.tools_keep_def batches_0)

lemma batches_turn:
  fixes ag :: "('w, ('w, 'b) gw_state_scheme) runtime"
  assumes "tools_contained ag"
  shows "batches (route_candidates (rt_policy (ag_router ag)) ctx) 1 s
    (snd (agent_turn env ag t rid ctx policy i messages tin tout s))"
  unfolding agent_turn_def
proof (rule batches_then [OF idle.keeps_world])
  fix started and s1 :: "('w, 'b) gw_state_scheme"
  let ?cs = "route_candidates (rt_policy (ag_router ag)) ctx"
  let ?m = "catch_e (route env (ag_router ag) (make_request ag t rid messages) ctx)"
  have "batches ?cs 1 s1 (snd (?m s1))"
    using batches_route [of "ag_router ag" ctx s1 env "make_request ag t rid messages"]
    by (cases "route env (ag_router ag) (make_request ag t rid messages) ctx s1") (simp add: catch_e_def)
  then have "batches ?cs (1 + 0) s1 (snd (bind_e ?m (\<lambda>r. case r of
        Inl e \<Rightarrow> turn_failed env rid i messages started e tin tout
      | Inr resp \<Rightarrow> turn_answered env ag t rid policy i messages started resp
          (tin + input_tokens (resp_usage resp)) (tout + output_tokens (resp_usage resp))) s1))"
    by (rule batches_bind)
       (auto intro!: batches_idle idle.keeps_failed idle.keeps_answered contained_idle assms split: sum.split)
  then show "batches ?cs 1 s1 (snd (bind_e ?m (\<lambda>r. case r of
        Inl e \<Rightarrow> turn_failed env rid i messages started e tin tout
      | Inr resp \<Rightarrow> turn_answered env ag t rid policy i messages started resp
          (tin + input_tokens (resp_usage resp)) (tout + output_tokens (resp_usage resp))) s1))"
    by simp
qed

lemma batches_loop:
  assumes "tools_contained ag"
  shows "batches (route_candidates (rt_policy (ag_router ag)) ctx) n s
    (snd (agent_loop env ag t rid ctx policy n i messages tin tout s))"
proof (induction n arbitrary: i messages tin tout s)
  case 0
  show ?case by (simp add: batches_idle idle.keeps_small)
next
  case (Suc n)
  let ?cs = "route_candidates (rt_policy (ag_router ag)) ctx"
  have "batches ?cs (1 + n) s (snd (agent_loop env ag t rid ctx policy (Suc n) i messages tin tout s))"
    unfolding agent_loop.simps
    by (rule batches_bind [OF batches_turn [OF assms]])
       (auto intro: Suc.IH batches_idle idle.keeps_ret split: turn_outcome.split)
  then show ?case by simp
qed

text \<open>
  C18. A run is bounded, whatever the providers answer and whatever it is asked: the providers are
  called in at most \<open>max_steps\<close> batches, each of which is a part of the policy's candidates in
  their order; there are no more calls than steps times candidates, and with a positive limit on
  attempts no more than steps times attempts. With the shipped policy a run on confidential or
  restricted data calls the local provider only.
\<close>

theorem run_bounded:
  assumes "tools_contained ag"
  shows "\<exists>bs. called (obs (snd (run env ag tenant name sys usr ctx policy s))) = called (obs s) @ concat bs \<and>
    length bs \<le> nat (ac_max_steps (ag_config ag)) \<and>
    (\<forall>b \<in> set bs. subseq b (route_candidates (rt_policy (ag_router ag)) ctx)) \<and>
    length (concat bs) \<le> nat (ac_max_steps (ag_config ag)) *
      length (route_candidates (rt_policy (ag_router ag)) ctx) \<and>
    (0 < fo_max_attempts (rp_failover (rt_policy (ag_router ag))) \<longrightarrow>
      int (length (concat bs)) \<le> int (nat (ac_max_steps (ag_config ag))) *
        fo_max_attempts (rp_failover (rt_policy (ag_router ag)))) \<and>
    (rt_policy (ag_router ag) = routing_yaml \<and> ctx_data_classification ctx \<in> {''confidential'', ''restricted''} \<longrightarrow>
      set (concat bs) \<subseteq> {''local''})"
proof -
  let ?pol = "rt_policy (ag_router ag)"
  let ?cs = "route_candidates ?pol ctx" and ?n = "nat (ac_max_steps (ag_config ag))"
  let ?a = "fo_max_attempts (rp_failover ?pol)"
  have loop: "batches ?cs ?n s1 (snd (start_loop env ag tenant rid ctx policy sys msg s1))" for rid msg s1
    unfolding start_loop_def by (rule batches_loop [OF assms])
  have "batches ?cs ?n s (snd (run env ag tenant name sys usr ctx policy s))"
  proof (cases "ag_guardrails ag")
    case None
    then show ?thesis
      unfolding run_def by (auto intro: batches_then idle.keeps_stores loop)
  next
    case (Some ps)
    then show ?thesis
      unfolding run_def
      by (auto intro!: batches_then [OF idle.keeps_stores(1)] batches_then [OF idle.keeps_lift]
          batches_then [OF idle.keeps_small(2)] batches_idle [OF idle.keeps_small(3)] loop)
  qed
  then obtain bs where bs: "called (obs (snd (run env ag tenant name sys usr ctx policy s))) =
      called (obs s) @ concat bs" "length bs \<le> ?n" "\<forall>b \<in> set bs. subseq b ?cs"
    unfolding batches_def by blast
  have "length (concat bs) \<le> length bs * length ?cs"
    using bs(3) by (induction bs) (auto dest: list_emb_length)
  also have "\<dots> \<le> ?n * length ?cs" using bs(2) by simp
  finally have n: "length (concat bs) \<le> ?n * length ?cs" .
  have "int (length (concat bs)) \<le> int ?n * ?a" if "0 < ?a"
  proof -
    have "length ?cs \<le> nat ?a" using that by (simp add: route_candidates_def slice_to_def)
    then have "length (concat bs) \<le> ?n * nat ?a" using n by (meson mult_le_mono2 order_trans)
    then show ?thesis using that by (metis int_nat_eq less_imp_le of_nat_le_iff of_nat_mult)
  qed
  moreover have "set (concat bs) \<subseteq> set ?cs" using bs(3) by (fastforce dest: subseq_set)
  then have "set (concat bs) \<subseteq> {''local''}" if "?pol = routing_yaml"
      "ctx_data_classification ctx \<in> {''confidential'', ''restricted''}"
    using that by (auto simp: route_candidates_def candidates_for_def routing_yaml_def matches_def
        context_dump_def slice_to_def)
  ultimately show ?thesis using bs n by blast
qed

theorem run_bounded_witness:
  "length (called (obs (snd (run counter_env demo_agent ''acme'' ''default'' ''be brief'' ''hi''
     (demo_ctx ''internal'') None start_state)))) \<le> 24"
proof -
  have "obs start_state = []" and "ac_max_steps (ag_config demo_agent) = 8"
    and "length (route_candidates (rt_policy (ag_router demo_agent)) (demo_ctx ''internal'')) \<le> 3"
    by (simp_all add: start_state_def demo_agent_def default_config_def route_candidates_def slice_to_def
        routing_yaml_def)
  with run_bounded [OF demo_tools, of counter_env "''acme''" "''default''" "''be brief''"
      "''hi''" "demo_ctx ''internal''" None start_state]
  show ?thesis by (auto simp: called_def)
qed

end
