(* ===== verification/Calculator.thy ===== *)
theory Calculator
  imports Json
begin

text \<open>
  The calculator tool, \<open>agent/tools/calculator.py\<close>: the walk over the syntax tree of an
  expression that computes with an allowlist of operators and functions. Python's parser
  (\<open>ast.parse\<close>) gives the tree and is a parameter. Integer arithmetic is exact here, as in
  Python; what involves a float is a parameter (\<open>num_ops\<close>), whose values are the type
  \<open>'f\<close> of all numbers that are not integers.
\<close>

section \<open>Syntax trees\<close>

datatype 'f num = PyInt int | PyFloat 'f

text \<open>The value of an \<open>ast.Constant\<close>: a number, a boolean, or anything else.\<close>

datatype 'f py_constant = Number "'f num" | Boolean bool | OtherConstant

datatype binary_op = Add | Sub | Mult | Div | FloorDiv | Mod | Pow | OtherBinary string
datatype unary_op = UAdd | USub | OtherUnary string

text \<open>
  A node of the tree. A call has its function, its positional arguments and whether it has
  keyword arguments; \<open>OtherNode\<close> is any node of another class, with the name of the class.
\<close>

datatype 'f py_expr =
    Constant "'f py_constant"
  | BinOp "'f py_expr" binary_op "'f py_expr"
  | UnaryOp unary_op "'f py_expr"
  | Call "'f py_expr" "'f py_expr list" bool
  | Name string
  | OtherNode string

section \<open>Arithmetic\<close>

text \<open>
  What Python computes where a float is involved, and where a function of the allowlist is
  applied to arguments not covered below. Each may raise.
\<close>

record 'f num_ops =
  float_binop :: "binary_op \<Rightarrow> 'f num \<Rightarrow> 'f num \<Rightarrow> 'f num result"
  float_unop :: "unary_op \<Rightarrow> 'f \<Rightarrow> 'f num result"
  call_builtin :: "string \<Rightarrow> 'f num list \<Rightarrow> 'f num result"

text \<open>\<open>_BINOPS[type(op)](x, y)\<close>: on integers all but true division and negative powers are exact.\<close>

fun apply_binop :: "'f num_ops \<Rightarrow> binary_op \<Rightarrow> 'f num \<Rightarrow> 'f num \<Rightarrow> 'f num result" where
  "apply_binop ops Add (PyInt x) (PyInt y) = Inr (PyInt (x + y))"
| "apply_binop ops Sub (PyInt x) (PyInt y) = Inr (PyInt (x - y))"
| "apply_binop ops Mult (PyInt x) (PyInt y) = Inr (PyInt (x * y))"
| "apply_binop ops FloorDiv (PyInt x) (PyInt y) =
     (if y = 0 then Inl (OtherError ''integer division or modulo by zero'') else Inr (PyInt (x div y)))"
| "apply_binop ops Mod (PyInt x) (PyInt y) =
     (if y = 0 then Inl (OtherError ''integer modulo by zero'') else Inr (PyInt (x mod y)))"
| "apply_binop ops Pow (PyInt x) (PyInt y) =
     (if 0 \<le> y then Inr (PyInt (x ^ nat y)) else float_binop ops Pow (PyInt x) (PyInt y))"
| "apply_binop ops op x y = float_binop ops op x y"

fun apply_unop :: "'f num_ops \<Rightarrow> unary_op \<Rightarrow> 'f num \<Rightarrow> 'f num result" where
  "apply_unop ops UAdd (PyInt x) = Inr (PyInt x)"
| "apply_unop ops USub (PyInt x) = Inr (PyInt (- x))"
| "apply_unop ops op (PyInt x) = Inr (PyInt x)"
| "apply_unop ops op (PyFloat x) = float_unop ops op x"

text \<open>The keys of \<open>_BINOPS\<close>, \<open>_UNARYOPS\<close> and \<open>_FUNCS\<close>.\<close>

definition in_binops :: "binary_op \<Rightarrow> bool" where
  "in_binops op = (case op of OtherBinary _ \<Rightarrow> False | _ \<Rightarrow> True)"

definition in_unaryops :: "unary_op \<Rightarrow> bool" where
  "in_unaryops op = (case op of OtherUnary _ \<Rightarrow> False | _ \<Rightarrow> True)"

definition funcs :: "string list" where
  "funcs = [''sqrt'', ''abs'', ''round'', ''min'', ''max'', ''pow'', ''log'', ''log10'', ''floor'', ''ceil'']"

fun int_args :: "'f num list \<Rightarrow> int list option" where
  "int_args [] = Some []"
| "int_args (PyInt x # ns) = map_option ((#) x) (int_args ns)"
| "int_args (PyFloat x # ns) = None"

text \<open>\<open>_FUNCS[name](*args)\<close>: exact on integers where the builtin is.\<close>

definition apply_func :: "'f num_ops \<Rightarrow> string \<Rightarrow> 'f num list \<Rightarrow> 'f num result" where
  "apply_func ops name args =
     (case int_args args of
        Some [x] \<Rightarrow>
          if name = ''abs'' then Inr (PyInt \<bar>x\<bar>)
          else if name = ''round'' \<or> name = ''floor'' \<or> name = ''ceil'' then Inr (PyInt x)
          else call_builtin ops name args
      | Some [x, y] \<Rightarrow>
          if name = ''min'' then Inr (PyInt (min x y))
          else if name = ''max'' then Inr (PyInt (max x y))
          else if name = ''pow'' \<and> 0 \<le> y then Inr (PyInt (x ^ nat y))
          else call_builtin ops name args
      | _ \<Rightarrow> call_builtin ops name args)"

section \<open>The walk\<close>

text \<open>\<open>type(node).__name__\<close>, and \<open>getattr(node.func, "id", "<unknown>")\<close>.\<close>

fun class_name :: "'f py_expr \<Rightarrow> string" where
  "class_name (Constant c) = ''Constant''"
| "class_name (BinOp l op r) = ''BinOp''"
| "class_name (UnaryOp op e) = ''UnaryOp''"
| "class_name (Call f args kw) = ''Call''"
| "class_name (Name x) = ''Name''"
| "class_name (OtherNode c) = c"

fun func_name :: "'f py_expr \<Rightarrow> string option" where
  "func_name (Name x) = Some x"
| "func_name e = None"

definition disallowed :: "'f py_expr \<Rightarrow> 'f num result" where
  "disallowed node = Inl (ToolExecutionError (''disallowed expression element: '' @ class_name node))"

fun eval_node :: "'f num_ops \<Rightarrow> 'f py_expr \<Rightarrow> 'f num result"
  and eval_args :: "'f num_ops \<Rightarrow> 'f py_expr list \<Rightarrow> 'f num list result" where
  "eval_node ops (Constant c) =
     (case c of
        Number v \<Rightarrow> Inr v
      | _ \<Rightarrow> Inl (ToolExecutionError ''only numeric constants are allowed''))"
| "eval_node ops (BinOp l op r) =
     (if in_binops op then
        (case eval_node ops l of
           Inl e \<Rightarrow> Inl e
         | Inr x \<Rightarrow> (case eval_node ops r of Inl e \<Rightarrow> Inl e | Inr y \<Rightarrow> apply_binop ops op x y))
      else disallowed (BinOp l op r))"
| "eval_node ops (UnaryOp op e) =
     (if in_unaryops op then
        (case eval_node ops e of Inl e \<Rightarrow> Inl e | Inr x \<Rightarrow> apply_unop ops op x)
      else disallowed (UnaryOp op e))"
| "eval_node ops (Call f args keywords) =
     (case func_name f of
        None \<Rightarrow> Inl (ToolExecutionError ''function not allowed: <unknown>'')
      | Some name \<Rightarrow>
          if name \<notin> set funcs then Inl (ToolExecutionError (''function not allowed: '' @ name))
          else if keywords then Inl (ToolExecutionError ''keyword arguments are not allowed'')
          else (case eval_args ops args of Inl e \<Rightarrow> Inl e | Inr vs \<Rightarrow> apply_func ops name vs))"
| "eval_node ops (Name x) = disallowed (Name x)"
| "eval_node ops (OtherNode c) = disallowed (OtherNode c)"
| "eval_args ops [] = Inr []"
| "eval_args ops (e # es) =
     (case eval_node ops e of
        Inl exc \<Rightarrow> Inl exc
      | Inr v \<Rightarrow> (case eval_args ops es of Inl exc \<Rightarrow> Inl exc | Inr vs \<Rightarrow> Inr (v # vs)))"

text \<open>How \<open>ast.parse(expression, mode="eval")\<close> ends; \<open>CalculatorTool.run\<close>.\<close>

datatype 'f parsed = Parsed "'f py_expr" | SyntaxError string | ParseRaises exn

definition run_calculator :: "'f num_ops \<Rightarrow> (string \<Rightarrow> 'f parsed) \<Rightarrow> string \<Rightarrow> 'f num result" where
  "run_calculator ops parse expression =
     (case parse expression of
        SyntaxError m \<Rightarrow> Inl (ToolExecutionError (''invalid expression syntax: '' @ m))
      | ParseRaises e \<Rightarrow> Inl e
      | Parsed body \<Rightarrow> eval_node ops body)"

section \<open>What the walk lets through\<close>

text \<open>The expressions the tool is meant to compute.\<close>

inductive allowed :: "'f py_expr \<Rightarrow> bool" where
  number: "allowed (Constant (Number v))"
| binop: "in_binops op \<Longrightarrow> allowed l \<Longrightarrow> allowed r \<Longrightarrow> allowed (BinOp l op r)"
| unop: "in_unaryops op \<Longrightarrow> allowed e \<Longrightarrow> allowed (UnaryOp op e)"
| func: "name \<in> set funcs \<Longrightarrow> (\<forall>a \<in> set args. allowed a) \<Longrightarrow> allowed (Call (Name name) args False)"


inductive_simps allowed_simps [simp]:
  "allowed (Constant c)" "allowed (BinOp l op r)" "allowed (UnaryOp op e)"
  "allowed (Call f args kw)" "allowed (Name x)" "allowed (OtherNode c)"

definition is_tool_exn :: "exn \<Rightarrow> bool" where
  "is_tool_exn e = (case e of ToolExecutionError m \<Rightarrow> True | _ \<Rightarrow> False)"

text \<open>The arithmetic itself never raises the tool's own error class.\<close>

definition plain_ops :: "'f num_ops \<Rightarrow> bool" where
  "plain_ops ops \<longleftrightarrow>
     (\<forall>op x y e. float_binop ops op x y = Inl e \<longrightarrow> \<not> is_tool_exn e) \<and>
     (\<forall>op x e. float_unop ops op x = Inl e \<longrightarrow> \<not> is_tool_exn e) \<and>
     (\<forall>f xs e. call_builtin ops f xs = Inl e \<longrightarrow> \<not> is_tool_exn e)"

lemma func_name_Some: "func_name f = Some name \<longleftrightarrow> f = Name name"
  by (cases f) auto

lemma eval_allowed:
  "eval_node ops e = Inr v \<Longrightarrow> allowed e"
  "eval_args ops es = Inr vs \<Longrightarrow> \<forall>a \<in> set es. allowed a"
  by (induction ops e and ops es arbitrary: v and vs rule: eval_node_eval_args.induct)
    (auto simp: disallowed_def func_name_Some split: py_constant.splits sum.splits option.splits if_splits)

lemma apply_binop_plain: "plain_ops ops \<Longrightarrow> apply_binop ops op x y = Inl e \<Longrightarrow> \<not> is_tool_exn e"
  by (cases "(ops, op, x, y)" rule: apply_binop.cases)
    (auto simp: plain_ops_def is_tool_exn_def split: if_splits)

lemma apply_unop_plain: "plain_ops ops \<Longrightarrow> apply_unop ops op x = Inl e \<Longrightarrow> \<not> is_tool_exn e"
  by (cases "(ops, op, x)" rule: apply_unop.cases) (auto simp: plain_ops_def)

lemma apply_func_plain: "plain_ops ops \<Longrightarrow> apply_func ops f xs = Inl e \<Longrightarrow> \<not> is_tool_exn e"
  by (auto simp: apply_func_def plain_ops_def split: option.splits list.splits if_splits)

lemma eval_plain:
  "plain_ops ops \<Longrightarrow> allowed e \<Longrightarrow> eval_node ops e = Inl x \<Longrightarrow> \<not> is_tool_exn x"
  "plain_ops ops \<Longrightarrow> (\<forall>a \<in> set es. allowed a) \<Longrightarrow> eval_args ops es = Inl x \<Longrightarrow> \<not> is_tool_exn x"
  by (induction ops e and ops es arbitrary: x and x rule: eval_node_eval_args.induct)
    (auto dest: apply_binop_plain apply_unop_plain apply_func_plain
      split: py_constant.splits sum.splits option.splits if_splits)

text \<open>
  C30. The calculator computes nothing but arithmetic: whatever the parser makes of a text and
  whatever the numbers are, a value comes back only from a tree of numbers, the seven binary
  and two unary operators and the ten functions, with no name, attribute, keyword argument or
  other construct in it; and for such a tree every error is an arithmetic one, never a refusal.
\<close>

theorem calculator_allowlist:
  "case run_calculator ops parse expression of
     Inr v \<Rightarrow> \<exists>body. parse expression = Parsed body \<and> allowed body
   | Inl e \<Rightarrow> (case parse expression of
        Parsed body \<Rightarrow> if allowed body \<and> plain_ops ops then \<not> is_tool_exn e else True
      | _ \<Rightarrow> True)"
  by (auto simp: run_calculator_def dest: eval_allowed eval_plain split: sum.splits parsed.splits)

section \<open>Integer expressions\<close>

text \<open>Sums, differences and products of integers, and the value they have.\<close>

fun ring_value :: "'f py_expr \<Rightarrow> int option" where
  "ring_value (Constant (Number (PyInt n))) = Some n"
| "ring_value (BinOp l Add r) =
     (case ring_value l of None \<Rightarrow> None | Some x \<Rightarrow> map_option ((+) x) (ring_value r))"
| "ring_value (BinOp l Sub r) =
     (case ring_value l of None \<Rightarrow> None | Some x \<Rightarrow> map_option ((-) x) (ring_value r))"
| "ring_value (BinOp l Mult r) =
     (case ring_value l of None \<Rightarrow> None | Some x \<Rightarrow> map_option ((*) x) (ring_value r))"
| "ring_value (UnaryOp USub e) = map_option uminus (ring_value e)"
| "ring_value _ = None"

lemma eval_ring: "ring_value e = Some n \<Longrightarrow> eval_node ops e = Inr (PyInt n)"
  by (induction e arbitrary: n rule: ring_value.induct)
    (auto simp: in_binops_def in_unaryops_def split: option.splits)

text \<open>
  Floor division and remainder of the calculator satisfy the division identity with a
  remainder of the divisor's sign, and no integer operation is rounded: the value of a
  polynomial expression is the mathematical one, of any size.
\<close>

theorem calculator_integers_exact:
  "(case ring_value e of None \<Rightarrow> True | Some n \<Rightarrow> eval_node ops e = Inr (PyInt n)) \<and>
   (case (apply_binop ops FloorDiv (PyInt x) (PyInt y), apply_binop ops Mod (PyInt x) (PyInt y)) of
      (Inr q, Inr r) \<Rightarrow> (\<exists>q' r'. q = PyInt q' \<and> r = PyInt r' \<and> x = q' * y + r' \<and> \<bar>r'\<bar> < \<bar>y\<bar> \<and>
        (r' = 0 \<or> sgn r' = sgn y))
    | (Inl _, Inl _) \<Rightarrow> y = 0
    | _ \<Rightarrow> False)"
proof -
  consider "y = 0" | "0 < y" "0 \<le> x mod y" "x mod y < y" | "y < 0" "y < x mod y" "x mod y \<le> 0"
    by (cases y "0 :: int" rule: linorder_cases) (auto simp: neg_mod_bound neg_mod_sign)
  then have "y = 0 \<or> \<bar>x mod y\<bar> < \<bar>y\<bar> \<and> (x mod y = 0 \<or> sgn (x mod y) = sgn y)"
    by cases (auto simp: sgn_if)
  then show ?thesis by (auto simp: eval_ring split: option.splits)
qed

end
