(* ===== verification/Sql_Tool.thy ===== *)
theory Sql_Tool
  imports Screening Json
begin

text \<open>
  The read-only SQL tool, \<open>agent/tools/sql_readonly.py\<close>: the textual checks on the query, the
  statement it is wrapped into, and the run on the session. The two regular expressions run on
  the matcher of theory \<open>Regex\<close>; executing the statement is the database's and a parameter.
\<close>

section \<open>The checks\<close>

definition forbidden_words :: "string list" where
  "forbidden_words = [''INSERT'', ''UPDATE'', ''DELETE'', ''DROP'', ''ALTER'', ''TRUNCATE'', ''GRANT'',
     ''REVOKE'', ''CREATE'', ''EXEC'', ''EXECUTE'', ''CALL'', ''MERGE'', ''COPY'', ''VACUUM'']"

text \<open>A word of a list in any case, between word boundaries.\<close>

definition forbidden_keywords :: rx where
  "forbidden_keywords = seqs [Boundary, alts (map lit_i forbidden_words), Boundary]"

definition leading_select_or_cte :: rx where
  "leading_select_or_cte =
     seqs [many (Class is_space), alts (map lit_i [''SELECT'', ''WITH'']), Boundary]"

definition sql_validate :: "string \<Rightarrow> string result" where
  "sql_validate query =
     (let stripped = rstrip_char CHR '';'' (py_strip query)
      in if CHR '';'' \<in> set stripped
         then Inl (ToolExecutionError ''multiple statements are not allowed'')
         else if match_at leading_select_or_cte (Pos [] stripped) = None
         then Inl (ToolExecutionError ''only SELECT (or read-only WITH) statements are allowed'')
         else if search forbidden_keywords stripped \<noteq> None
         then Inl (ToolExecutionError ''query contains a forbidden keyword'')
         else Inr stripped)"

section \<open>The run\<close>

definition max_rows :: int where "max_rows = 100"

definition wrapped_query :: "string \<Rightarrow> string" where
  "wrapped_query query =
     ''SELECT * FROM ('' @ query @ '') AS aegis_sql_tool_subquery LIMIT :row_limit''"

text \<open>
  How executing a statement with the value of \<open>:row_limit\<close> ends: the rows, an \<open>Exception\<close>, or
  the cancellation by the time limit, which is not one.
\<close>

datatype sql_outcome = Rows "jdict list" | SqlError string | SqlCancelled exn

definition run_sql :: "(string \<Rightarrow> int \<Rightarrow> 's \<Rightarrow> sql_outcome \<times> 's) \<Rightarrow> string \<Rightarrow> ('s, json) eff" where
  "run_sql execute query s =
     (case sql_validate query of
        Inl e \<Rightarrow> (Inl e, s)
      | Inr q \<Rightarrow>
          (case execute (wrapped_query q) max_rows s of
             (Rows rows, s') \<Rightarrow> (Inr (JList (map JObj rows)), s')
           | (SqlError m, s') \<Rightarrow> (Inl (ToolExecutionError (''query execution failed: '' @ m)), s')
           | (SqlCancelled e, s') \<Rightarrow> (Inl e, s')))"

section \<open>What the patterns mean\<close>

lemma rx_match_lit_i_iff:
  "rx_match (lit_i w) p q \<longleftrightarrow>
     (\<exists>u. ahead p = u @ ahead q \<and> behind q = rev u @ behind p \<and> map ascii_lower u = map ascii_lower w)"
proof
  show "rx_match (lit_i w) p q \<Longrightarrow>
    \<exists>u. ahead p = u @ ahead q \<and> behind q = rev u @ behind p \<and> map ascii_lower u = map ascii_lower w"
  proof (induction w arbitrary: p)
    case Nil
    then show ?case by (simp add: lit_i.simps)
  next
    case (Cons c w)
    then obtain t where t: "rx_match (chr_i c) p t" "rx_match (lit_i w) t q"
      by (auto simp: rx_match_lit_i_Cons)
    from Cons.IH [OF t(2)] obtain u where u: "ahead t = u @ ahead q" "behind q = rev u @ behind t"
        "map ascii_lower u = map ascii_lower w" by blast
    from t(1) obtain d where d: "ahead p = d # ahead t" "behind t = d # behind p"
        "ascii_lower d = ascii_lower c" by (auto simp: rx_match_chr_i)
    show ?case by (intro exI [of _ "d # u"]) (simp add: u d)
  qed
next
  assume "\<exists>u. ahead p = u @ ahead q \<and> behind q = rev u @ behind p \<and>
    map ascii_lower u = map ascii_lower w"
  then obtain u where u: "ahead p = u @ ahead q" "behind q = rev u @ behind p"
      "map ascii_lower u = map ascii_lower w" by blast
  from rx_match_lit_i [OF u(3), of "behind p" "ahead q"] u show "rx_match (lit_i w) p q"
    by (cases p; cases q) simp
qed

lemma rx_match_alts: "rx_match (alts rs) p q \<longleftrightarrow> (\<exists>r \<in> set rs. rx_match r p q)"
  by (induction rs rule: alts.induct) auto

text \<open>A text has one of the words, in any case, and no word character next to it.\<close>

definition ends_word :: "string \<Rightarrow> bool" where
  "ends_word rest = (case rest of [] \<Rightarrow> True | c # _ \<Rightarrow> \<not> is_word c)"

definition same_text :: "string \<Rightarrow> string \<Rightarrow> bool" where
  "same_text u w \<longleftrightarrow> map ascii_lower u = map ascii_lower w"

definition has_word :: "string list \<Rightarrow> string \<Rightarrow> bool" where
  "has_word ws text \<longleftrightarrow> (\<exists>a u b. text = a @ u @ b \<and> (\<exists>w \<in> set ws. same_text u w) \<and>
     ends_word (rev a) \<and> ends_word b)"

definition starts_word :: "string list \<Rightarrow> string \<Rightarrow> bool" where
  "starts_word ws text \<longleftrightarrow> (\<exists>u b. text = u @ b \<and> (\<exists>w \<in> set ws. same_text u w) \<and> ends_word b)"

definition word_like :: "string \<Rightarrow> bool" where
  "word_like w \<longleftrightarrow> w \<noteq> [] \<and> list_all is_ascii_alnum w"

lemma is_word_lower: "is_ascii_alnum (ascii_lower c) \<Longrightarrow> is_word c"
proof -
  have "is_ascii_alnum c" if "is_ascii_alnum (ascii_lower c)"
    using that by (auto simp: ascii_lower_def is_ascii_alnum_def split: if_splits)
  then show "is_ascii_alnum (ascii_lower c) \<Longrightarrow> is_word c" by (simp add: is_word_def)
qed

lemma alnum_lower: "is_ascii_alnum c \<Longrightarrow> is_ascii_alnum (ascii_lower c)"
  by (auto simp: ascii_lower_def is_ascii_alnum_def is_upper_def is_lower_def is_digit_def code_def)

lemma same_text_words:
  assumes "same_text u w" "word_like w"
  shows "u \<noteq> []" and "\<forall>c \<in> set u. is_word c"
proof -
  show "u \<noteq> []" using assms by (auto simp: same_text_def word_like_def)
  have "list_all is_ascii_alnum (map ascii_lower w)"
    using assms(2) by (auto simp: word_like_def list_all_iff alnum_lower)
  then have "list_all is_ascii_alnum (map ascii_lower u)" using assms(1) by (simp add: same_text_def)
  then show "\<forall>c \<in> set u. is_word c" by (auto simp: list_all_iff is_word_lower)
qed

lemma boundary_before: "is_word c \<Longrightarrow> at_boundary (Pos pre (c # cs)) \<longleftrightarrow> ends_word pre"
  by (auto simp: at_boundary_def ends_word_def split: list.splits)

lemma boundary_after: "is_word c \<Longrightarrow> at_boundary (Pos (c # pre) rest) \<longleftrightarrow> ends_word rest"
  by (auto simp: at_boundary_def ends_word_def split: list.splits)

lemma boundary_word:
  assumes "same_text u w" "word_like w"
  shows "at_boundary (Pos pre (u @ b)) \<longleftrightarrow> ends_word pre"
    and "at_boundary (Pos (rev u @ pre) b) \<longleftrightarrow> ends_word b"
proof -
  note u = same_text_words [OF assms]
  from u obtain c cs where "u = c # cs" by (cases u) auto
  with u show "at_boundary (Pos pre (u @ b)) \<longleftrightarrow> ends_word pre" by (simp add: boundary_before)
  from u obtain cs c where "u = cs @ [c]" by (cases u rule: rev_cases) auto
  with u show "at_boundary (Pos (rev u @ pre) b) \<longleftrightarrow> ends_word b" by (simp add: boundary_after)
qed

lemma has_word_iff:
  assumes "list_all word_like ws"
  shows "occurs (seqs [Boundary, alts (map lit_i ws), Boundary]) text \<longleftrightarrow> has_word ws text"
proof
  assume "occurs (seqs [Boundary, alts (map lit_i ws), Boundary]) text"
  then obtain p q w where pq: "rev (behind p) @ ahead p = text" "at_boundary p" "w \<in> set ws"
      "rx_match (lit_i w) p q" "at_boundary q"
    by (auto simp: occurs_def rx_match_alts)
  from pq(4) obtain u where u: "ahead p = u @ ahead q" "behind q = rev u @ behind p" "same_text u w"
    by (auto simp: rx_match_lit_i_iff same_text_def)
  have w: "word_like w" using assms pq(3) by (auto simp: list_all_iff)
  have "p = Pos (behind p) (u @ ahead q)" "q = Pos (rev u @ behind p) (ahead q)"
    using u by (auto intro: pos.expand)
  then have "ends_word (behind p)" "ends_word (ahead q)"
    using pq(2,5) boundary_word [OF u(3) w] by metis+
  then show "has_word ws text"
    unfolding has_word_def using pq(1,3) u
    by (intro exI [of _ "rev (behind p)"] exI [of _ u] exI [of _ "ahead q"]) auto
next
  assume "has_word ws text"
  then obtain a u b w where t: "text = a @ u @ b" "w \<in> set ws" "same_text u w"
      "ends_word (rev a)" "ends_word b" by (auto simp: has_word_def)
  have w: "word_like w" using assms t(2) by (auto simp: list_all_iff)
  have "rx_match (lit_i w) (Pos (rev a) (u @ b)) (Pos (rev u @ rev a) b)"
    using t(3) by (intro rx_match_lit_i) (simp add: same_text_def)
  then have "rx_match (seqs [Boundary, alts (map lit_i ws), Boundary])
      (Pos (rev a) (u @ b)) (Pos (rev u @ rev a) b)"
    using t boundary_word [OF t(3) w] by (auto simp: rx_match_alts)
  from occursI [OF this] show "occurs (seqs [Boundary, alts (map lit_i ws), Boundary]) text"
    by (simp add: t(1))
qed

lemma forbidden_iff: "search forbidden_keywords text \<noteq> None \<longleftrightarrow> has_word forbidden_words text"
  unfolding forbidden_keywords_def search_occurs
  by (rule has_word_iff) (simp add: forbidden_words_def word_like_def is_ascii_alnum_def is_upper_def code_def)

text \<open>The stripped text does not start with white space.\<close>

definition no_lead :: "string \<Rightarrow> bool" where
  "no_lead s = (case s of [] \<Rightarrow> True | c # _ \<Rightarrow> \<not> is_space c)"

lemma rstrip_prefix: "\<exists>z. s = rstrip_char c s @ z"
  unfolding rstrip_char_def
  by (metis rev_append rev_rev_ident takeWhile_dropWhile_id)

lemma no_lead_prefix: "no_lead (a @ z) \<Longrightarrow> no_lead a"
  by (cases a) (auto simp: no_lead_def)

lemma no_lead_strip: "no_lead (py_strip s)"
proof -
  have "no_lead (dropWhile is_space s)"
    by (induction s) (auto simp: no_lead_def)
  moreover have "\<exists>z. dropWhile is_space s = py_strip s @ z"
    unfolding py_strip_def by (metis rev_append rev_rev_ident takeWhile_dropWhile_id)
  ultimately show ?thesis by (metis no_lead_prefix)
qed

lemma no_lead_stripped: "no_lead (rstrip_char c (py_strip s))"
  using no_lead_strip [of s] rstrip_prefix [of "py_strip s" c] by (metis no_lead_prefix)

lemma many_class_stops:
  assumes "rx_match (many (Class P)) p q" and "case ahead p of [] \<Rightarrow> True | c # _ \<Rightarrow> \<not> P c"
  shows "q = p"
proof -
  from assms(1) obtain k where k: "(rx_match (Class P) ^^ k) p q" by (auto simp: many_def)
  then show ?thesis
  proof (cases k)
    case (Suc n)
    with k obtain t where "rx_match (Class P) p t" by (blast elim: relpowp_Suc_E2)
    with assms(2) show ?thesis by auto
  qed simp
qed

lemma many_refl: "rx_match (many r) p p"
  unfolding many_def by (auto intro: exI [of _ 0])

lemma starts_word_iff:
  assumes "no_lead text"
  shows "match_at leading_select_or_cte (Pos [] text) \<noteq> None \<longleftrightarrow> starts_word [''SELECT'', ''WITH''] text"
proof -
  let ?w = "alts (map lit_i [''SELECT'', ''WITH''])"
  have lead: "rx_match (many (Class is_space)) (Pos [] text) q \<longleftrightarrow> q = Pos [] text" for q
    using assms many_class_stops [of is_space "Pos [] text" q] many_refl
    by (auto simp: no_lead_def split: list.splits)
  have word: "word_like ''SELECT''" "word_like ''WITH''"
    by (simp_all add: word_like_def is_ascii_alnum_def is_upper_def code_def)
  have split: "rx_match (lit_i w) (Pos [] text) q \<and> at_boundary q \<longleftrightarrow>
      (\<exists>u b. text = u @ b \<and> same_text u w \<and> ends_word b \<and> q = Pos (rev u) b)"
    if "word_like w" for w q
  proof
    assume l: "rx_match (lit_i w) (Pos [] text) q \<and> at_boundary q"
    then obtain u where u: "text = u @ ahead q" "behind q = rev u" "same_text u w"
      by (auto simp: rx_match_lit_i_iff same_text_def)
    then have "q = Pos (rev u) (ahead q)" by (auto intro: pos.expand)
    with l u boundary_word(2) [OF u(3) that, of "[]" "ahead q"]
    show "\<exists>u b. text = u @ b \<and> same_text u w \<and> ends_word b \<and> q = Pos (rev u) b" by auto
  next
    assume "\<exists>u b. text = u @ b \<and> same_text u w \<and> ends_word b \<and> q = Pos (rev u) b"
    then obtain u b where "text = u @ b" "same_text u w" "ends_word b" "q = Pos (rev u) b" by blast
    then show "rx_match (lit_i w) (Pos [] text) q \<and> at_boundary q"
      using boundary_word(2) [of u w "[]" b] that by (auto simp: rx_match_lit_i_iff same_text_def)
  qed
  have "match_at leading_select_or_cte (Pos [] text) \<noteq> None \<longleftrightarrow>
      (\<exists>q. (rx_match (lit_i ''SELECT'') (Pos [] text) q \<and> at_boundary q) \<or>
           (rx_match (lit_i ''WITH'') (Pos [] text) q \<and> at_boundary q))"
    by (auto simp: match_at_None leading_select_or_cte_def lead rx_match_alts)
  also have "\<dots> \<longleftrightarrow> starts_word [''SELECT'', ''WITH''] text"
    unfolding split [OF word(1)] split [OF word(2)] ex_disj_distrib by (auto simp: starts_word_def)
  finally show ?thesis .
qed

section \<open>Properties\<close>

text \<open>
  C28. The checks in words: the query, stripped of white space and trailing semicolons, is
  passed on exactly if it has no semicolon, starts with the word SELECT or WITH, and has none of
  the fifteen words anywhere, in any case and between whatever punctuation; otherwise the tool
  refuses it with the message of the first check that fails.
\<close>

theorem sql_validate_decision:
  "sql_validate sql =
     (let t = rstrip_char CHR '';'' (py_strip sql)
      in if CHR '';'' \<in> set t then Inl (ToolExecutionError ''multiple statements are not allowed'')
         else if \<not> starts_word [''SELECT'', ''WITH''] t
         then Inl (ToolExecutionError ''only SELECT (or read-only WITH) statements are allowed'')
         else if has_word forbidden_words t
         then Inl (ToolExecutionError ''query contains a forbidden keyword'')
         else Inr t)"
proof -
  let ?t = "rstrip_char CHR '';'' (py_strip sql)"
  have "match_at leading_select_or_cte (Pos [] ?t) = None \<longleftrightarrow> \<not> starts_word [''SELECT'', ''WITH''] ?t"
    using starts_word_iff [OF no_lead_stripped, of "CHR '';''" sql] by blast
  then show ?thesis by (simp only: sql_validate_def Let_def forbidden_iff)
qed

text \<open>
  The part of a one-line statement without quoted text that a database reads: a line comment
  starts at the first \<open>--\<close>.
\<close>

fun uncommented :: "string \<Rightarrow> string" where
  "uncommented (a # b # s) = (if a = CHR ''-'' \<and> b = CHR ''-'' then [] else a # uncommented (b # s))"
| "uncommented s = s"

text \<open>
  The row limit can be commented out: a query that closes the wrapping parenthesis itself
  and ends in a comment passes every check, and what the database reads of the statement then is
  the query alone, its bind parameter included, without any \<open>LIMIT\<close>.
\<close>

theorem sql_limit_bypass:
  "sql_validate ''SELECT x,:row_limit FROM y)t--'' =
     Inr ''SELECT x,:row_limit FROM y)t--'' \<and>
   uncommented (wrapped_query ''SELECT x,:row_limit FROM y)t--'') =
     ''SELECT * FROM (SELECT x,:row_limit FROM y)t''"
  by code_simp

end
