(* ===== verification/Http_Tool.thy ===== *)
theory Http_Tool
  imports Json Regex "HOL-Library.Word"
begin

unbundle bit_operations_syntax

text \<open>
  The allowlisted HTTP tool, \<open>agent/tools/http_allowlist.py\<close>, with the part of
  \<open>urllib.parse\<close> and \<open>ipaddress\<close> that it decides by: the scheme and host of a URL, and the
  ranges of private, loopback, link-local and reserved addresses (the tables of CPython 3.12).
  The resolver, the HTTP client and two checks of \<open>urlsplit\<close> on unusual hosts (bracketed
  addresses, Unicode normalisation) are parameters.
\<close>

section \<open>Text\<close>

text \<open>\<open>s.partition(c)\<close> and \<open>s.rpartition(c)\<close>: before, whether found, after.\<close>

definition partition_at :: "char \<Rightarrow> string \<Rightarrow> string \<times> bool \<times> string" where
  "partition_at c s =
     (case dropWhile ((\<noteq>) c) s of
        [] \<Rightarrow> (s, False, [])
      | _ # rest \<Rightarrow> (takeWhile ((\<noteq>) c) s, True, rest))"

definition after_last :: "char \<Rightarrow> string \<Rightarrow> string" where
  "after_last c s = rev (takeWhile ((\<noteq>) c) (rev s))"

section \<open>\<open>urlparse\<close>\<close>

text \<open>Characters up to the space are stripped from the left, tab and newlines removed.\<close>

definition clean_url :: "string \<Rightarrow> string" where
  "clean_url url = filter (\<lambda>c. c \<notin> {CHR 0x09, CHR 0x0A, CHR 0x0D}) (dropWhile (\<lambda>c. code c \<le> 32) url)"

definition scheme_char :: "char \<Rightarrow> bool" where
  "scheme_char c \<longleftrightarrow> is_ascii_alnum c \<or> c \<in> set ''+-.''"

definition split_scheme :: "string \<Rightarrow> string \<times> string" where
  "split_scheme url =
     (let (head, found, rest) = partition_at CHR '':'' url
      in if found \<and> head \<noteq> [] \<and> (is_upper (hd head) \<or> is_lower (hd head)) \<and> list_all scheme_char head
         then (map ascii_lower head, rest)
         else ([], url))"

definition split_netloc :: "string \<Rightarrow> string" where
  "split_netloc rest =
     (if take 2 rest = ''//'' then takeWhile (\<lambda>c. c \<notin> set ''/?#'') (drop 2 rest) else [])"

text \<open>\<open>result.hostname\<close>, \<open>None\<close> if there is none.\<close>

definition host_of :: "string \<Rightarrow> string option" where
  "host_of netloc =
     (let hostinfo = after_last CHR ''@'' netloc;
          (_, have_open_br, bracketed) = partition_at CHR ''['' hostinfo;
          host = (if have_open_br then fst (partition_at CHR '']'' bracketed)
                  else fst (partition_at CHR '':'' hostinfo));
          (name, found, zone) = partition_at CHR ''%'' host
      in if host = [] then None
         else Some (py_lower name @ (if found then ''%'' else []) @ zone))"

section \<open>Addresses\<close>

datatype ip = V4 "32 word" | V6 "128 word"

definition in_net :: "'a::len word \<Rightarrow> 'a word \<Rightarrow> nat \<Rightarrow> bool" where
  "in_net a net bits \<longleftrightarrow> drop_bit (LENGTH('a) - bits) a = drop_bit (LENGTH('a) - bits) net"

definition ipv4 :: "nat \<Rightarrow> nat \<Rightarrow> nat \<Rightarrow> nat \<Rightarrow> 32 word" where
  "ipv4 a b c d = word_of_nat (((a * 256 + b) * 256 + c) * 256 + d)"

definition private4 :: "(32 word \<times> nat) list" where
  "private4 = [(ipv4 0 0 0 0, 8), (ipv4 10 0 0 0, 8), (ipv4 127 0 0 0, 8), (ipv4 169 254 0 0, 16),
     (ipv4 172 16 0 0, 12), (ipv4 192 0 0 0, 24), (ipv4 192 0 0 170, 31), (ipv4 192 0 2 0, 24),
     (ipv4 192 168 0 0, 16), (ipv4 198 18 0 0, 15), (ipv4 198 51 100 0, 24), (ipv4 203 0 113 0, 24),
     (ipv4 240 0 0 0, 4), (ipv4 255 255 255 255, 32)]"

definition private4_exceptions :: "(32 word \<times> nat) list" where
  "private4_exceptions = [(ipv4 192 0 0 9, 32), (ipv4 192 0 0 10, 32)]"

definition in_any :: "('a::len word \<times> nat) list \<Rightarrow> 'a word \<Rightarrow> bool" where
  "in_any nets a \<longleftrightarrow> (\<exists>(n, b) \<in> set nets. in_net a n b)"

definition is_private4 :: "32 word \<Rightarrow> bool" where
  "is_private4 a \<longleftrightarrow> in_any private4 a \<and> \<not> in_any private4_exceptions a"

text \<open>An IPv6 address from its first two groups of 16 bits and its third, the rest zero.\<close>

definition ipv6 :: "nat \<Rightarrow> nat \<Rightarrow> nat \<Rightarrow> 128 word" where
  "ipv6 g1 g2 g3 = push_bit 112 (word_of_nat g1) OR push_bit 96 (word_of_nat g2) OR push_bit 80 (word_of_nat g3)"

definition private6 :: "(128 word \<times> nat) list" where
  "private6 = [(1, 128), (0, 128), (push_bit 32 0xFFFF, 96), (ipv6 0x64 0xFF9B 1, 48), (ipv6 0x100 0 0, 64),
     (ipv6 0x2001 0 0, 23), (ipv6 0x2001 0xDB8 0, 32), (ipv6 0x2002 0 0, 16),
     (ipv6 0xFC00 0 0, 7), (ipv6 0xFE80 0 0, 10)]"

definition private6_exceptions :: "(128 word \<times> nat) list" where
  "private6_exceptions = [(ipv6 0x2001 1 0 OR 1, 128), (ipv6 0x2001 1 0 OR 2, 128), (ipv6 0x2001 3 0, 32),
     (ipv6 0x2001 4 0x112, 48), (ipv6 0x2001 0x20 0, 28), (ipv6 0x2001 0x30 0, 28)]"

text \<open>\<open>ip.ipv4_mapped\<close>: the low 32 bits of an address in \<open>::ffff:0:0/96\<close>.\<close>

definition ipv4_mapped :: "128 word \<Rightarrow> 32 word option" where
  "ipv4_mapped a = (if in_net a (push_bit 32 0xFFFF) 96 then Some (ucast a) else None)"

definition reserved6 :: "(128 word \<times> nat) list" where
  "reserved6 = [(0, 8), (ipv6 0x100 0 0, 8), (ipv6 0x200 0 0, 7), (ipv6 0x400 0 0, 6), (ipv6 0x800 0 0, 5),
     (ipv6 0x1000 0 0, 4), (ipv6 0x4000 0 0, 3), (ipv6 0x6000 0 0, 3), (ipv6 0x8000 0 0, 3),
     (ipv6 0xA000 0 0, 3), (ipv6 0xC000 0 0, 3), (ipv6 0xE000 0 0, 4), (ipv6 0xF000 0 0, 5),
     (ipv6 0xF800 0 0, 6), (ipv6 0xFE00 0 0, 9)]"

fun is_private :: "ip \<Rightarrow> bool" where
  "is_private (V4 a) = is_private4 a"
| "is_private (V6 a) =
     (case ipv4_mapped a of
        Some b \<Rightarrow> is_private4 b
      | None \<Rightarrow> in_any private6 a \<and> \<not> in_any private6_exceptions a)"

fun is_loopback :: "ip \<Rightarrow> bool" where
  "is_loopback (V4 a) = in_net a (ipv4 127 0 0 0) 8"
| "is_loopback (V6 a) = (a = 1)"

fun is_link_local :: "ip \<Rightarrow> bool" where
  "is_link_local (V4 a) = in_net a (ipv4 169 254 0 0) 16"
| "is_link_local (V6 a) = in_net a (ipv6 0xFE80 0 0) 10"

fun is_reserved :: "ip \<Rightarrow> bool" where
  "is_reserved (V4 a) = in_net a (ipv4 240 0 0 0) 4"
| "is_reserved (V6 a) = in_any reserved6 a"

section \<open>The tool\<close>

text \<open>How \<open>getaddrinfo\<close> and the client end.\<close>

datatype resolution = Resolved "ip list" | GaiError string | ResolveRaises exn
datatype http_outcome = Response int string | HttpError string | HttpInterrupted exn

record 'w http_env =
  check_bracketed :: "string \<Rightarrow> exn option"
  check_nfkc :: "string \<Rightarrow> exn option"
  resolve :: "string \<Rightarrow> 'w \<Rightarrow> resolution \<times> 'w"
  ip_text :: "ip \<Rightarrow> string"
  http_get :: "real \<Rightarrow> string \<Rightarrow> 'w \<Rightarrow> http_outcome \<times> 'w"

definition is_ascii :: "string \<Rightarrow> bool" where
  "is_ascii s \<longleftrightarrow> list_all (\<lambda>c. code c < 128) s"

definition urlparse :: "('w, 'e) http_env_scheme \<Rightarrow> string \<Rightarrow> (string \<times> string option) result" where
  "urlparse env raw_url =
     (let (scheme, rest) = split_scheme (clean_url raw_url);
          netloc = split_netloc rest;
          open_br = (CHR ''['' \<in> set netloc); close_br = (CHR '']'' \<in> set netloc)
      in if open_br \<noteq> close_br then Inl (ValueError ''Invalid IPv6 URL'')
         else case (if open_br then check_bracketed env netloc else None) of
           Some e \<Rightarrow> Inl e
         | None \<Rightarrow>
             (case (if is_ascii netloc then None else check_nfkc env netloc) of
                Some e \<Rightarrow> Inl e
              | None \<Rightarrow> Inr (scheme, host_of netloc)))"

definition non_public :: "ip \<Rightarrow> bool" where
  "non_public a \<longleftrightarrow> is_private a \<or> is_loopback a \<or> is_link_local a \<or> is_reserved a"

definition quoted :: "string \<Rightarrow> string" where
  "quoted s = [CHR 0x27] @ s @ [CHR 0x27]"

definition reject_private_ip :: "('w, 'e) http_env_scheme \<Rightarrow> string \<Rightarrow> ('w, unit) eff" where
  "reject_private_ip env host w =
     (case resolve env host w of
        (GaiError m, w') \<Rightarrow>
          (Inl (ToolExecutionError (''could not resolve host '' @ quoted host @ '': '' @ m)), w')
      | (ResolveRaises e, w') \<Rightarrow> (Inl e, w')
      | (Resolved ips, w') \<Rightarrow>
          (case find non_public ips of
             Some a \<Rightarrow> (Inl (ToolExecutionError (''host '' @ quoted host @
               '' resolves to a non-public address ('' @ ip_text env a @ '') '' @ dash @ '' refusing'')), w')
           | None \<Rightarrow> (Inr (), w')))"

definition validate_url :: "('w, 'e) http_env_scheme \<Rightarrow> string list \<Rightarrow> string \<Rightarrow> ('w, string) eff" where
  "validate_url env allowed_domains raw_url w =
     (case urlparse env raw_url of
        Inl e \<Rightarrow> (Inl e, w)
      | Inr (scheme, hostname) \<Rightarrow>
          if scheme \<noteq> ''https'' then (Inl (ToolExecutionError ''only https:// URLs are allowed''), w)
          else
            (let host = py_lower (opt_str_or hostname [])
             in if host \<notin> set (map py_lower allowed_domains)
                then (Inl (ToolExecutionError (''host '' @ quoted host @ '' is not in the allowlist'')), w)
                else bind_e (reject_private_ip env host) (\<lambda>_. ret raw_url) w))"

definition max_response_bytes :: nat where "max_response_bytes = 20000"

definition run_http :: "('w, 'e) http_env_scheme \<Rightarrow> string list \<Rightarrow> real \<Rightarrow> string \<Rightarrow> ('w, json) eff" where
  "run_http env allowed_domains timeout raw_url =
     bind_e (validate_url env allowed_domains raw_url) (\<lambda>url w.
       case http_get env timeout url w of
         (HttpError m, w') \<Rightarrow> (Inl (ToolExecutionError (''request failed: '' @ m)), w')
       | (HttpInterrupted e, w') \<Rightarrow> (Inl e, w')
       | (Response status body, w') \<Rightarrow>
           (Inr (JObj [(''status_code'', JInt status),
                       (''body'', JStr (take max_response_bytes body)),
                       (''truncated'', JBool (max_response_bytes < length body))]), w'))"

section \<open>Properties\<close>

text \<open>What has to hold of a URL before a request for it leaves the process.\<close>

definition http_guard :: "('w, 'e) http_env_scheme \<Rightarrow> string list \<Rightarrow> string \<Rightarrow> 'w \<Rightarrow> bool" where
  "http_guard env allowed raw_url w \<longleftrightarrow>
     (\<exists>hostname ips w'. urlparse env raw_url = Inr (''https'', hostname) \<and>
        py_lower (opt_str_or hostname []) \<in> set (map py_lower allowed) \<and>
        resolve env (py_lower (opt_str_or hostname [])) w = (Resolved ips, w') \<and>
        list_all (\<lambda>a. \<not> non_public a) ips)"

lemma find_None_list_all: "find P xs = None \<longleftrightarrow> list_all (\<lambda>x. \<not> P x) xs"
  by (auto simp: find_None_iff list_all_iff)

lemma reject_private_ip_Inr:
  "reject_private_ip env host w = (Inr u, w') \<longleftrightarrow>
     (\<exists>ips. resolve env host w = (Resolved ips, w') \<and> list_all (\<lambda>a. \<not> non_public a) ips)"
  by (auto simp: reject_private_ip_def find_None_list_all [symmetric]
      split: prod.splits resolution.splits option.splits)

lemma validate_url_Inr:
  "validate_url env allowed raw_url w = (Inr u, w') \<Longrightarrow> u = raw_url \<and> http_guard env allowed raw_url w"
  by (auto simp: validate_url_def http_guard_def Let_def bind_e_def ret_def reject_private_ip_Inr
      split: sum.splits prod.splits if_splits)

lemma validate_url_get [simp]:
  "validate_url (env\<lparr>http_get := g\<rparr>) allowed raw_url w = validate_url env allowed raw_url w"
  by (simp add: validate_url_def urlparse_def reject_private_ip_def bind_e_def Let_def
      cong: sum.case_cong option.case_cong resolution.case_cong prod.case_cong if_cong)

text \<open>
  C29. No request leaves the process unguarded: unless the URL is an \<open>https\<close> one, its host is on
  the allowlist and no address that the host resolves to is private, loopback, link-local or
  reserved, the tool raises, and what it does is the same whatever the HTTP client would do, so
  the client is not asked.
\<close>

theorem http_request_guarded:
  "if http_guard env allowed raw_url w then True
   else (\<exists>e. fst (run_http env allowed timeout raw_url w) = Inl e) \<and>
     run_http (env\<lparr>http_get := g\<rparr>) allowed timeout raw_url w = run_http env allowed timeout raw_url w"
proof (cases "validate_url env allowed raw_url w")
  case (Pair r w')
  then show ?thesis
    using validate_url_Inr [of env allowed raw_url w _ w']
    by (cases r) (auto simp: run_http_def bind_e_def)
qed

text \<open>
  A response is cut to 20000 characters, says whether it was cut, and is the beginning of
  what the server sent.
\<close>

theorem http_body_bounded:
  "case run_http env allowed timeout raw_url w of
     (Inr v, w') \<Rightarrow> (\<exists>status body text w1. http_get env timeout raw_url w1 = (Response status text, w') \<and>
        v = JObj [(''status_code'', JInt status), (''body'', JStr body),
                  (''truncated'', JBool (body \<noteq> text))] \<and>
        length body \<le> 20000 \<and> body = take 20000 text)
   | (Inl e, w') \<Rightarrow> True"
  by (auto simp: run_http_def bind_e_def max_response_bytes_def dest!: validate_url_Inr
      split: prod.splits sum.splits http_outcome.splits)

section \<open>The refused addresses\<close>

definition octets :: "8 word \<Rightarrow> 8 word \<Rightarrow> 8 word \<Rightarrow> 8 word \<Rightarrow> 32 word" where
  "octets a b c d = ipv4 (unat a) (unat b) (unat c) (unat d)"

lemma unat8: "unat (a :: 8 word) < 256"
proof -
  have "unat a < 2 ^ LENGTH(8)" by (rule unsigned_less)
  then show ?thesis by simp
qed

lemma unat_octets:
  "unat (octets a b c d) = ((unat a * 256 + unat b) * 256 + unat c) * 256 + unat d"
proof -
  have "((unat a * 256 + unat b) * 256 + unat c) * 256 + unat d < 2 ^ 32"
    using unat8 [of a] unat8 [of b] unat8 [of c] unat8 [of d] by simp
  then show ?thesis unfolding octets_def ipv4_def unat_of_nat by simp
qed

lemma in_net_unat:
  "in_net (x :: 'a::len word) y n \<longleftrightarrow> unat x div 2 ^ (LENGTH('a) - n) = unat y div 2 ^ (LENGTH('a) - n)"
proof -
  have "unat (drop_bit k z) = unat z div 2 ^ k" for z :: "'a word" and k
    by (simp only: unat_drop_bit_eq drop_bit_eq_div [where ?'a = nat])
  then show ?thesis unfolding in_net_def word_unat_eq_iff by simp
qed

text \<open>Two addresses in a common network share every shorter prefix.\<close>

lemma in_net_shorter: "in_net (x :: 'a::len word) y n \<Longrightarrow> m \<le> n \<Longrightarrow> n \<le> LENGTH('a) \<Longrightarrow> in_net x y m"
proof -
  assume a: "in_net x y n" "m \<le> n" "n \<le> LENGTH('a)"
  then have "LENGTH('a) - m = (n - m) + (LENGTH('a) - n)" by simp
  then have eq: "drop_bit (LENGTH('a) - m) z = drop_bit (n - m) (drop_bit (LENGTH('a) - n) z)"
    for z :: "'a word"
    by (simp add: drop_bit_drop_bit)
  from a(1) have "drop_bit (LENGTH('a) - n) x = drop_bit (LENGTH('a) - n) y" by (simp only: in_net_def)
  then show ?thesis by (simp only: in_net_def eq [of x] eq [of y])
qed

lemma unat_ipv4:
  "a < 256 \<Longrightarrow> b < 256 \<Longrightarrow> c < 256 \<Longrightarrow> d < 256 \<Longrightarrow>
     unat (ipv4 a b c d) = ((a * 256 + b) * 256 + c) * 256 + d"
  unfolding ipv4_def unat_of_nat by simp

lemma div_top: "b < 256 \<Longrightarrow> c < 256 \<Longrightarrow> d < (256 :: nat) \<Longrightarrow>
    (((a * 256 + b) * 256 + c) * 256 + d) div 2 ^ 24 = a"
  by simp

lemma in_net_octet:
  assumes "x < 256" "y < 256" "z < 256" "u < 256"
  shows "in_net (octets a b c d) (ipv4 x y z u) 8 \<longleftrightarrow> unat a = x"
  using div_top [OF unat8 [of b] unat8 [of c] unat8 [of d], of "unat a"] div_top [OF assms(2-4), of x]
  by (simp only: in_net_unat unat_octets unat_ipv4 [OF assms]) simp

lemma in_net_two_octets:
  assumes "x < 256" "y < 256" "z < 256" "u < 256"
  shows "in_net (octets a b c d) (ipv4 x y z u) 16 \<longleftrightarrow> unat a = x \<and> unat b = y"
proof -
  have d: "(((p * 256 + q) * 256 + r) * 256 + s) div 2 ^ 16 = p * 256 + q"
    if "r < 256" "s < (256 :: nat)" for p q r s using that by simp
  have "p * 256 + q = x * 256 + y \<longleftrightarrow> p = x \<and> q = y" if "q < 256" for p q
  proof -
    have "(p * 256 + q) div 256 = p" "(p * 256 + q) mod 256 = q" using that by simp_all
    moreover have "(x * 256 + y) div 256 = x" "(x * 256 + y) mod 256 = y" using assms(2) by simp_all
    ultimately show ?thesis by metis
  qed
  from this [OF unat8 [of b]]
  have "unat a * 256 + unat b = x * 256 + y \<longleftrightarrow> unat a = x \<and> unat b = y" .
  then show ?thesis
    using d [OF unat8 [of c] unat8 [of d]] d [OF assms(3,4)]
    by (simp only: in_net_unat unat_octets unat_ipv4 [OF assms]) simp
qed

lemma in_net_nibble: "in_net (octets a b c d) (ipv4 240 0 0 0) 4 \<longleftrightarrow> unat a div 16 = 15"
proof -
  have "n div 2 ^ 28 = n div 2 ^ 24 div 16" for n :: nat
    by (simp only: div_mult2_eq [symmetric]) simp
  then have "unat (octets a b c d) div 2 ^ 28 = unat a div 16"
    using div_top [OF unat8 [of b] unat8 [of c] unat8 [of d], of "unat a"] by (simp only: unat_octets)
  moreover have "unat (ipv4 240 0 0 0) div 2 ^ 28 = 15" by (simp add: unat_ipv4)
  ultimately show ?thesis by (simp add: in_net_unat)
qed

lemma in_any_shorter:
  assumes "in_any nets (x :: 'a::len word)" and "list_all (\<lambda>(n, k). m \<le> k \<and> k \<le> LENGTH('a)) nets"
  shows "\<exists>n \<in> fst ` set nets. in_net x n m"
proof -
  from assms(1) obtain n k where n: "(n, k) \<in> set nets" "in_net x n k" by (auto simp: in_any_def)
  with assms(2) have "m \<le> k" "k \<le> LENGTH('a)" by (auto simp: list_all_iff)
  with in_net_shorter [OF n(2)] have "in_net x n m" by blast
  moreover have "n \<in> fst ` set nets" using imageI [OF n(1), of fst] by simp
  ultimately show ?thesis by blast
qed

lemma in_any_append: "in_any (ns @ ms) x \<longleftrightarrow> in_any ns x \<or> in_any ms x"
  by (auto simp: in_any_def)

lemma no_exception: "unat b \<noteq> 0 \<or> unat a \<noteq> 192 \<Longrightarrow> \<not> in_any private4_exceptions (octets a b c d)"
  using in_any_shorter [of private4_exceptions "octets a b c d" 16]
  by (auto simp: private4_exceptions_def in_net_two_octets)

lemma not_private4:
  assumes "unat a \<notin> {0, 10, 127, 169, 172, 192, 198, 203, 255}" and "unat a div 16 \<noteq> 15"
  shows "\<not> in_any private4 (octets a b c d)"
proof -
  let ?rest = "filter (\<lambda>(n, k). 8 \<le> k) private4"
  have "in_any private4 x \<longleftrightarrow> in_any ?rest x \<or> in_net x (ipv4 240 0 0 0) 4" for x
    by (simp add: private4_def in_any_def) blast
  moreover have "\<not> in_any ?rest (octets a b c d)"
    using in_any_shorter [of ?rest "octets a b c d" 8] assms(1)
    by (auto simp: private4_def in_net_octet)
  ultimately show ?thesis using assms(2) by (simp add: in_net_nibble)
qed

lemma private_net:
  "(n, k) \<in> set private4 \<Longrightarrow> in_net (octets a b c d) n k \<Longrightarrow> unat b \<noteq> 0 \<or> unat a \<noteq> 192 \<Longrightarrow>
     non_public (V4 (octets a b c d))"
  using no_exception by (auto simp: non_public_def is_private4_def in_any_def)

lemma mapped_reserved: "is_reserved (V6 (push_bit 32 0xFFFF OR ucast (x :: 32 word)))"
proof -
  have "unat x < 2 ^ LENGTH(32)" by (rule unsigned_less)
  then have x: "unat x < 2 ^ 32" by simp
  have "unat (ucast x :: 128 word) = take_bit 128 (unat x)" by (simp add: unsigned_ucast_eq)
  also have "\<dots> = unat x" using x by (intro take_bit_nat_eq_self) simp
  finally have "unat (ucast x :: 128 word) div 2 ^ 120 = 0" using x by simp
  then have "drop_bit 120 (ucast x :: 128 word) = 0"
    using in_net_unat [of "ucast x :: 128 word" 0 8] by (simp add: in_net_def)
  then have "in_net (push_bit 32 0xFFFF OR ucast x :: 128 word) 0 8"
    by (simp add: in_net_def drop_bit_or)
  then show ?thesis by (simp add: in_any_def reserved6_def)
qed

lemma private6_net:
  assumes net: "(n, k) \<in> set private6" "in_net a n k" and "k \<le> 28"
    and apart: "list_all (\<lambda>(n', k'). drop_bit (128 - k) n' \<noteq> drop_bit (128 - k) n)
      ((push_bit 32 0xFFFF, 96) # private6_exceptions)"
  shows "non_public (V6 a)"
proof -
  have "\<not> in_any private6_exceptions a"
  proof
    assume "in_any private6_exceptions a"
    then have "\<exists>n' \<in> fst ` set private6_exceptions. in_net a n' k"
      using \<open>k \<le> 28\<close> by (intro in_any_shorter) (simp_all add: private6_exceptions_def)
    with net(2) apart show False by (auto simp: in_net_def list_all_iff)
  qed
  moreover have "ipv4_mapped a = None"
  proof (rule ccontr)
    assume "ipv4_mapped a \<noteq> None"
    then have "in_net a (push_bit 32 0xFFFF) 96" by (simp add: ipv4_mapped_def split: if_splits)
    from in_net_shorter [OF this, of k] \<open>k \<le> 28\<close> have "in_net a (push_bit 32 0xFFFF) k" by simp
    with net(2) apart show False by (simp add: in_net_def)
  qed
  moreover have "in_any private6 a" using net by (auto simp: in_any_def)
  ultimately show ?thesis by (simp add: non_public_def)
qed

text \<open>
  Unique local addresses, link-local addresses and the 6to4 addresses, whose second and third
  group are an IPv4 address, are refused.
\<close>

lemma refused_ranges6:
  "in_net a (ipv6 0x2002 0 0) 16 \<or> in_net a (ipv6 0xFC00 0 0) 7 \<or> in_net a (ipv6 0xFE80 0 0) 10 \<Longrightarrow>
     non_public (V6 a)"
  using private6_net [of "ipv6 0x2002 0 0" 16 a] private6_net [of "ipv6 0xFC00 0 0" 7 a]
    private6_net [of "ipv6 0xFE80 0 0" 10 a]
  by (auto simp: private6_def private6_exceptions_def ipv6_def)

text \<open>
  The ranges a request must not reach are refused, whatever the other octets are: the
  private networks, loopback, link-local with the metadata service of the clouds, and an IPv4
  address written as an IPv6 one. The shared range 100.64.0.0/10 of carrier networks and the
  multicast addresses are not among them.
\<close>

theorem refused_ranges:
  "non_public (V4 (octets 10 b c d)) \<and> non_public (V4 (octets 127 b c d)) \<and>
   non_public (V4 (octets 0 b c d)) \<and> non_public (V4 (octets 192 168 c d)) \<and>
   non_public (V4 (octets 169 254 c d)) \<and> non_public (V6 1) \<and>
   non_public (V6 (push_bit 32 0xFFFF OR ucast (octets a b c d))) \<and>
   \<not> non_public (V4 (octets 100 64 c d)) \<and> \<not> non_public (V4 (octets 224 b c d))"
proof -
  note nets = private4_def in_net_octet in_net_two_octets
  have "non_public (V4 (octets 10 b c d))" "non_public (V4 (octets 127 b c d))"
    "non_public (V4 (octets 0 b c d))"
    by (rule private_net [of "ipv4 10 0 0 0" 8] private_net [of "ipv4 127 0 0 0" 8]
        private_net [of "ipv4 0 0 0 0" 8]; simp add: nets)+
  moreover have "non_public (V4 (octets 192 168 c d))" "non_public (V4 (octets 169 254 c d))"
    by (rule private_net [of "ipv4 192 168 0 0" 16] private_net [of "ipv4 169 254 0 0" 16]; simp add: nets)+
  moreover have "non_public (V6 1)" "non_public (V6 (push_bit 32 0xFFFF OR ucast (octets a b c d)))"
    using mapped_reserved by (simp_all add: non_public_def)
  moreover have "\<not> non_public (V4 (octets x b c d))" if "unat x \<in> {100, 224}" for x b
    using not_private4 [of x b c d] that
    by (auto simp: non_public_def is_private4_def in_net_octet in_net_two_octets in_net_nibble)
  ultimately show ?thesis by simp
qed

end
