(* ===== verification/Knowledge_Base.thy ===== *)
theory Knowledge_Base
  imports Json Regex "HOL-Library.Sublist" "HOL-Library.Multiset"
begin

text \<open>
  The knowledge-base search tool, \<open>agent/tools/knowledge_base.py\<close>: keyword scores over a list
  of documents, ranked. The documents are the parsed file (\<open>knowledge_base_docs.json\<close> in the
  repository), each with its id, title and body.
\<close>

record kb_doc =
  doc_id :: string
  doc_title :: string
  doc_body :: string

section \<open>Text\<close>

text \<open>\<open>s.count(t)\<close> of a non-empty text: occurrences from the left that do not overlap.\<close>

function count_sub :: "string \<Rightarrow> string \<Rightarrow> nat" where
  "count_sub t s =
     (if t = [] \<or> s = [] then 0
      else if prefix t s then Suc (count_sub t (drop (length t) s))
      else count_sub t (tl s))"
  by pat_completeness auto
termination by (relation "measure (\<lambda>(t, s). length s)") auto

declare count_sub.simps [simp del]

section \<open>The search\<close>

definition query_terms :: "string \<Rightarrow> string list" where
  "query_terms q = remdups (map py_lower (filter (\<lambda>t. 2 < length t) (py_split q)))"

definition haystack :: "kb_doc \<Rightarrow> string" where
  "haystack doc = py_lower (doc_title doc @ '' '' @ doc_body doc)"

definition doc_score :: "string list \<Rightarrow> kb_doc \<Rightarrow> nat" where
  "doc_score terms doc = sum_list (map (\<lambda>t. count_sub t (haystack doc)) terms)"

definition scored :: "kb_doc list \<Rightarrow> string list \<Rightarrow> (nat \<times> kb_doc) list" where
  "scored docs terms = filter (\<lambda>p. 0 < fst p) (map (\<lambda>doc. (doc_score terms doc, doc)) docs)"

text \<open>\<open>scored.sort(key=..., reverse=True)\<close> keeps the order of equal scores.\<close>

definition ranked :: "kb_doc list \<Rightarrow> string list \<Rightarrow> (nat \<times> kb_doc) list" where
  "ranked docs terms = sort_key (\<lambda>p. - int (fst p)) (scored docs terms)"

definition kb_entry :: "nat \<times> kb_doc \<Rightarrow> json" where
  "kb_entry p = (case p of (score, doc) \<Rightarrow>
     JObj [(''id'', JStr (doc_id doc)), (''title'', JStr (doc_title doc)),
           (''snippet'', JStr (take 280 (doc_body doc))), (''score'', JInt (int score))])"

definition kb_search :: "kb_doc list \<Rightarrow> string \<Rightarrow> int \<Rightarrow> json" where
  "kb_search docs q top_k = JList (map kb_entry (slice_to top_k (ranked docs (query_terms q))))"

section \<open>What a score means\<close>

lemma count_sub_pos:
  assumes "t \<noteq> []"
  shows "0 < count_sub t s \<longleftrightarrow> sublist t s"
  using assms
proof (induction t s rule: count_sub.induct)
  case (1 t s)
  show ?case
  proof (cases "t = [] \<or> s = []")
    case True
    then show ?thesis using "1.prems" by (auto simp: count_sub.simps)
  next
    case False
    show ?thesis
    proof (cases "prefix t s")
      case True
      then show ?thesis using False by (subst count_sub.simps) (auto intro: prefix_imp_sublist)
    next
      case np: False
      with False obtain c r where s: "s = c # r" by (cases s) auto
      have "sublist t s \<longleftrightarrow> sublist t r" using np s by (auto simp: sublist_Cons_right)
      then show ?thesis using 1 False np s by (subst count_sub.simps) simp
    qed
  qed
qed

lemma py_lower_length [simp]: "length (py_lower s) = length s"
  by (simp add: py_lower_def)

lemma query_terms_nonempty: "t \<in> set (query_terms q) \<Longrightarrow> t \<noteq> []"
  by (auto simp: query_terms_def py_lower_def)

lemma doc_score_pos:
  "0 < doc_score (query_terms q) doc \<longleftrightarrow> (\<exists>t \<in> set (query_terms q). sublist t (haystack doc))"
  using query_terms_nonempty [of _ q] count_sub_pos
  by (auto simp: doc_score_def sum_list_eq_0_iff neq0_conv [symmetric] simp del: neq0_conv)

text \<open>A split has no empty word, and no word of it contains white space.\<close>

lemma split_words_set:
  "w \<in> set (split_words word s) \<Longrightarrow> list_all (\<lambda>c. \<not> is_space c) word \<Longrightarrow>
     w \<noteq> [] \<and> list_all (\<lambda>c. \<not> is_space c) w"
  by (induction word s rule: split_words.induct) (auto split: if_splits)

section \<open>Properties\<close>

text \<open>What is left out of the first \<open>n\<close> of a list sorted by a key is not below them.\<close>

lemma take_sort_key:
  fixes f :: "'a \<Rightarrow> 'k::linorder"
  assumes "x \<in> set (drop n (sort_key f xs))" "y \<in> set (take n (sort_key f xs))"
  shows "f y \<le> f x"
proof -
  have "sorted (map f (take n (sort_key f xs)) @ map f (drop n (sort_key f xs)))"
    by (simp flip: map_append)
  then show ?thesis using assms by (auto simp: sorted_append)
qed

text \<open>
  The search returns the best documents: a document matches exactly if a word of the query
  of three or more letters occurs in its title or body, in any case; the result lists the
  highest scores first, as many as asked for if there are so many, no document left out scores
  more than one listed, and documents of the same score come in the order of the corpus.
\<close>

theorem kb_search_ranked:
  "\<exists>hits. kb_search docs q (int k) = JList (map kb_entry hits) \<and>
     length hits = min k (length (scored docs (query_terms q))) \<and>
     sorted (rev (map fst hits)) \<and>
     (\<forall>n. prefix (filter (\<lambda>p. fst p = n) hits) (filter (\<lambda>p. fst p = n) (scored docs (query_terms q)))) \<and>
     (\<exists>rest. mset (scored docs (query_terms q)) = mset hits + mset rest \<and>
        list_all (\<lambda>x. list_all (\<lambda>y. fst x \<le> fst y) hits) rest) \<and>
     map snd (scored docs (query_terms q)) =
       filter (\<lambda>doc. \<exists>t \<in> set (query_terms q). sublist t (haystack doc)) docs"
proof -
  let ?s = "scored docs (query_terms q)"
  let ?r = "ranked docs (query_terms q)"
  let ?hits = "take k ?r"
  have search: "kb_search docs q (int k) = JList (map kb_entry ?hits)"
    by (simp add: kb_search_def slice_to_def)
  have len: "length ?hits = min k (length ?s)" by (simp add: ranked_def min.commute)
  have "sorted (map (\<lambda>p. - int (fst p)) ?hits)"
    by (simp add: ranked_def take_map [symmetric] sorted_wrt_take)
  then have "sorted_wrt (\<lambda>x y. y \<le> x) (map fst ?hits)" by (simp add: sorted_map sorted_wrt_map)
  then have srt: "sorted (rev (map fst ?hits))" by (simp add: sorted_wrt_rev)
  have split: "mset ?s = mset ?hits + mset (drop k ?r)"
    by (metis append_take_drop_id mset_append mset_sort ranked_def)
  have "filter (\<lambda>p. fst p = n) ?r = filter (\<lambda>p. fst p = n) ?s" for n
    using sort_key_stable [of "\<lambda>p. - int (fst p)" "- int n" ?s] by (simp add: ranked_def)
  then have stable: "prefix (filter (\<lambda>p. fst p = n) ?hits) (filter (\<lambda>p. fst p = n) ?s)" for n
    by (metis append_take_drop_id filter_append prefixI)
  have "map snd ?s = filter (\<lambda>doc. 0 < doc_score (query_terms q) doc) docs"
    by (simp add: scored_def filter_map o_def)
  then have match: "map snd ?s = filter (\<lambda>doc. \<exists>t \<in> set (query_terms q). sublist t (haystack doc)) docs"
    by (simp only: doc_score_pos)
  have rest: "list_all (\<lambda>x. list_all (\<lambda>y. fst x \<le> fst y) ?hits) (drop k ?r)"
    using take_sort_key [of _ k "\<lambda>p. - int (fst p)" ?s] by (force simp: list_all_iff ranked_def)
  show ?thesis
    by (rule exI [of _ ?hits]) (use search len srt split stable match rest in \<open>auto simp: mset_subset_eq_exists_conv\<close>)
qed

end
