(* ===== verification/Tenancy.thy ===== *)
theory Tenancy
  imports Database
begin

text \<open>
  Tenants, roles and credentials: the static registry (\<open>tenancy/models.py\<close>,
  \<open>policies/tenants.yaml\<close>), the API key store (\<open>tenancy/api_keys.py\<close>), and authentication
  and role checks (\<open>tenancy/rbac.py\<close>). The password hasher and the token generator are
  library code and so fields of the environment.
\<close>

section \<open>Roles and tenants\<close>

datatype tenant_role = ADMIN | DEVELOPER | VIEWER

fun tenant_role_value :: "tenant_role \<Rightarrow> string" where
  "tenant_role_value ADMIN = ''admin''"
| "tenant_role_value DEVELOPER = ''developer''"
| "tenant_role_value VIEWER = ''viewer''"

text \<open>\<open>Role(value)\<close>.\<close>

definition role_of_value :: "string \<Rightarrow> tenant_role result" where
  "role_of_value v =
     (if v = ''admin'' then Inr ADMIN
      else if v = ''developer'' then Inr DEVELOPER
      else if v = ''viewer'' then Inr VIEWER
      else Inl (ValueError (py_repr v @ '' is not a valid Role'')))"

fun role_rank :: "tenant_role \<Rightarrow> nat" where
  "role_rank VIEWER = 0"
| "role_rank DEVELOPER = 1"
| "role_rank ADMIN = 2"

text \<open>The order of privilege.\<close>

instantiation tenant_role :: linorder
begin

definition less_eq_tenant_role :: "tenant_role \<Rightarrow> tenant_role \<Rightarrow> bool" where
  "less_eq_tenant_role a b \<longleftrightarrow> role_rank a \<le> role_rank b"

definition less_tenant_role :: "tenant_role \<Rightarrow> tenant_role \<Rightarrow> bool" where
  "less_tenant_role a b \<longleftrightarrow> role_rank a < role_rank b"

instance
proof
  fix a b :: tenant_role
  show "a \<le> b \<Longrightarrow> b \<le> a \<Longrightarrow> a = b"
    by (cases a; cases b) (simp_all add: less_eq_tenant_role_def)
qed (auto simp: less_eq_tenant_role_def less_tenant_role_def)

end

lemma role_round_trip [simp]: "role_of_value (tenant_role_value r) = Inr r"
  by (cases r) (simp_all add: role_of_value_def)

record tenant =
  tn_id :: string
  tn_display_name :: string
  tn_guardrail_policy :: string
  tn_monthly_budget_usd :: real

record tenant_registry =
  tr_version :: int
  tr_tenants :: "tenant list"

text \<open>\<open>next((t for t in self.tenants if t.id == tenant_id), None)\<close>.\<close>

definition get_tenant :: "tenant_registry \<Rightarrow> string \<Rightarrow> tenant option" where
  "get_tenant reg tid = find (\<lambda>t. tn_id t = tid) (tr_tenants reg)"

text \<open>\<open>policies/tenants.yaml\<close>.\<close>

definition tenants_yaml :: tenant_registry where
  "tenants_yaml =
     \<lparr>tr_version = 1,
      tr_tenants =
        [\<lparr>tn_id = ''acme-support'', tn_display_name = ''Acme Support Team'',
          tn_guardrail_policy = ''standard'', tn_monthly_budget_usd = 500\<rparr>,
         \<lparr>tn_id = ''acme-legal'', tn_display_name = ''Acme Legal Team'',
          tn_guardrail_policy = ''legal_hold'', tn_monthly_budget_usd = 200\<rparr>]\<rparr>"

section \<open>API keys\<close>

text \<open>How \<open>PasswordHasher.verify\<close> ends: it returns, or raises the mismatch or another error.\<close>

datatype verification = Verified | Mismatch | VerifyRaises exn

record 'w key_env = "'w gw_env" +
  token_hex :: "nat \<Rightarrow> 'w \<Rightarrow> string \<times> 'w"
  token_urlsafe :: "nat \<Rightarrow> 'w \<Rightarrow> string \<times> 'w"
  hasher_hash :: "string \<Rightarrow> 'w \<Rightarrow> string \<times> 'w"
  hasher_verify :: "string \<Rightarrow> string \<Rightarrow> verification"

definition new_key_id :: "('w, 'e) key_env_scheme \<Rightarrow> (('w, 'b) gw_state_scheme, string) eff" where
  "new_key_id env = bind_e (from_world (token_hex env 6)) (\<lambda>t. ret (''key_'' @ t))"

definition new_secret :: "('w, 'e) key_env_scheme \<Rightarrow> (('w, 'b) gw_state_scheme, string) eff" where
  "new_secret env = from_world (token_urlsafe env 32)"

definition verify_secret :: "('w, 'e) key_env_scheme \<Rightarrow> string \<Rightarrow> string \<Rightarrow> bool result" where
  "verify_secret env raw_secret hashed_secret =
     (case hasher_verify env hashed_secret raw_secret of
        Verified \<Rightarrow> Inr True
      | Mismatch \<Rightarrow> Inr False
      | VerifyRaises e \<Rightarrow> Inl e)"

text \<open>The insert of a key, under the primary key and the unique index on \<open>key_id\<close>.\<close>

definition insert_key :: "api_key \<Rightarrow> api_key list \<Rightarrow> api_key list option" where
  "insert_key k rows =
     (if ak_key_id k \<in> ak_key_id ` set rows then None else insert_row ak_pk k rows)"

definition key_row :: "uuid \<Rightarrow> string \<Rightarrow> string \<Rightarrow> string \<Rightarrow> string \<Rightarrow> uuid option \<Rightarrow> datetime \<Rightarrow> api_key" where
  "key_row u kid tenant role hashed from now =
     \<lparr>ak_pk = u, ak_key_id = kid, ak_tenant = tenant, ak_role = role, ak_hashed_secret = hashed,
      ak_rotated_from = from, ak_created_at = now, ak_revoked_at = None\<rparr>"

text \<open>
  A new row with its secret, in the order \<open>create\<close> and \<open>rotate\<close> make them: key id, secret and
  hash, then the column defaults of the flush.
\<close>

definition mint_key :: "('w, 'e) key_env_scheme \<Rightarrow> string \<Rightarrow> string \<Rightarrow> uuid option \<Rightarrow>
    (('w, 'b) gw_state_scheme, api_key \<times> string) eff" where
  "mint_key env tenant role from =
     bind_e (new_key_id env) (\<lambda>key_id.
     bind_e (new_secret env) (\<lambda>raw_secret.
     bind_e (from_world (hasher_hash env raw_secret)) (\<lambda>hashed.
     bind_e (from_world (uuid4 env)) (\<lambda>u.
     bind_e (from_world (db_now env)) (\<lambda>now.
     ret (key_row u key_id tenant role hashed from now, raw_secret))))))"

definition create_key :: "('w, 'e) key_env_scheme \<Rightarrow> string \<Rightarrow> tenant_role \<Rightarrow>
    (('w, 'b) gw_state_scheme, string \<times> string) eff" where
  "create_key env tenant role =
     bind_e (mint_key env tenant (tenant_role_value role) None) (\<lambda>(k, raw_secret).
     bind_e (store (\<lambda>d. map_option (\<lambda>rows. d\<lparr>api_keys := rows\<rparr>) (insert_key k (api_keys d)))) (\<lambda>_.
     ret (ak_key_id k, raw_secret)))"

definition find_active :: "string \<Rightarrow> (('w, 'b) gw_state_scheme, api_key option) eff" where
  "find_active key_id =
     bind_e (query (\<lambda>d. filter (\<lambda>k. ak_key_id k = key_id \<and> ak_revoked_at k = None) (api_keys d))) (\<lambda>rows.
     lift_result (scalar_one_or_none rows))"

definition set_revoked :: "datetime \<Rightarrow> api_key \<Rightarrow> api_key" where
  "set_revoked now k = k\<lparr>ak_revoked_at := Some now\<rparr>"

definition revoke_key :: "('w, 'e) key_env_scheme \<Rightarrow> string \<Rightarrow> (('w, 'b) gw_state_scheme, unit) eff" where
  "revoke_key env key_id =
     bind_e (find_active key_id) (\<lambda>found.
       case found of
         None \<Rightarrow> ret ()
       | Some k \<Rightarrow>
           bind_e (from_world (utcnow env)) (\<lambda>now.
           store (\<lambda>d. Some (d\<lparr>api_keys := update_row ak_pk (ak_pk k) (set_revoked now) (api_keys d)\<rparr>))))"

definition rotate_key :: "('w, 'e) key_env_scheme \<Rightarrow> string \<Rightarrow>
    (('w, 'b) gw_state_scheme, string \<times> string) eff" where
  "rotate_key env key_id =
     bind_e (find_active key_id) (\<lambda>found.
       case found of
         None \<Rightarrow> throw (ValueError (''no active api key: '' @ key_id))
       | Some old \<Rightarrow>
           bind_e (from_world (utcnow env)) (\<lambda>revoked.
           bind_e (mint_key env (ak_tenant old) (ak_role old) (Some (ak_pk old))) (\<lambda>(k, raw_secret).
           bind_e (store (\<lambda>d. map_option (\<lambda>rows. d\<lparr>api_keys := rows\<rparr>)
             (insert_key k (update_row ak_pk (ak_pk old) (set_revoked revoked) (api_keys d))))) (\<lambda>_.
           ret (ak_key_id k, raw_secret)))))"

definition authenticate :: "('w, 'e) key_env_scheme \<Rightarrow> string \<Rightarrow> string \<Rightarrow>
    (('w, 'b) gw_state_scheme, api_key option) eff" where
  "authenticate env key_id raw_secret =
     bind_e (find_active key_id) (\<lambda>found.
       case found of
         None \<Rightarrow> ret None
       | Some k \<Rightarrow>
           bind_e (lift_result (verify_secret env raw_secret (ak_hashed_secret k))) (\<lambda>ok.
           if \<not> ok then ret None else ret (Some k)))"

section \<open>Principals\<close>

record principal =
  pr_tenant_id :: string
  pr_role :: tenant_role
  pr_key_id :: string

text \<open>\<open>token.split(".", 1)\<close> into two parts, or the \<open>ValueError\<close> of unpacking one part.\<close>

definition split_token :: "string \<Rightarrow> (string \<times> string) option" where
  "split_token token =
     (case dropWhile (\<lambda>c. c \<noteq> CHR ''.'') token of
        [] \<Rightarrow> None
      | _ # rest \<Rightarrow> Some (takeWhile (\<lambda>c. c \<noteq> CHR ''.'') token, rest))"

definition get_current_principal :: "('w, 'e) key_env_scheme \<Rightarrow> string option \<Rightarrow>
    (('w, 'b) gw_state_scheme, principal) eff" where
  "get_current_principal env authorization =
     (case authorization of
        None \<Rightarrow> throw (HTTPException 401 ''missing or malformed Authorization header'')
      | Some header \<Rightarrow>
     if take 7 header \<noteq> ''Bearer ''
     then throw (HTTPException 401 ''missing or malformed Authorization header'')
     else
     (case split_token (drop 7 header) of
        None \<Rightarrow> throw (HTTPException 401 ''malformed API key'')
      | Some (key_id, raw_secret) \<Rightarrow>
          bind_e (authenticate env key_id raw_secret) (\<lambda>found.
            case found of
              None \<Rightarrow> throw (HTTPException 401 ''invalid or revoked API key'')
            | Some k \<Rightarrow>
                bind_e (lift_result (role_of_value (ak_role k))) (\<lambda>role.
                ret \<lparr>pr_tenant_id = ak_tenant k, pr_role = role, pr_key_id = ak_key_id k\<rparr>))))"

definition require_role :: "tenant_role \<Rightarrow> principal \<Rightarrow> principal result" where
  "require_role minimum p =
     (if role_rank (pr_role p) < role_rank minimum
      then Inl (HTTPException 403 (''requires role >= '' @ tenant_role_value minimum))
      else Inr p)"

section \<open>The key table\<close>

definition keys_ok :: "database \<Rightarrow> bool" where
  "keys_ok d \<longleftrightarrow> keyed ak_pk (api_keys d) \<and> keyed ak_key_id (api_keys d)"

definition active_key :: "database \<Rightarrow> string \<Rightarrow> api_key option" where
  "active_key d kid = (case find_row ak_key_id kid (api_keys d) of
     None \<Rightarrow> None
   | Some k \<Rightarrow> if ak_revoked_at k = None then Some k else None)"

lemmas key_defs = bind_e_def ret_def throw_def query_def store_def lift_result_def
  from_world_def new_key_id_def new_secret_def Let_def

lemma find_active_result:
  "keys_ok (db s) \<Longrightarrow> find_active kid s = (Inr (active_key (db s) kid), s)"
  using scalar_one_or_none_keyed [of ak_key_id "api_keys (db s)" kid "\<lambda>k. ak_revoked_at k = None"]
  by (simp add: find_active_def key_defs keys_ok_def active_key_def)

lemma active_key_Some:
  assumes "keys_ok d"
  shows "active_key d kid = Some k \<longleftrightarrow>
     k \<in> set (api_keys d) \<and> ak_key_id k = kid \<and> ak_revoked_at k = None"
proof -
  have "active_key d kid = Some k \<longleftrightarrow>
      find_row ak_key_id kid (api_keys d) = Some k \<and> ak_revoked_at k = None"
    by (auto simp: active_key_def split: option.splits if_splits)
  then show ?thesis using assms by (auto simp: keys_ok_def find_row_keyed)
qed

lemma set_revoked_simps [simp]:
  "ak_pk (set_revoked now k) = ak_pk k" "ak_key_id (set_revoked now k) = ak_key_id k"
  "ak_tenant (set_revoked now k) = ak_tenant k" "ak_role (set_revoked now k) = ak_role k"
  "ak_revoked_at (set_revoked now k) = Some now"
  by (simp_all add: set_revoked_def)

lemma key_row_simps [simp]:
  "ak_pk (key_row u kid t r h from now) = u" "ak_key_id (key_row u kid t r h from now) = kid"
  "ak_tenant (key_row u kid t r h from now) = t" "ak_role (key_row u kid t r h from now) = r"
  "ak_hashed_secret (key_row u kid t r h from now) = h"
  "ak_rotated_from (key_row u kid t r h from now) = from"
  "ak_revoked_at (key_row u kid t r h from now) = None"
  by (simp_all add: key_row_def)

lemma insert_key_Some:
  "insert_key k rows = Some rows' \<longleftrightarrow>
     ak_pk k \<notin> ak_pk ` set rows \<and> ak_key_id k \<notin> ak_key_id ` set rows \<and> rows' = rows @ [k]"
  by (auto simp: insert_key_def insert_row_Some)

text \<open>A row and the secret it was issued with.\<close>

definition issued :: "('w, 'e) key_env_scheme \<Rightarrow> api_key \<Rightarrow> string \<Rightarrow> bool" where
  "issued env k raw \<longleftrightarrow>
     (\<exists>w. ak_hashed_secret k = fst (hasher_hash env raw w)) \<and>
     (\<exists>w. ak_key_id k = ''key_'' @ fst (token_hex env 6 w))"

lemma mint_keyE:
  assumes "mint_key env t r from s = (x, s')"
  obtains k raw where "x = Inr (k, raw)" "db s' = db s" "issued env k raw"
    "ak_tenant k = t" "ak_role k = r" "ak_rotated_from k = from" "ak_revoked_at k = None"
proof -
  let ?h = "token_hex env 6 (world s)"
  let ?r = "token_urlsafe env 32 (snd ?h)"
  let ?g = "hasher_hash env (fst ?r) (snd ?r)"
  let ?u = "uuid4 env (snd ?g)"
  let ?n = "db_now env (snd ?u)"
  let ?k = "key_row (fst ?u) (''key_'' @ fst ?h) t r (fst ?g) from (fst ?n)"
  have run: "mint_key env t r from s = (Inr (?k, fst ?r), s\<lparr>world := snd ?n\<rparr>)"
    by (simp add: mint_key_def key_defs split: prod.splits)
  have "issued env ?k (fst ?r)" unfolding issued_def key_row_simps by blast
  then show thesis using assms by (intro that [of ?k "fst ?r"]) (simp_all add: run, auto simp: run)
qed

lemma create_key_cases:
  assumes "create_key env t r s = (x, s')"
  obtains e where "x = Inl e" "db s' = db s"
  | k raw where "x = Inr (ak_key_id k, raw)" "issued env k raw"
      "ak_tenant k = t" "ak_role k = tenant_role_value r" "ak_rotated_from k = None" "ak_revoked_at k = None"
      "insert_key k (api_keys (db s)) = Some (api_keys (db s'))"
      "db s' = (db s)\<lparr>api_keys := api_keys (db s')\<rparr>"
proof -
  obtain y s1 where "mint_key env t (tenant_role_value r) None s = (y, s1)" by fastforce
  then show thesis
  proof (cases rule: mint_keyE)
    case (1 k raw)
    then show thesis
    proof (cases "insert_key k (api_keys (db s))")
      case None
      then show thesis using assms 1 \<open>mint_key env t (tenant_role_value r) None s = (y, s1)\<close>
        by (intro that(1)) (auto simp: create_key_def bind_e_def store_def ret_def)
    next
      case (Some rows)
      then show thesis using assms 1 \<open>mint_key env t (tenant_role_value r) None s = (y, s1)\<close>
        by (intro that(2) [of k raw]) (auto simp: create_key_def bind_e_def store_def ret_def)
    qed
  qed
qed

lemma rotate_key_cases:
  assumes ok: "keys_ok (db s)" and run: "rotate_key env kid s = (x, s')"
  obtains e where "x = Inl e" "db s' = db s"
  | old k raw now where "active_key (db s) kid = Some old"
      "x = Inr (ak_key_id k, raw)" "issued env k raw" "ak_tenant k = ak_tenant old"
      "ak_role k = ak_role old" "ak_rotated_from k = Some (ak_pk old)" "ak_revoked_at k = None"
      "insert_key k (update_row ak_pk (ak_pk old) (set_revoked now) (api_keys (db s))) =
         Some (api_keys (db s'))"
      "db s' = (db s)\<lparr>api_keys := api_keys (db s')\<rparr>"
proof (cases "active_key (db s) kid")
  case None
  then show thesis using run find_active_result [OF ok]
    by (intro that(1)) (auto simp: rotate_key_def bind_e_def throw_def)
next
  case (Some old)
  let ?u = "utcnow env (world s)"
  let ?s1 = "s\<lparr>world := snd ?u\<rparr>"
  let ?m = "mint_key env (ak_tenant old) (ak_role old) (Some (ak_pk old)) ?s1"
  let ?rows = "update_row ak_pk (ak_pk old) (set_revoked (fst ?u)) (api_keys (db s))"
  obtain y s2 where m: "?m = (y, s2)" by fastforce
  then show thesis
  proof (cases rule: mint_keyE)
    case (1 k raw)
    have run': "(x, s') = (case insert_key k ?rows of
        None \<Rightarrow> (Inl integrity_error, s2)
      | Some rows \<Rightarrow> (Inr (ak_key_id k, raw), s2\<lparr>db := (db s2)\<lparr>api_keys := rows\<rparr>\<rparr>))"
      using run find_active_result [OF ok, of kid] m 1(1,2) Some
      by (auto simp: rotate_key_def bind_e_def from_world_def store_def ret_def
        split: option.splits prod.splits)
    show thesis
    proof (cases "insert_key k ?rows")
      case None
      then show thesis using run' 1(2) by (intro that(1)) auto
    next
      case S: (Some rows)
      then show thesis using run' 1 Some by (intro that(2) [of old k raw "fst ?u"]) auto
    qed
  qed
qed

lemma revoke_key_cases:
  assumes ok: "keys_ok (db s)" and run: "revoke_key env kid s = (x, s')"
  obtains "active_key (db s) kid = None" "x = Inr ()" "s' = s"
  | k now where "active_key (db s) kid = Some k" "x = Inr ()"
      "db s' = (db s)\<lparr>api_keys := update_row ak_pk (ak_pk k) (set_revoked now) (api_keys (db s))\<rparr>"
proof (cases "active_key (db s) kid")
  case None
  then show thesis using run find_active_result [OF ok, of kid]
    by (intro that(1)) (auto simp: revoke_key_def bind_e_def ret_def)
next
  case (Some k)
  then show thesis using run find_active_result [OF ok, of kid]
    by (intro that(2) [of k "fst (utcnow env (world s))"])
      (auto simp: revoke_key_def bind_e_def from_world_def store_def split: prod.splits)
qed

section \<open>How the key table evolves\<close>

text \<open>
  The same key, later: only its revocation can have changed, and that only if it was not
  revoked yet. And a new key has a role of the enumeration, or that of an older key.
\<close>

definition same_key :: "api_key \<Rightarrow> api_key \<Rightarrow> bool" where
  "same_key k k' \<longleftrightarrow> ak_pk k' = ak_pk k \<and> ak_key_id k' = ak_key_id k \<and> ak_tenant k' = ak_tenant k \<and>
     ak_role k' = ak_role k \<and> ak_hashed_secret k' = ak_hashed_secret k \<and>
     ak_rotated_from k' = ak_rotated_from k \<and> ak_created_at k' = ak_created_at k \<and>
     (ak_revoked_at k \<noteq> None \<longrightarrow> ak_revoked_at k' = ak_revoked_at k)"

lemma same_key_in: "k \<in> K \<Longrightarrow> \<exists>k' \<in> K. same_key k k'"
  by (intro bexI [of _ k]) (simp_all add: same_key_def)

lemma same_key_trans: "same_key a b \<Longrightarrow> same_key b c \<Longrightarrow> same_key a c"
  by (auto simp: same_key_def)

lemma same_key_revoked: "ak_revoked_at k = None \<Longrightarrow> same_key k (set_revoked now k)"
  by (simp add: same_key_def set_revoked_def)

definition keys_evolve :: "database \<Rightarrow> database \<Rightarrow> bool" where
  "keys_evolve d d' \<longleftrightarrow> (keys_ok d \<longrightarrow> keys_ok d' \<and>
     (\<forall>k \<in> set (api_keys d). \<exists>k' \<in> set (api_keys d'). same_key k k') \<and>
     ak_role ` set (api_keys d') \<subseteq> ak_role ` set (api_keys d) \<union> range tenant_role_value)"

lemma keys_evolve_refl: "keys_evolve d d"
  by (simp add: keys_evolve_def same_key_in)

lemma keys_evolve_trans: "keys_evolve a b \<Longrightarrow> keys_evolve b c \<Longrightarrow> keys_evolve a c"
  unfolding keys_evolve_def by (intro impI conjI) (meson same_key_trans, meson same_key_trans, blast)

interpretation key_table: effect_rel "\<lambda>s s'. keys_evolve (db s) (db s')"
  by unfold_locales (auto intro: keys_evolve_refl keys_evolve_trans)

lemma keys_evolve_same: "api_keys d' = api_keys d \<Longrightarrow> keys_evolve d d'"
  by (simp add: keys_evolve_def keys_ok_def same_key_in)

lemma keys_evolve_insert:
  assumes "insert_key k (api_keys d) = Some (api_keys d')"
    and "ak_role k \<in> ak_role ` set (api_keys d) \<union> range tenant_role_value"
  shows "keys_evolve d d'"
  using assms
  by (auto simp: keys_evolve_def keys_ok_def insert_key_Some keyed_def dest: same_key_in)

lemma revoked_roles:
  "ak_role ` set (update_row ak_pk pk (set_revoked now) rows) = ak_role ` set rows"
  by (induction rows) (auto simp: update_row_def set_revoked_def)

lemma keys_evolve_revoke:
  assumes "active_key d kid = Some k"
    and "api_keys d' = update_row ak_pk (ak_pk k) (set_revoked now) (api_keys d)"
  shows "keys_evolve d d'"
  unfolding keys_evolve_def
proof (intro impI conjI ballI)
  assume ok: "keys_ok d"
  then show "keys_ok d'" by (simp add: keys_ok_def assms(2)) (simp add: keyed_def update_row_def comp_def if_distrib cong: if_cong)
  show "ak_role ` set (api_keys d') \<subseteq> ak_role ` set (api_keys d) \<union> range tenant_role_value"
    by (simp add: assms(2) revoked_roles)
  fix j assume j: "j \<in> set (api_keys d)"
  have k: "k \<in> set (api_keys d)" "ak_revoked_at k = None" using assms(1) ok by (simp_all add: active_key_Some)
  show "\<exists>j' \<in> set (api_keys d'). same_key j j'"
  proof (cases "ak_pk j = ak_pk k")
    case True
    with ok j k(1) have "j = k" by (auto simp: keys_ok_def keyed_def distinct_map dest: inj_onD)
    then have "set_revoked now j \<in> set (api_keys d')" using j by (auto simp: assms(2) update_row_def)
    then show ?thesis using same_key_revoked [of j] k(2) \<open>j = k\<close> by blast
  next
    case False
    then have "j \<in> set (api_keys d')" using j by (auto simp: assms(2) update_row_def image_iff)
    then show ?thesis by (rule same_key_in)
  qed
qed

lemma create_evolves: "keys_evolve (db s) (db (snd (create_key env t r s)))"
proof -
  obtain x s' where run: "create_key env t r s = (x, s')" by fastforce
  then show ?thesis
    by (cases rule: create_key_cases) (auto simp: run keys_evolve_refl intro: keys_evolve_insert)
qed

lemma revoke_evolves: "keys_evolve (db s) (db (snd (revoke_key env kid s)))"
proof -
  obtain x s' where run: "revoke_key env kid s = (x, s')" by fastforce
  show ?thesis
  proof (cases "keys_ok (db s)")
    case True
    then show ?thesis using run
      by (cases rule: revoke_key_cases)
        (auto simp: run keys_evolve_refl intro: keys_evolve_revoke)
  qed (simp add: keys_evolve_def)
qed

lemma rotate_evolves: "keys_evolve (db s) (db (snd (rotate_key env kid s)))"
proof -
  obtain x s' where run: "rotate_key env kid s = (x, s')" by fastforce
  show ?thesis
  proof (cases "keys_ok (db s)")
    case True
    then show ?thesis using run
    proof (cases rule: rotate_key_cases)
      case (2 old k raw now)
      let ?d = "(db s)\<lparr>api_keys := update_row ak_pk (ak_pk old) (set_revoked now) (api_keys (db s))\<rparr>"
      have "keys_evolve (db s) ?d" using 2(1) by (rule keys_evolve_revoke) simp
      moreover have "old \<in> set (api_keys (db s))" using 2(1) True by (simp add: active_key_Some)
      then have "keys_evolve ?d (db s')"
        using 2(5,8) by (intro keys_evolve_insert [of k]) (simp_all add: revoked_roles)
      ultimately show ?thesis by (simp add: run keys_evolve_trans)
    qed (simp add: run keys_evolve_refl)
  qed (simp add: keys_evolve_def)
qed

section \<open>Tokens\<close>

lemma split_token_join:
  assumes "CHR ''.'' \<notin> set a"
  shows "split_token (a @ ''.'' @ b) = Some (a, b)"
proof -
  let ?p = "\<lambda>c. c \<noteq> CHR ''.''"
  have "dropWhile ?p (a @ CHR ''.'' # b) = CHR ''.'' # b"
    using assms by (subst dropWhile_append2) auto
  moreover have "takeWhile ?p (a @ CHR ''.'' # b) = a"
    using assms by (subst takeWhile_append2) auto
  ultimately show ?thesis by (simp add: split_token_def)
qed

lemma split_token_Some:
  "split_token t = Some (a, b) \<Longrightarrow> t = a @ ''.'' @ b \<and> CHR ''.'' \<notin> set a"
proof -
  assume s: "split_token t = Some (a, b)"
  let ?p = "\<lambda>c. c \<noteq> CHR ''.''"
  from s obtain c where c: "dropWhile ?p t = c # b" "a = takeWhile ?p t"
    by (auto simp: split_token_def split: list.splits)
  then have "\<not> ?p c" using hd_dropWhile [of ?p t] by simp
  moreover have "t = a @ c # b" using takeWhile_dropWhile_id [of ?p t] c by simp
  moreover have "CHR ''.'' \<notin> set a" using set_takeWhileD [of _ ?p t] by (auto simp: c(2))
  ultimately show ?thesis by simp
qed

section \<open>What the code relies on of the libraries\<close>

text \<open>
  A hash verifies exactly the secret it was made of, and a hexadecimal token has no dot.
\<close>

definition hasher_ok :: "('w, 'e) key_env_scheme \<Rightarrow> bool" where
  "hasher_ok env \<longleftrightarrow> (\<forall>raw w raw'. hasher_verify env (fst (hasher_hash env raw w)) raw' =
     (if raw' = raw then Verified else Mismatch))"

definition tokens_ok :: "('w, 'e) key_env_scheme \<Rightarrow> bool" where
  "tokens_ok env \<longleftrightarrow> (\<forall>n w. list_all (\<lambda>c. c \<in> set ''0123456789abcdef'') (fst (token_hex env n w)))"

lemma authenticate_result:
  assumes "keys_ok (db s)"
  shows "authenticate env kid raw s =
    (case active_key (db s) kid of
       None \<Rightarrow> (Inr None, s)
     | Some k \<Rightarrow>
         (case hasher_verify env (ak_hashed_secret k) raw of
            Verified \<Rightarrow> (Inr (Some k), s)
          | Mismatch \<Rightarrow> (Inr None, s)
          | VerifyRaises e \<Rightarrow> (Inl e, s)))"
  using find_active_result [OF assms, of kid]
  by (auto simp: authenticate_def key_defs verify_secret_def split: option.splits verification.splits)

lemma issued_authenticates:
  assumes "keys_ok (db s)" and "hasher_ok env" and "issued env k raw"
    and "active_key (db s) (ak_key_id k) = Some k"
  shows "authenticate env (ak_key_id k) raw' s = (Inr (if raw' = raw then Some k else None), s)"
  using assms by (auto simp: authenticate_result issued_def hasher_ok_def)

lemma issued_no_dot: "tokens_ok env \<Longrightarrow> issued env k raw \<Longrightarrow> CHR ''.'' \<notin> set (ak_key_id k)"
  by (fastforce simp: tokens_ok_def issued_def list_all_iff)

section \<open>A concrete environment\<close>

definition counter_key_env :: "nat key_env" where
  "counter_key_env = gw_env.extend counter_env
     (key_env.fields (\<lambda>n w. (nat_str w, w + 1)) (\<lambda>n w. (''secret'' @ nat_str w, w + 1))
        (\<lambda>raw w. (''hash '' @ raw, w + 1)) (\<lambda>h raw. if h = ''hash '' @ raw then Verified else Mismatch))"

lemma counter_key_env_simps [simp]:
  "token_hex counter_key_env n w = (nat_str w, w + 1)"
  "token_urlsafe counter_key_env n w = (''secret'' @ nat_str w, w + 1)"
  "hasher_hash counter_key_env raw w = (''hash '' @ raw, w + 1)"
  "hasher_verify counter_key_env h raw = (if h = ''hash '' @ raw then Verified else Mismatch)"
  by (simp_all add: counter_key_env_def gw_env.extend_def key_env.fields_def)

lemma nat_str_digits: "list_all (\<lambda>c. c \<in> set ''0123456789abcdef'') (nat_str n)"
proof (induction n rule: nat_str.induct)
  case (1 n)
  have "digit_char d \<in> set ''0123456789abcdef''" if "d < 10" for d
  proof -
    from that have "d \<in> {0, 1, 2, 3, 4, 5, 6, 7, 8, 9}" by auto
    then show ?thesis by (elim insertE emptyE; simp add: digit_char_def; code_simp)
  qed
  then show ?case using 1 by (simp add: nat_str.simps [of n])
qed

lemma counter_key_env_ok: "hasher_ok counter_key_env" "tokens_ok counter_key_env"
  using nat_str_digits by (simp_all add: hasher_ok_def tokens_ok_def)

definition demo_created :: "(string \<times> string) result \<times> nat gw_state" where
  "demo_created = create_key counter_key_env ''acme'' DEVELOPER start_state"

definition demo_revoked :: "unit result \<times> nat gw_state" where
  "demo_revoked = revoke_key counter_key_env ''key_0'' (snd demo_created)"

lemma demo_key_runs:
  "demo_created = (Inr (''key_0'', ''secret1''), snd demo_created)"
proof -
  have "fst demo_created = Inr (''key_0'', ''secret1'')" by code_simp
  then show ?thesis by (metis prod.collapse)
qed

lemma demo_revoked_facts:
  "map (\<lambda>k. (ak_key_id k, ak_revoked_at k \<noteq> None)) (api_keys (db (snd demo_revoked))) = [(''key_0'', True)]"
  by code_simp

lemma demo_keys_ok: "keys_ok (db (snd demo_created))" "keys_ok (db (snd demo_revoked))"
proof -
  have "keys_ok (db start_state)" by (simp add: start_state_def empty_db_def keys_ok_def keyed_def)
  then show "keys_ok (db (snd demo_created))"
    using create_evolves [of start_state counter_key_env "''acme''" DEVELOPER]
    by (simp add: demo_created_def keys_evolve_def)
  then show "keys_ok (db (snd demo_revoked))"
    using revoke_evolves [of "snd demo_created" counter_key_env "''key_0''"]
    by (simp add: demo_revoked_def keys_evolve_def)
qed

section \<open>Properties\<close>

text \<open>The transitions of the key table: its three operations, and code that leaves it alone.\<close>

inductive key_step :: "('w, 'e) key_env_scheme \<Rightarrow> ('w, 'b) gw_state_scheme \<Rightarrow>
    ('w, 'b) gw_state_scheme \<Rightarrow> bool" for env where
  step_create: "key_step env s (snd (create_key env tenant role s))"
| step_revoke: "key_step env s (snd (revoke_key env key_id s))"
| step_rotate: "key_step env s (snd (rotate_key env key_id s))"
| step_other: "api_keys (db s') = api_keys (db s) \<Longrightarrow> key_step env s s'"

lemma key_step_evolves: "key_step env s s' \<Longrightarrow> keys_evolve (db s) (db s')"
  by (erule key_step.cases)
    (simp_all add: create_evolves revoke_evolves rotate_evolves keys_evolve_same)

lemma key_steps_evolve: "(key_step env)\<^sup>*\<^sup>* s s' \<Longrightarrow> keys_evolve (db s) (db s')"
  by (induction rule: rtranclp_induct)
    (auto intro: keys_evolve_refl keys_evolve_trans dest: key_step_evolves)

text \<open>
  A revoked key stays revoked: whatever is created, revoked or rotated afterwards, in
  whatever order and whether or not it raises, no secret authenticates under that key id again.
\<close>

theorem revoked_forever:
  assumes ok: "keys_ok (db s)" and k: "k \<in> set (api_keys (db s))" "ak_revoked_at k \<noteq> None"
    and later: "(key_step env)\<^sup>*\<^sup>* s s'"
  shows "authenticate env' (ak_key_id k) raw s' = (Inr None, s')"
proof -
  from key_steps_evolve [OF later] ok k(1) obtain k' where
    ok': "keys_ok (db s')" and k': "k' \<in> set (api_keys (db s'))" "same_key k k'"
    by (auto simp: keys_evolve_def)
  have "find_row ak_key_id (ak_key_id k) (api_keys (db s')) = Some k'"
    using ok' k' by (auto simp: keys_ok_def find_row_keyed same_key_def)
  then have "active_key (db s') (ak_key_id k) = None"
    using k(2) k'(2) by (simp add: active_key_def same_key_def)
  then show ?thesis by (simp add: authenticate_result [OF ok'])
qed

theorem revoked_forever_witness:
  "authenticate counter_key_env ''key_0'' ''secret1''
     (snd (create_key counter_key_env ''acme'' ADMIN (snd demo_revoked))) =
   (Inr None, snd (create_key counter_key_env ''acme'' ADMIN (snd demo_revoked)))"
proof -
  let ?k = "hd (api_keys (db (snd demo_revoked)))"
  have f: "api_keys (db (snd demo_revoked)) \<noteq> []" "ak_revoked_at ?k \<noteq> None" "ak_key_id ?k = ''key_0''"
    using demo_revoked_facts by (cases "api_keys (db (snd demo_revoked))"; simp)+
  have "(key_step counter_key_env)\<^sup>*\<^sup>* (snd demo_revoked)
      (snd (create_key counter_key_env ''acme'' ADMIN (snd demo_revoked)))"
    by (blast intro: step_create)
  from revoked_forever [OF demo_keys_ok(2) hd_in_set [OF f(1)] f(2) this]
  show ?thesis unfolding f(3) .
qed

text \<open>
  Issuing a key is a round trip: the key id and secret that \<open>create\<close> returns, sent as a bearer
  token to whoever sees the table after it, authenticate as the tenant and the role the key was
  created for; with any other secret the request is refused with 401.
\<close>

lemma issued_key_authenticates:
  assumes ok: "keys_ok (db s)" and env: "hasher_ok env" "tokens_ok env"
    and run: "create_key env t r s = (Inr (kid, raw), s')" and later: "db s'' = db s'"
  shows "get_current_principal env (Some (''Bearer '' @ kid @ ''.'' @ raw')) s'' =
    (if raw' = raw then Inr \<lparr>pr_tenant_id = t, pr_role = r, pr_key_id = kid\<rparr>
     else Inl (HTTPException 401 ''invalid or revoked API key''), s'')"
proof -
  from run obtain k where k: "kid = ak_key_id k" "issued env k raw" "ak_tenant k = t"
      "ak_role k = tenant_role_value r" "ak_revoked_at k = None"
      "insert_key k (api_keys (db s)) = Some (api_keys (db s'))"
    by (cases rule: create_key_cases) auto
  have ok': "keys_ok (db s'')" using keys_evolve_insert [OF k(6)] ok k(4) by (simp add: keys_evolve_def later)
  then have "active_key (db s'') kid = Some k"
    using k by (auto simp: active_key_Some insert_key_Some later)
  then have "authenticate env kid raw' s'' = (Inr (if raw' = raw then Some k else None), s'')"
    using issued_authenticates [OF ok' env(1) k(2)] k(1) by simp
  moreover have "split_token (kid @ ''.'' @ raw') = Some (kid, raw')"
    using split_token_join issued_no_dot [OF env(2) k(2)] by (simp add: k(1))
  ultimately show ?thesis
    by (simp add: get_current_principal_def bind_e_def throw_def lift_result_def ret_def k(1,3,4))
qed

text \<open>
  Rotation hands over: the old key stops working at once, the new one works with its
  secret only, and it has the tenant and the role of the old one and points back to it.
\<close>

theorem rotate_hands_over:
  assumes ok: "keys_ok (db s)" and env: "hasher_ok env"
    and run: "rotate_key env kid s = (Inr (kid', raw), s')"
  shows "\<exists>old new. old \<in> set (api_keys (db s)) \<and> ak_key_id old = kid \<and> ak_revoked_at old = None \<and>
    ak_key_id new = kid' \<and> ak_tenant new = ak_tenant old \<and> ak_role new = ak_role old \<and>
    ak_rotated_from new = Some (ak_pk old) \<and>
    (\<forall>raw'. authenticate env kid' raw' s' = (Inr (if raw' = raw then Some new else None), s') \<and>
       authenticate env kid raw' s' = (Inr None, s'))"
  using ok run
proof (cases rule: rotate_key_cases)
  case (2 old k raw0 now)
  let ?rows = "update_row ak_pk (ak_pk old) (set_revoked now) (api_keys (db s))"
  have old: "old \<in> set (api_keys (db s))" "ak_key_id old = kid" "ak_revoked_at old = None"
    using 2(1) ok by (simp_all add: active_key_Some)
  have rows: "api_keys (db s') = ?rows @ [k]" using 2(8) by (simp add: insert_key_Some)
  have new: "kid' = ak_key_id k" "raw0 = raw" using 2(2) by auto
  have ok': "keys_ok (db s')"
    using rotate_evolves [of s env kid] ok run by (simp add: keys_evolve_def)
  have "active_key (db s') kid' = Some k"
    using ok' 2(7) by (simp add: active_key_Some rows new)
  then have new_auth: "authenticate env kid' raw' s' = (Inr (if raw' = raw then Some k else None), s')"
    for raw' using issued_authenticates [OF ok' env 2(3)] new by simp
  have "set_revoked now old \<in> set ?rows" using old(1) by (auto simp: update_row_def)
  then have "find_row ak_key_id kid (api_keys (db s')) = Some (set_revoked now old)"
    using ok' old(2) by (auto simp: keys_ok_def find_row_keyed rows)
  then have "active_key (db s') kid = None" by (simp add: active_key_def)
  then have "authenticate env kid raw' s' = (Inr None, s')" for raw'
    by (simp add: authenticate_result [OF ok'])
  with new_auth old new 2(4-6) show ?thesis by (intro exI [of _ old] exI [of _ k]) simp
qed simp

theorem rotate_hands_over_witness:
  "\<exists>kid' raw s'. rotate_key counter_key_env ''key_0'' (snd demo_created) = (Inr (kid', raw), s') \<and>
     authenticate counter_key_env ''key_0'' ''secret1'' s' = (Inr None, s')"
proof -
  have "map_sum id (\<lambda>_. ()) (fst (rotate_key counter_key_env ''key_0'' (snd demo_created))) = Inr ()"
    by code_simp
  then obtain kid' raw s' where
    r: "rotate_key counter_key_env ''key_0'' (snd demo_created) = (Inr (kid', raw), s')"
    by (cases "rotate_key counter_key_env ''key_0'' (snd demo_created)";
        cases "fst (rotate_key counter_key_env ''key_0'' (snd demo_created))") auto
  from rotate_hands_over [OF demo_keys_ok(1) counter_key_env_ok(1) r] r show ?thesis by blast
qed

text \<open>
  Who a request is comes from a live key only: a principal is returned exactly with the
  tenant, role and id of an unrevoked key of the table whose hash verifies the secret that the
  bearer token carries; nothing is written.
\<close>

theorem principal_sound:
  assumes ok: "keys_ok (db s)"
    and run: "get_current_principal env header s = (Inr p, s')"
  shows "s' = s \<and> (\<exists>k raw. k \<in> set (api_keys (db s)) \<and> ak_revoked_at k = None \<and>
    header = Some (''Bearer '' @ ak_key_id k @ ''.'' @ raw) \<and>
    hasher_verify env (ak_hashed_secret k) raw = Verified \<and>
    pr_key_id p = ak_key_id k \<and> pr_tenant_id p = ak_tenant k \<and>
    role_of_value (ak_role k) = Inr (pr_role p))"
proof -
  from run obtain h kid raw where h: "header = Some h" "take 7 h = ''Bearer ''"
      "split_token (drop 7 h) = Some (kid, raw)"
    by (auto simp: get_current_principal_def throw_def split: option.splits if_splits prod.splits)
  then have tok: "h = ''Bearer '' @ kid @ ''.'' @ raw"
    using split_token_Some [OF h(3)] append_take_drop_id [of 7 h] by metis
  from run h obtain k where k: "active_key (db s) kid = Some k"
      "hasher_verify env (ak_hashed_secret k) raw = Verified"
    and p: "role_of_value (ak_role k) = Inr (pr_role p)" "pr_tenant_id p = ak_tenant k"
      "pr_key_id p = ak_key_id k" and s': "s' = s"
    by (auto simp: get_current_principal_def bind_e_def throw_def ret_def lift_result_def
        authenticate_result [OF ok] split: option.splits verification.splits sum.splits)
  then show ?thesis using ok tok h(1)
    by (auto simp: active_key_Some intro!: exI [of _ k] exI [of _ raw])
qed

theorem principal_sound_witness:
  "\<exists>k raw. k \<in> set (api_keys (db (snd demo_created))) \<and>
     Some ''Bearer key_0.secret1'' = Some (''Bearer '' @ ak_key_id k @ ''.'' @ raw)"
proof -
  have "map_sum id pr_tenant_id
      (fst (get_current_principal counter_key_env (Some ''Bearer key_0.secret1'') (snd demo_created))) =
      Inr ''acme''" by code_simp
  then obtain p s' where
    r: "get_current_principal counter_key_env (Some ''Bearer key_0.secret1'') (snd demo_created) = (Inr p, s')"
    by (cases "get_current_principal counter_key_env (Some ''Bearer key_0.secret1'') (snd demo_created)";
        cases "fst (get_current_principal counter_key_env (Some ''Bearer key_0.secret1'') (snd demo_created))")
      auto
  from principal_sound [OF demo_keys_ok(1) r] show ?thesis by blast
qed

text \<open>
  The role check is the order of privilege: it passes exactly the principals whose role is
  at least the minimum, unchanged, and answers 403 to the rest; a key of the lowest role passes
  no check above it and an admin passes all.
\<close>

theorem require_role_order:
  "require_role m p = (if m \<le> pr_role p then Inr p
     else Inl (HTTPException 403 (''requires role >= '' @ tenant_role_value m))) \<and>
   VIEWER < DEVELOPER \<and> DEVELOPER < ADMIN \<and> m \<le> ADMIN"
  by (cases m) (simp_all add: require_role_def less_eq_tenant_role_def less_tenant_role_def not_less)

end
