(* ===== verification/Toolbox.thy ===== *)
theory Toolbox
  imports Runtime_Results Calculator Sql_Tool Http_Tool Knowledge_Base Tenancy
begin

text \<open>
  The four tools as the runtime calls them, and the registry that \<open>_build_tools\<close> of
  \<open>api/routes_agent.py\<close> makes of them for a request. Argument validation (pydantic), the
  syntax-tree parser, the resolver, the HTTP client and the database are the parameters
  \<open>tool_deps\<close>; \<open>'f\<close> are the numbers that are not integers.
\<close>

section \<open>What the tools are given\<close>

record ('w, 'f, 's) tool_deps =
  td_validate :: "string \<Rightarrow> jdict \<Rightarrow> string + jdict"
  td_schema :: "string \<Rightarrow> jdict"
  td_num_ops :: "'f num_ops"
  td_parse :: "string \<Rightarrow> 'f parsed"
  td_float_json :: "'f \<Rightarrow> json"
  td_docs :: "kb_doc list"
  td_sql :: "string \<Rightarrow> int \<Rightarrow> 's \<Rightarrow> sql_outcome \<times> 's"
  td_http :: "'w http_env"
  td_allowed_domains :: "string list"

text \<open>A field of the validated arguments.\<close>

definition str_arg :: "jdict \<Rightarrow> string \<Rightarrow> string result" where
  "str_arg d k = (case map_of d k of Some (JStr x) \<Rightarrow> Inr x | _ \<Rightarrow> Inl (OtherError ''AttributeError''))"

definition int_arg :: "jdict \<Rightarrow> string \<Rightarrow> int result" where
  "int_arg d k = (case map_of d k of Some (JInt x) \<Rightarrow> Inr x | _ \<Rightarrow> Inl (OtherError ''AttributeError''))"

definition num_json :: "('f \<Rightarrow> json) \<Rightarrow> 'f num \<Rightarrow> json" where
  "num_json fj v = (case v of PyInt n \<Rightarrow> JInt n | PyFloat x \<Rightarrow> fj x)"

text \<open>A computation on the outside world that may raise.\<close>

definition in_world :: "('w, 'a) eff \<Rightarrow> (('w, 'b) cb_world_scheme, 'a) eff" where
  "in_world m s = (let (r, w) = m (world s) in (r, s\<lparr>world := w\<rparr>))"

text \<open>\<open>Settings.http_tool_allowed_domains_list\<close>.\<close>

fun split_on :: "char \<Rightarrow> string \<Rightarrow> string \<Rightarrow> string list" where
  "split_on sep part [] = [part]"
| "split_on sep part (c # s) = (if c = sep then part # split_on sep [] s else split_on sep (part @ [c]) s)"

definition allowed_domains_list :: "string \<Rightarrow> string list" where
  "allowed_domains_list setting = filter (\<lambda>d. d \<noteq> []) (map py_strip (split_on CHR '','' [] setting))"

section \<open>The tools\<close>

definition calculator_tool :: "('w, 'f, ('w, 'b) gw_state_scheme) tool_deps \<Rightarrow>
    ('w, 'b) gw_state_scheme tool" where
  "calculator_tool td =
     \<lparr>tool_name = ''calculator'',
      tool_description = ''Evaluate an arithmetic expression. Supports + - * / // % ** and the functions sqrt, abs, round, min, max, pow, log, log10, floor, ceil.'',
      tool_schema = td_schema td ''CalculatorArgs'', tool_timeout_s = 2,
      tool_validate = td_validate td ''CalculatorArgs'',
      tool_run = (\<lambda>timeout args. lift_result (case str_arg args ''expression'' of
        Inl e \<Rightarrow> Inl e
      | Inr expression \<Rightarrow>
          map_sum id (num_json (td_float_json td)) (run_calculator (td_num_ops td) (td_parse td) expression)))\<rparr>"

definition knowledge_base_tool :: "('w, 'f, ('w, 'b) gw_state_scheme) tool_deps \<Rightarrow>
    ('w, 'b) gw_state_scheme tool" where
  "knowledge_base_tool td =
     \<lparr>tool_name = ''knowledge_base_search'',
      tool_description = ''Search the internal knowledge base for documents relevant to a query.'',
      tool_schema = td_schema td ''KnowledgeBaseSearchArgs'', tool_timeout_s = 3,
      tool_validate = td_validate td ''KnowledgeBaseSearchArgs'',
      tool_run = (\<lambda>timeout args. lift_result (case (str_arg args ''query'', int_arg args ''top_k'') of
        (Inl e, _) \<Rightarrow> Inl e
      | (_, Inl e) \<Rightarrow> Inl e
      | (Inr q, Inr top_k) \<Rightarrow> Inr (kb_search (td_docs td) q top_k)))\<rparr>"

definition sql_tool :: "('w, 'f, ('w, 'b) gw_state_scheme) tool_deps \<Rightarrow>
    ('w, 'b) gw_state_scheme tool" where
  "sql_tool td =
     \<lparr>tool_name = ''sql_query_readonly'',
      tool_description = ''Run a read-only SQL SELECT query and return up to 100 rows. INSERT/UPDATE/DELETE/DDL statements are rejected.'',
      tool_schema = td_schema td ''SqlReadOnlyArgs'', tool_timeout_s = 5,
      tool_validate = td_validate td ''SqlReadOnlyArgs'',
      tool_run = (\<lambda>timeout args. case str_arg args ''query'' of
        Inl e \<Rightarrow> throw e
      | Inr q \<Rightarrow> run_sql (td_sql td) q)\<rparr>"

definition http_tool :: "('w, 'f, ('w, 'b) gw_state_scheme) tool_deps \<Rightarrow>
    ('w, 'b) gw_state_scheme tool" where
  "http_tool td =
     \<lparr>tool_name = ''http_get'',
      tool_description = ''Fetch a URL via HTTP GET. Only hosts in the configured allowlist are permitted.'',
      tool_schema = td_schema td ''HttpAllowlistArgs'', tool_timeout_s = 8,
      tool_validate = td_validate td ''HttpAllowlistArgs'',
      tool_run = (\<lambda>timeout args. case str_arg args ''url'' of
        Inl e \<Rightarrow> throw e
      | Inr url \<Rightarrow> in_world (run_http (td_http td) (td_allowed_domains td) timeout url))\<rparr>"

definition build_tools :: "('w, 'f, ('w, 'b) gw_state_scheme) tool_deps \<Rightarrow>
    (string \<times> ('w, 'b) gw_state_scheme tool) list" where
  "build_tools td = tool_registry [calculator_tool td, knowledge_base_tool td, sql_tool td, http_tool td]"

section \<open>The registry\<close>

lemma build_tools_eq:
  "build_tools td = [(''calculator'', calculator_tool td), (''knowledge_base_search'', knowledge_base_tool td),
     (''sql_query_readonly'', sql_tool td), (''http_get'', http_tool td)]"
  by (simp add: build_tools_def tool_registry_def calculator_tool_def knowledge_base_tool_def sql_tool_def
      http_tool_def)

text \<open>
  What the SQL tool promises of the statements it executes, which are the validated queries in
  their wrapping and nothing else: one of them changes nothing the gateway keeps. A function with
  side effects that such a query could call is outside this promise, as is the state of
  the transaction: PostgreSQL aborts it when a statement fails, and later statements of the same
  session then fail too.
\<close>

definition sql_reads_only :: "('w, 'f, ('w, 'b) gw_state_scheme) tool_deps \<Rightarrow> bool" where
  "sql_reads_only td \<longleftrightarrow> (\<forall>sql q s. sql_validate sql = Inr q \<longrightarrow>
     (let s' = snd (td_sql td (wrapped_query q) max_rows s)
      in db s' = db s \<and> obs s' = obs s \<and> breakers s' = breakers s \<and> committed s' = committed s))"

lemma in_world_frame [simp]:
  "db (snd (in_world m s)) = db s" "obs (snd (in_world m s)) = obs s"
  "breakers (snd (in_world m s)) = breakers s" "committed (snd (in_world m s)) = committed s"
  by (simp_all add: in_world_def split: prod.splits)

lemma run_sql_state:
  "snd (run_sql execute sql s) = s \<or>
   (\<exists>q. sql_validate sql = Inr q \<and>
      snd (run_sql execute sql s) = snd (execute (wrapped_query q) max_rows s))"
  by (auto simp: run_sql_def Let_def split: sum.splits prod.splits sql_outcome.splits)

lemma run_sql_frame:
  assumes "sql_reads_only td"
  shows "db (snd (run_sql (td_sql td) q s)) = db s" "obs (snd (run_sql (td_sql td) q s)) = obs s"
    "breakers (snd (run_sql (td_sql td) q s)) = breakers s"
    "committed (snd (run_sql (td_sql td) q s)) = committed s"
  using run_sql_state [of "td_sql td" q s] assms by (auto simp: sql_reads_only_def Let_def)

lemma build_tools_contained:
  assumes "ag_tools ag = build_tools td" and "sql_reads_only td"
  shows "tools_contained ag"
  unfolding tools_contained_def assms(1) build_tools_eq
  by (auto simp: calculator_tool_def knowledge_base_tool_def sql_tool_def http_tool_def lift_result_def
      throw_def run_sql_frame [OF assms(2)] split: sum.splits)

end
