(* ===== verification/Api.thy ===== *)
theory Api
  imports Toolbox
begin

text \<open>
  The HTTP routes (\<open>api/routes_chat.py\<close>, \<open>routes_agent.py\<close>, \<open>routes_cost.py\<close>,
  \<open>routes_admin.py\<close>) and the life of a request: a database session (\<open>db/session.py\<close>) that
  sees what is committed and is closed at the end, so that what the route has not committed is
  gone; the dependency \<open>require_role\<close>; then the route. FastAPI's parsing of bodies and paths
  is before the model, which starts with the parsed input. Requests are served one after the
  other.
\<close>

section \<open>The application\<close>

text \<open>\<open>app.state\<close> (\<open>main.py\<close>), and what the tools of a request are built from.\<close>

record ('w, 'f, 's) app =
  app_router :: "'w router"
  app_guardrails :: policy_set
  app_pricing :: pricing_table
  app_tenants :: tenant_registry
  app_tools :: "('w, 'f, 's) tool_deps"

definition commit :: "(('w, 'b) gw_state_scheme, unit) eff" where
  "commit s = (Inr (), s\<lparr>committed := db s\<rparr>)"

definition with_session :: "(('w, 'b) gw_state_scheme, 'a) eff \<Rightarrow> (('w, 'b) gw_state_scheme, 'a) eff" where
  "with_session m s =
     (let (r, s') = m (s\<lparr>db := committed s\<rparr>) in (r, s'\<lparr>db := committed s'\<rparr>))"

text \<open>\<open>Depends(require_role(minimum))\<close> in front of a route.\<close>

definition with_role :: "('w, 'e) key_env_scheme \<Rightarrow> tenant_role \<Rightarrow> string option \<Rightarrow>
    (principal \<Rightarrow> (('w, 'b) gw_state_scheme, 'a) eff) \<Rightarrow> (('w, 'b) gw_state_scheme, 'a) eff" where
  "with_role env minimum authorization route_fn =
     bind_e (get_current_principal env authorization) (\<lambda>p.
     bind_e (lift_result (require_role minimum p)) route_fn)"

text \<open>\<open>HTTPException(status, detail)\<close>; without a detail Starlette takes the phrase of the status.\<close>

definition http_error :: "nat \<Rightarrow> string \<Rightarrow> string option \<Rightarrow> exn" where
  "http_error status phrase detail =
     HTTPException status (case detail of None \<Rightarrow> phrase | Some m \<Rightarrow> m)"

section \<open>Formatting\<close>

text \<open>\<open>f"{x:.nf}"\<close> of a float: the exact value, rounded half to even.\<close>

definition round_even :: "real \<Rightarrow> int" where
  "round_even y =
     (let f = \<lfloor>y\<rfloor>; r = y - of_int f
      in if 2 * r < 1 then f else if 2 * r > 1 then f + 1 else if even f then f else f + 1)"

definition pad_zeros :: "nat \<Rightarrow> string \<Rightarrow> string" where
  "pad_zeros n s = replicate (n - length s) CHR ''0'' @ s"

definition fixed_str :: "nat \<Rightarrow> real \<Rightarrow> string" where
  "fixed_str n x =
     (let k = nat (round_even (\<bar>x\<bar> * 10 ^ n))
      in (if x < 0 then ''-'' else []) @ nat_str (k div 10 ^ n) @ ''.'' @
         pad_zeros n (nat_str (k mod 10 ^ n)))"

text \<open>\<open>isoformat()\<close> of a datetime in UTC.\<close>

definition isoformat :: "datetime \<Rightarrow> string" where
  "isoformat t =
     (let two = (\<lambda>n. pad_zeros 2 (int_str n))
      in pad_zeros 4 (int_str (dt_year t)) @ ''-'' @ two (dt_month t) @ ''-'' @ two (dt_day t) @ ''T'' @
         two (dt_hour t) @ '':'' @ two (dt_minute t) @ '':'' @ two (dt_second t) @
         (if dt_micro t = 0 then [] else ''.'' @ pad_zeros 6 (int_str (dt_micro t))) @ ''+00:00'')"

section \<open>Chat completions\<close>

record chat_in =
  ci_messages :: "chat_message list"
  ci_data_classification :: string
  ci_cost_tier :: string
  ci_model :: string
  ci_temperature :: real
  ci_max_output_tokens :: int

record chat_out =
  co_request_id :: string
  co_provider :: string
  co_model :: string
  co_content :: string
  co_input_tokens :: int
  co_output_tokens :: int
  co_finish_reason :: string

definition last_user_message :: "chat_message list \<Rightarrow> string" where
  "last_user_message messages =
     (case find (\<lambda>m. msg_role m = USER) (rev messages) of None \<Rightarrow> [] | Some m \<Rightarrow> msg_content m)"

definition audit_chat_hits :: "('w, 'e) gw_env_scheme \<Rightarrow> principal \<Rightarrow> string \<Rightarrow>
    guardrail_hit list \<Rightarrow> (('w, 'b) gw_state_scheme, unit) eff" where
  "audit_chat_hits env p action hits =
     for_e (\<lambda>hit. discard (record_audit env
       ((audit_args (pr_tenant_id p) action)
          \<lparr>aa_actor := pr_key_id p, aa_policy_rule := Some (gh_rule hit),
           aa_policy_action := Some (gh_action hit),
           aa_detail := Some [(''matches'', JList (map JStr (gh_detail hit)))]\<rparr>))) hits"

definition chat_request_of :: "chat_in \<Rightarrow> string \<Rightarrow> uuid \<Rightarrow> chat_request" where
  "chat_request_of body tenant u =
     \<lparr>req_messages = ci_messages body, req_model = ci_model body, req_tools = [],
      req_temperature = ci_temperature body, req_max_output_tokens = ci_max_output_tokens body,
      req_tenant_id = tenant, req_request_id = uuid_str u\<rparr>"

definition is_no_healthy :: "exn \<Rightarrow> bool" where
  "is_no_healthy e = (case e of NoHealthyProviderError m \<Rightarrow> True | _ \<Rightarrow> False)"

text \<open>The two handlers of the call to the router: commit, then 503 or 502.\<close>

definition chat_provider_failed :: "exn \<Rightarrow> (('w, 'b) gw_state_scheme, 'a) eff" where
  "chat_provider_failed e =
     (if is_no_healthy e then bind_e commit (\<lambda>_. throw (HTTPException 503 (exn_str e)))
      else if is_provider_error e then bind_e commit (\<lambda>_. throw (HTTPException 502 (exn_str e)))
      else throw e)"

text \<open>The rest of the route, from the response of a provider on.\<close>

definition chat_answered :: "('w, 'e) key_env_scheme \<Rightarrow> ('w, 'f, ('w, 'b) gw_state_scheme) app \<Rightarrow>
    principal \<Rightarrow> string option \<Rightarrow> uuid \<Rightarrow> chat_response \<Rightarrow> (('w, 'b) gw_state_scheme, chat_out) eff" where
  "chat_answered env app p policy u resp =
     bind_e (lift_result (screen_response (app_guardrails app) (msg_content (resp_message resp)) policy)) (\<lambda>post.
     bind_e (audit_chat_hits env p ''guardrail_response'' (gr_hits post)) (\<lambda>_.
     if \<not> gr_allowed post
     then bind_e commit (\<lambda>_. throw (http_error 502 ''Bad Gateway'' (gr_block_reason post)))
     else
       bind_e (record_cost env (app_pricing app)
         \<lparr>ca_tenant = pr_tenant_id p, ca_provider_name = resp_provider_name resp,
          ca_model = resp_model resp, ca_input_tokens = input_tokens (resp_usage resp),
          ca_output_tokens = output_tokens (resp_usage resp), ca_run_id = None\<rparr>) (\<lambda>_.
       bind_e commit (\<lambda>_.
       ret \<lparr>co_request_id = uuid_str u, co_provider = resp_provider_name resp,
            co_model = resp_model resp, co_content = gr_text post,
            co_input_tokens = input_tokens (resp_usage resp),
            co_output_tokens = output_tokens (resp_usage resp),
            co_finish_reason = resp_finish_reason resp\<rparr>))))"

definition chat_policy :: "('w, 'f, 's) app \<Rightarrow> principal \<Rightarrow> string option" where
  "chat_policy app p = map_option tn_guardrail_policy (get_tenant (app_tenants app) (pr_tenant_id p))"

definition create_chat_completion :: "('w, 'e) key_env_scheme \<Rightarrow>
    ('w, 'f, ('w, 'b) gw_state_scheme) app \<Rightarrow> chat_in \<Rightarrow> principal \<Rightarrow>
    (('w, 'b) gw_state_scheme, chat_out) eff" where
  "create_chat_completion env app body p =
     (let policy = chat_policy app p in
      bind_e (lift_result (screen_request (app_guardrails app) (last_user_message (ci_messages body)) policy))
        (\<lambda>pre.
      bind_e (audit_chat_hits env p ''guardrail_request'' (gr_hits pre)) (\<lambda>_.
      if \<not> gr_allowed pre
      then bind_e commit (\<lambda>_. throw (http_error 400 ''Bad Request'' (gr_block_reason pre)))
      else
        bind_e (from_world (uuid4 env)) (\<lambda>u.
        bind_e (catch_e (route env (app_router app) (chat_request_of body (pr_tenant_id p) u)
          \<lparr>ctx_tenant_id = pr_tenant_id p, ctx_data_classification = ci_data_classification body,
           ctx_cost_tier = ci_cost_tier body\<rparr>)) (\<lambda>r.
          case r of
            Inl e \<Rightarrow> chat_provider_failed e
          | Inr resp \<Rightarrow> chat_answered env app p policy u resp)))))"

section \<open>Agent runs\<close>

record agent_in =
  ai_agent_name :: string
  ai_system_prompt :: string
  ai_user_message :: string
  ai_data_classification :: string
  ai_cost_tier :: string
  ai_max_steps :: int
  ai_token_budget :: int

text \<open>\<open>AgentRunOut\<close> has the fields of the runtime's result.\<close>

record agent_detail =
  ad_run_id :: uuid
  ad_status :: string
  ad_final_output :: "string option"
  ad_total_input_tokens :: int
  ad_total_output_tokens :: int
  ad_steps :: "step_record list"

record agent_summary =
  as_run_id :: uuid
  as_agent_name :: string
  as_status :: string
  as_step_count :: int
  as_total_input_tokens :: int
  as_total_output_tokens :: int
  as_created_at :: string
  as_completed_at :: "string option"

text \<open>The runtime that the route builds for a request.\<close>

definition request_runtime :: "('w, 'f, ('w, 'b) gw_state_scheme) app \<Rightarrow> agent_in \<Rightarrow>
    ('w, ('w, 'b) gw_state_scheme) runtime" where
  "request_runtime app body =
     \<lparr>ag_router = app_router app, ag_tools = build_tools (app_tools app),
      ag_config = default_config\<lparr>ac_max_steps := ai_max_steps body, ac_token_budget := ai_token_budget body\<rparr>,
      ag_guardrails = Some (app_guardrails app), ag_pricing = Some (app_pricing app), ag_audits = True\<rparr>"

definition budget_exhausted :: "('w, 'e) key_env_scheme \<Rightarrow> principal \<Rightarrow> budget_check \<Rightarrow>
    (('w, 'b) gw_state_scheme, 'a) eff" where
  "budget_exhausted env p budget =
     bind_e (discard (record_audit env
       ((audit_args (pr_tenant_id p) ''budget_hard_stop'')\<lparr>aa_actor := pr_key_id p\<rparr>))) (\<lambda>_.
     bind_e commit (\<lambda>_.
     throw (HTTPException 429 (''monthly budget exhausted: $'' @ fixed_str 4 (bc_month_to_date_usd budget) @
       '' of $'' @ fixed_str 2 (bc_monthly_budget_usd budget)))))"

definition agent_context :: "agent_in \<Rightarrow> principal \<Rightarrow> routing_context" where
  "agent_context body p =
     \<lparr>ctx_tenant_id = pr_tenant_id p, ctx_data_classification = ai_data_classification body,
      ctx_cost_tier = ai_cost_tier body\<rparr>"

text \<open>The route from the budget check's result on.\<close>

definition run_within_budget :: "('w, 'e) key_env_scheme \<Rightarrow> ('w, 'f, ('w, 'b) gw_state_scheme) app \<Rightarrow>
    agent_in \<Rightarrow> principal \<Rightarrow> tenant \<Rightarrow> (('w, 'b) gw_state_scheme, run_result) eff" where
  "run_within_budget env app body p tn =
     bind_e (run env (request_runtime app body) (pr_tenant_id p) (ai_agent_name body)
       (ai_system_prompt body) (ai_user_message body) (agent_context body p)
       (Some (tn_guardrail_policy tn))) (\<lambda>res.
     bind_e (discard (record_audit env
       ((audit_args (pr_tenant_id p) ''agent_run'')
          \<lparr>aa_run_id := Some (rr_run_id res), aa_actor := pr_key_id p,
           aa_input_tokens := rr_total_input_tokens res,
           aa_output_tokens := rr_total_output_tokens res\<rparr>))) (\<lambda>_.
     bind_e commit (\<lambda>_.
     ret res)))"

text \<open>The default threshold of \<open>BudgetEnforcer\<close>, the float 0.8.\<close>

definition soft_alert_threshold :: "('w, 'e) gw_env_scheme \<Rightarrow> real" where
  "soft_alert_threshold env = fl env (8 / 10)"

definition run_agent :: "('w, 'e) key_env_scheme \<Rightarrow> ('w, 'f, ('w, 'b) gw_state_scheme) app \<Rightarrow>
    agent_in \<Rightarrow> principal \<Rightarrow> (('w, 'b) gw_state_scheme, run_result) eff" where
  "run_agent env app body p =
     (case get_tenant (app_tenants app) (pr_tenant_id p) of
        None \<Rightarrow> throw (HTTPException 404 (''unknown tenant: '' @ pr_tenant_id p))
      | Some tn \<Rightarrow>
          bind_e (check_budget env (soft_alert_threshold env) (pr_tenant_id p) (tn_monthly_budget_usd tn)) (\<lambda>budget.
          if bc_status budget = HARD_STOP then budget_exhausted env p budget
          else run_within_budget env app body p tn))"

text \<open>The tenant that the queries of a principal are restricted to: none for an administrator.\<close>

definition tenant_filter :: "principal \<Rightarrow> string option" where
  "tenant_filter p = (if pr_role p = ADMIN then None else Some (pr_tenant_id p))"

definition run_summary :: "agent_run \<Rightarrow> agent_summary" where
  "run_summary r =
     \<lparr>as_run_id = run_pk r, as_agent_name = run_agent_name r, as_status = run_status r,
      as_step_count = run_step_count r, as_total_input_tokens = run_total_input_tokens r,
      as_total_output_tokens = run_total_output_tokens r, as_created_at = isoformat (run_created_at r),
      as_completed_at = map_option isoformat (run_completed_at r)\<rparr>"

definition list_agent_runs :: "('w, 'e) key_env_scheme \<Rightarrow> int \<Rightarrow> principal \<Rightarrow>
    (('w, 'b) gw_state_scheme, agent_summary list) eff" where
  "list_agent_runs env limit p =
     bind_e (list_runs env (tenant_filter p) limit) (\<lambda>runs. ret (map run_summary runs))"

definition is_value_error :: "exn \<Rightarrow> bool" where
  "is_value_error e = (case e of ValueError m \<Rightarrow> True | _ \<Rightarrow> False)"

definition or_not_found :: "(('w, 'b) gw_state_scheme, 'a) eff \<Rightarrow> (('w, 'b) gw_state_scheme, 'a) eff" where
  "or_not_found m =
     bind_e (catch_e m) (\<lambda>r.
       case r of
         Inr x \<Rightarrow> ret x
       | Inl e \<Rightarrow> if is_value_error e then throw (HTTPException 404 (exn_str e)) else throw e)"

definition get_agent_run :: "('w, 'e) key_env_scheme \<Rightarrow> uuid \<Rightarrow> principal \<Rightarrow>
    (('w, 'b) gw_state_scheme, agent_detail) eff" where
  "get_agent_run env rid p =
     bind_e (or_not_found (replay env rid (tenant_filter p))) (\<lambda>rep.
     ret \<lparr>ad_run_id = rep_run_id rep, ad_status = rep_status rep, ad_final_output = rep_final_output rep,
          ad_total_input_tokens = rep_total_input_tokens rep,
          ad_total_output_tokens = rep_total_output_tokens rep, ad_steps = rep_steps rep\<rparr>)"

section \<open>Cost report\<close>

record cost_report =
  cr_tenant_id :: string
  cr_month_to_date_usd :: real
  cr_monthly_budget_usd :: real
  cr_percent_used :: real
  cr_status :: string

definition get_cost_report :: "('w, 'e) key_env_scheme \<Rightarrow> ('w, 'f, ('w, 'b) gw_state_scheme) app \<Rightarrow>
    string option \<Rightarrow> principal \<Rightarrow> (('w, 'b) gw_state_scheme, cost_report) eff" where
  "get_cost_report env app tenant_id p =
     (let target = opt_str_or tenant_id (pr_tenant_id p) in
      if pr_role p \<noteq> ADMIN \<and> target \<noteq> pr_tenant_id p
      then throw (HTTPException 403 ''cannot view another tenant's cost report'')
      else
      (case get_tenant (app_tenants app) target of
         None \<Rightarrow> throw (HTTPException 404 (''unknown tenant: '' @ target))
       | Some tn \<Rightarrow>
           bind_e (check_budget env (soft_alert_threshold env) target (tn_monthly_budget_usd tn)) (\<lambda>b.
           ret \<lparr>cr_tenant_id = target, cr_month_to_date_usd = bc_month_to_date_usd b,
                cr_monthly_budget_usd = bc_monthly_budget_usd b, cr_percent_used = bc_percent_used b,
                cr_status = budget_status_value (bc_status b)\<rparr>)))"

section \<open>API keys\<close>

record api_key_out =
  ko_key_id :: string
  ko_raw_secret :: string
  ko_tenant_id :: string
  ko_role :: tenant_role

definition create_api_key :: "('w, 'e) key_env_scheme \<Rightarrow> string \<Rightarrow> tenant_role \<Rightarrow> principal \<Rightarrow>
    (('w, 'b) gw_state_scheme, api_key_out) eff" where
  "create_api_key env tenant_id role p =
     bind_e (create_key env tenant_id role) (\<lambda>(key_id, raw_secret).
     bind_e commit (\<lambda>_.
     ret \<lparr>ko_key_id = key_id, ko_raw_secret = raw_secret, ko_tenant_id = tenant_id, ko_role = role\<rparr>))"

definition rotate_api_key :: "('w, 'e) key_env_scheme \<Rightarrow> string \<Rightarrow> principal \<Rightarrow>
    (('w, 'b) gw_state_scheme, api_key_out) eff" where
  "rotate_api_key env key_id p =
     bind_e (or_not_found (rotate_key env key_id)) (\<lambda>(new_key_id, raw_secret).
     bind_e commit (\<lambda>_.
     bind_e (find_active new_key_id) (\<lambda>found.
       case found of
         None \<Rightarrow> throw (AssertionError [])
       | Some k \<Rightarrow>
           bind_e (lift_result (role_of_value (ak_role k))) (\<lambda>role.
           ret \<lparr>ko_key_id = new_key_id, ko_raw_secret = raw_secret, ko_tenant_id = ak_tenant k,
                ko_role = role\<rparr>))))"

definition revoke_api_key :: "('w, 'e) key_env_scheme \<Rightarrow> string \<Rightarrow> principal \<Rightarrow>
    (('w, 'b) gw_state_scheme, unit) eff" where
  "revoke_api_key env key_id p = bind_e (revoke_key env key_id) (\<lambda>_. commit)"

section \<open>Serving a request\<close>

datatype api_request =
    PostChat chat_in
  | PostRun agent_in
  | GetRuns int
  | GetRun uuid
  | GetCostReport "string option"
  | PostKey string tenant_role
  | PostRotate string
  | PostRevoke string

datatype api_response =
    ChatOut chat_out
  | RunOut run_result
  | RunsOut "agent_summary list"
  | DetailOut agent_detail
  | ReportOut cost_report
  | KeyOut api_key_out
  | NoContent

text \<open>The routes with the role each requires.\<close>

fun minimum_role :: "api_request \<Rightarrow> tenant_role" where
  "minimum_role (PostChat body) = DEVELOPER"
| "minimum_role (PostRun body) = DEVELOPER"
| "minimum_role (GetRuns limit) = VIEWER"
| "minimum_role (GetRun rid) = VIEWER"
| "minimum_role (GetCostReport t) = VIEWER"
| "minimum_role (PostKey t r) = ADMIN"
| "minimum_role (PostRotate kid) = ADMIN"
| "minimum_role (PostRevoke kid) = ADMIN"

definition map_e :: "('a \<Rightarrow> 'c) \<Rightarrow> ('s, 'a) eff \<Rightarrow> ('s, 'c) eff" where
  "map_e f m = bind_e m (\<lambda>x. ret (f x))"

fun route_of :: "('w, 'e) key_env_scheme \<Rightarrow> ('w, 'f, ('w, 'b) gw_state_scheme) app \<Rightarrow> api_request \<Rightarrow>
    principal \<Rightarrow> (('w, 'b) gw_state_scheme, api_response) eff" where
  "route_of env app (PostChat body) p = map_e ChatOut (create_chat_completion env app body p)"
| "route_of env app (PostRun body) p = map_e RunOut (run_agent env app body p)"
| "route_of env app (GetRuns limit) p = map_e RunsOut (list_agent_runs env limit p)"
| "route_of env app (GetRun rid) p = map_e DetailOut (get_agent_run env rid p)"
| "route_of env app (GetCostReport t) p = map_e ReportOut (get_cost_report env app t p)"
| "route_of env app (PostKey t r) p = map_e KeyOut (create_api_key env t r p)"
| "route_of env app (PostRotate kid) p = map_e KeyOut (rotate_api_key env kid p)"
| "route_of env app (PostRevoke kid) p = map_e (\<lambda>_. NoContent) (revoke_api_key env kid p)"

definition serve :: "('w, 'e) key_env_scheme \<Rightarrow> ('w, 'f, ('w, 'b) gw_state_scheme) app \<Rightarrow>
    string option \<Rightarrow> api_request \<Rightarrow> (('w, 'b) gw_state_scheme, api_response) eff" where
  "serve env app authorization req =
     with_session (with_role env (minimum_role req) authorization (route_of env app req))"

text \<open>A history of requests, each with its \<open>Authorization\<close> header; what one raises ends that one only.\<close>

fun serve_all :: "('w, 'e) key_env_scheme \<Rightarrow> ('w, 'f, ('w, 'b) gw_state_scheme) app \<Rightarrow>
    (string option \<times> api_request) list \<Rightarrow> ('w, 'b) gw_state_scheme \<Rightarrow> ('w, 'b) gw_state_scheme" where
  "serve_all env app [] s = s"
| "serve_all env app ((authorization, req) # reqs) s =
     serve_all env app reqs (snd (serve env app authorization req s))"

section \<open>A concrete application\<close>

text \<open>The shipped policies, a local provider that repeats the last message, and idle tools.\<close>

definition echo_chat :: "chat_request \<Rightarrow> nat \<Rightarrow> chat_response result \<times> nat" where
  "echo_chat req w =
     (Inr \<lparr>resp_message = chat_message ASSISTANT (case rev (req_messages req) of [] \<Rightarrow> [] | m # _ \<Rightarrow> msg_content m),
           resp_tool_calls = [], resp_usage = \<lparr>input_tokens = 3, output_tokens = 3\<rparr>,
           resp_provider_name = ''local'', resp_model = req_model req, resp_finish_reason = ''stop'',
           resp_raw = []\<rparr>, w + 1)"

definition idle_deps :: "(nat, unit, nat gw_state) tool_deps" where
  "idle_deps = \<lparr>td_validate = (\<lambda>m. Inr), td_schema = (\<lambda>m. []),
     td_num_ops = \<lparr>float_binop = (\<lambda>op x y. Inr (PyFloat ())), float_unop = (\<lambda>op x. Inr (PyFloat ())),
       call_builtin = (\<lambda>f xs. Inr (PyFloat ()))\<rparr>,
     td_parse = (\<lambda>t. SyntaxError ''unexpected''), td_float_json = (\<lambda>_. JNull), td_docs = [],
     td_sql = (\<lambda>q n s. (Rows [], s)),
     td_http = \<lparr>check_bracketed = (\<lambda>h. None), check_nfkc = (\<lambda>h. None), resolve = (\<lambda>h w. (Resolved [], w)),
       ip_text = (\<lambda>a. []), http_get = (\<lambda>t u w. (Response 200 [], w))\<rparr>,
     td_allowed_domains = []\<rparr>"

definition echo_app :: "(nat, unit, nat gw_state) app" where
  "echo_app = \<lparr>app_router = \<lparr>rt_policy = routing_yaml,
       rt_providers = [''local'' \<mapsto> \<lparr>prov_name = ''local'', prov_chat = echo_chat\<rparr>]\<rparr>,
     app_guardrails = guardrails_yaml, app_pricing = pricing_yaml, app_tenants = tenants_yaml,
     app_tools = idle_deps\<rparr>"

definition support_dev :: principal where
  "support_dev = \<lparr>pr_tenant_id = ''acme-support'', pr_role = DEVELOPER, pr_key_id = ''key_0''\<rparr>"

definition ask :: "string \<Rightarrow> chat_in" where
  "ask t = \<lparr>ci_messages = [chat_message USER t], ci_data_classification = ''internal'',
     ci_cost_tier = ''standard'', ci_model = [], ci_temperature = 2 / 10, ci_max_output_tokens = 1024\<rparr>"

lemma idle_reads_only: "sql_reads_only (app_tools echo_app)"
  by (simp add: sql_reads_only_def echo_app_def idle_deps_def)

end
