(* ===== verification/Api_Properties.thy ===== *)
theory Api_Properties
  imports Api
begin

text \<open>
  What a history of requests does: to the tables that are committed, to the keys, and to whoever
  sends one without the right key or role.
\<close>

section \<open>The contract of a session\<close>

text \<open>What never happens to the tables, the key table included.\<close>

definition history :: "database \<Rightarrow> database \<Rightarrow> bool" where
  "history d d' \<longleftrightarrow> (trace_ok d \<longrightarrow> trace_ok d') \<and> prefix (agent_steps d) (agent_steps d') \<and>
     prefix (audit_log d) (audit_log d') \<and> prefix (cost_entries d) (cost_entries d') \<and>
     keys_evolve d d'"

lemma history_refl [simp]: "history d d"
  by (simp add: history_def keys_evolve_refl)

lemma history_trans: "history a b \<Longrightarrow> history b c \<Longrightarrow> history a c"
  by (auto simp: history_def intro: prefix_order.trans keys_evolve_trans)

lemma ledger_history: "ledger d d' \<Longrightarrow> history d d'"
  by (simp add: ledger_def history_def keys_evolve_same)

lemma keys_history:
  assumes "keys_evolve d d'" and "d' = d\<lparr>api_keys := api_keys d'\<rparr>"
  shows "history d d'"
proof -
  have "agent_runs d' = agent_runs d" "agent_steps d' = agent_steps d" "audit_log d' = audit_log d"
    "cost_entries d' = cost_entries d" by (subst assms(2), simp)+
  then show ?thesis using assms(1) trace_ok_cong [of d' d] by (simp add: history_def)
qed

text \<open>
  The tables of the session only move along a history, and what is committed is either as
  before or one of its stations.
\<close>

definition proceeds :: "('w, 'b) gw_state_scheme \<Rightarrow> ('w, 'b) gw_state_scheme \<Rightarrow> bool" where
  "proceeds s s' \<longleftrightarrow> history (db s) (db s') \<and>
     (committed s' = committed s \<or> history (db s) (committed s'))"

lemma proceeds_trans: "proceeds a b \<Longrightarrow> proceeds b c \<Longrightarrow> proceeds a c"
  unfolding proceeds_def by (metis history_trans)

interpretation session: effect_rel proceeds
  by unfold_locales (simp add: proceeds_def, rule proceeds_trans)

lemma session_commit: "session.keeps commit"
  by (rule session.keepsI) (simp add: commit_def proceeds_def)

lemma session_steady:
  assumes "ledgers.keeps m" "steady.keeps m"
  shows "session.keeps m"
  using assms by (intro session.keepsI) (simp add: proceeds_def ledger_history ledgers.keepsR steady.keepsR)

lemma session_keys:
  assumes "\<And>s. keys_evolve (db s) (db (snd (m s)))"
    and "\<And>s. db (snd (m s)) = (db s)\<lparr>api_keys := api_keys (db (snd (m s)))\<rparr>"
    and "steady.keeps m"
  shows "session.keeps m"
  using assms by (intro session.keepsI) (simp add: proceeds_def keys_history steady.keepsR)

lemma session_run:
  "sql_reads_only (app_tools app) \<Longrightarrow>
     session.keeps (run env (request_runtime app body) t name sys usr c policy)"
  by (intro session_steady contained_run build_tools_contained) (simp_all add: request_runtime_def)

lemma session_parts:
  "session.keeps (from_world f)" "session.keeps (lift_result r)" "session.keeps (query q)"
  "session.keeps (record_audit env a)" "session.keeps (record_cost env pt c)"
  "session.keeps (route env rt rq ctx)"
  by (intro session_steady steady_parts steady_stores keeps_from_world keeps_lift_result
      keeps_record_audit keeps_record_cost keeps_route keeps_db steady.keepsI;
      simp add: query_def route_db)+

text \<open>The key operations write the key table only.\<close>

interpretation only_keys: effect_rel "\<lambda>s s'. db s' = (db s)\<lparr>api_keys := api_keys (db s')\<rparr>"
  by unfold_locales (simp, metis database.surjective database.update_convs(5))

lemma only_keys_parts:
  "only_keys.keeps (from_world f)" "only_keys.keeps (lift_result r)" "only_keys.keeps (query q)"
  by (rule only_keys.keepsI, simp add: query_def lift_result_def from_world_def split: prod.splits)+

lemma only_keys_store:
  assumes "\<And>d d'. f d = Some d' \<Longrightarrow> \<exists>ks. d' = d\<lparr>api_keys := ks\<rparr>"
  shows "only_keys.keeps (store f)"
proof (rule only_keys.keepsI)
  fix s
  show "db (snd (store f s)) = (db s)\<lparr>api_keys := api_keys (db (snd (store f s)))\<rparr>"
    using assms [of "db s"] by (cases "f (db s)") (auto simp: store_def)
qed

lemmas key_operation_defs = create_key_def revoke_key_def rotate_key_def mint_key_def find_active_def
  new_key_id_def new_secret_def

lemma only_keys_operations:
  "only_keys.keeps (create_key env t r)" "only_keys.keeps (revoke_key env kid)"
  "only_keys.keeps (rotate_key env kid)"
  unfolding key_operation_defs
  by (intro only_keys.keeps_rules only_keys_parts only_keys_store; auto)+

lemma steady_key_operations:
  "steady.keeps (create_key env t r)" "steady.keeps (revoke_key env kid)"
  "steady.keeps (rotate_key env kid)" "steady.keeps (find_active kid)"
  unfolding key_operation_defs by (intro steady_parts)+

lemma session_key_operations:
  "session.keeps (create_key env t r)" "session.keeps (revoke_key env kid)"
  "session.keeps (rotate_key env kid)" "session.keeps (find_active kid)"
proof -
  show "session.keeps (create_key env t r)"
    by (rule session_keys [OF create_evolves only_keys.keepsR [OF only_keys_operations(1)]
        steady_key_operations(1)])
  show "session.keeps (revoke_key env kid)"
    by (rule session_keys [OF revoke_evolves only_keys.keepsR [OF only_keys_operations(2)]
        steady_key_operations(2)])
  show "session.keeps (rotate_key env kid)"
    by (rule session_keys [OF rotate_evolves only_keys.keepsR [OF only_keys_operations(3)]
        steady_key_operations(3)])
  show "session.keeps (find_active kid)"
    unfolding find_active_def by (intro session.keeps_rules session_parts)
qed

section \<open>Every route proceeds\<close>

lemmas session_rules = session.keeps_rules session_parts session_commit session_key_operations

lemma session_reads:
  "session.keeps (check_budget env th t budget)" "session.keeps (list_runs env tf limit)"
  "session.keeps (replay env rid tf)" "session.keeps (get_current_principal env header)"
  unfolding check_budget_def month_to_date_usd_def list_runs_def replay_def get_run_def Let_def
    get_current_principal_def authenticate_def
  by (intro session_rules)+

lemma session_hits: "session.keeps (audit_chat_hits env p act hits)"
  unfolding audit_chat_hits_def by (intro session_rules)

lemma session_not_found: "session.keeps m \<Longrightarrow> session.keeps (or_not_found m)"
  unfolding or_not_found_def by (intro session_rules)

lemma session_chat: "session.keeps (create_chat_completion env app body p)"
  unfolding create_chat_completion_def chat_provider_failed_def chat_answered_def Let_def
  by (intro session_rules session_hits)

lemma session_agent:
  assumes "sql_reads_only (app_tools app)"
  shows "session.keeps (run_agent env app body p)"
  unfolding run_agent_def budget_exhausted_def run_within_budget_def
  by (intro session_rules session_reads session_run assms)

lemma session_route:
  assumes "sql_reads_only (app_tools app)"
  shows "session.keeps (route_of env app req p)"
  by (cases req)
    (auto simp: map_e_def list_agent_runs_def get_agent_run_def get_cost_report_def create_api_key_def
      rotate_api_key_def revoke_api_key_def Let_def
      intro!: session_rules session_reads session_hits session_not_found session_chat
        session_agent [OF assms])

lemma session_request:
  assumes "sql_reads_only (app_tools app)"
  shows "session.keeps (with_role env role header (route_of env app req))"
  unfolding with_role_def by (intro session_rules session_reads session_route assms)

section \<open>Histories of requests\<close>

lemma serve_history:
  assumes "sql_reads_only (app_tools app)"
  shows "history (committed s) (committed (snd (serve env app header req s)))"
  using session.keepsR [OF session_request [OF assms, of env "minimum_role req" header req],
      of "s\<lparr>db := committed s\<rparr>"]
  by (auto simp: serve_def with_session_def proceeds_def split: prod.splits)

lemma serve_all_history:
  "sql_reads_only (app_tools app) \<Longrightarrow> history (committed s) (committed (serve_all env app reqs s))"
proof (induction env app reqs s rule: serve_all.induct)
  case (2 env app header req reqs s)
  then show ?case using serve_history [of app s env header req] history_trans by auto
qed simp

text \<open>
  C1. The books survive every history of requests: whoever sends what, in whatever order, and
  whether or not a request fails, the committed step, audit and cost tables only grow at their
  ends, the totals of every committed run stay the sums over its steps, no key changes its owner,
  role or secret, a new key has a role of the enumeration or that of an older key, and a revoked
  key stays revoked.
\<close>

theorem requests_keep_books:
  assumes "sql_reads_only (app_tools app)"
  shows "let d = committed s; d' = committed (serve_all env app reqs s) in
    (trace_ok d \<longrightarrow> trace_ok d') \<and> prefix (agent_steps d) (agent_steps d') \<and>
    prefix (audit_log d) (audit_log d') \<and> prefix (cost_entries d) (cost_entries d') \<and>
    keys_evolve d d'"
  using serve_all_history [OF assms, of s env reqs] by (simp add: history_def Let_def)

theorem requests_keep_books_witness:
  "prefix (audit_log (committed start_state)) (audit_log (committed
     (serve_all counter_key_env echo_app [(None, GetRuns 5), (Some ''Bearer x.y'', PostRevoke ''key_0'')]
       start_state)))"
  using requests_keep_books [OF idle_reads_only, of start_state counter_key_env
    "[(None, GetRuns 5), (Some ''Bearer x.y'', PostRevoke ''key_0'')]"]
  by (simp only: Let_def)

section \<open>Who is let in\<close>

lemma principal_state: "snd (get_current_principal env header s) = s"
  by (auto simp: get_current_principal_def throw_def bind_e_def ret_def lift_result_def authenticate_def
      find_active_def query_def split: option.splits prod.splits sum.splits)

text \<open>
  C2. A request that is not let in has no effect and learns nothing: without a valid key the
  answer is the authentication error, with a role below the route's it is 403, in either case
  before the route runs, and nothing is written, called or logged.
\<close>

theorem rejected_requests_do_nothing:
  "case fst (get_current_principal env header (s\<lparr>db := committed s\<rparr>)) of
     Inl e \<Rightarrow> serve env app header req s = (Inl e, s\<lparr>db := committed s\<rparr>)
   | Inr p \<Rightarrow>
       if minimum_role req \<le> pr_role p then True
       else serve env app header req s =
         (Inl (HTTPException 403 (''requires role >= '' @ tenant_role_value (minimum_role req))),
          s\<lparr>db := committed s\<rparr>)"
  using principal_state [of env header "s\<lparr>db := committed s\<rparr>"]
  by (cases "get_current_principal env header (s\<lparr>db := committed s\<rparr>)")
    (auto simp: serve_def with_session_def with_role_def bind_e_def lift_result_def require_role_def
      less_eq_tenant_role_def split: sum.splits)

text \<open>A key that is revoked in a table authenticates no request that sees the table.\<close>

lemma revoked_refused:
  assumes "keys_ok (db s)" and "k \<in> set (api_keys (db s))" "ak_revoked_at k \<noteq> None"
    and "CHR ''.'' \<notin> set (ak_key_id k)"
  shows "get_current_principal env (Some (''Bearer '' @ ak_key_id k @ ''.'' @ raw)) s =
    (Inl (HTTPException 401 ''invalid or revoked API key''), s)"
proof -
  have "find_row ak_key_id (ak_key_id k) (api_keys (db s)) = Some k"
    using assms(1,2) by (simp add: keys_ok_def find_row_keyed)
  then have "active_key (db s) (ak_key_id k) = None" using assms(3) by (simp add: active_key_def)
  then show ?thesis
    using split_token_join [OF assms(4), of raw]
    by (simp add: get_current_principal_def bind_e_def throw_def authenticate_result [OF assms(1)])
qed

text \<open>
  C3. A revoked key is refused for good: after any history of requests, those of administrators
  who create and rotate keys included, a request that carries a key revoked before is answered
  401, whatever it asks for and whatever secret it carries, and does nothing.
\<close>

theorem revoked_key_locked_out:
  assumes sql: "sql_reads_only (app_tools app)" and ok: "keys_ok (committed s)"
    and k: "k \<in> set (api_keys (committed s))" "ak_revoked_at k \<noteq> None" "CHR ''.'' \<notin> set (ak_key_id k)"
    and later: "s' = serve_all env app reqs s"
  shows "serve env app (Some (''Bearer '' @ ak_key_id k @ ''.'' @ raw)) req s' =
    (Inl (HTTPException 401 ''invalid or revoked API key''), s'\<lparr>db := committed s'\<rparr>)"
proof -
  have "keys_evolve (committed s) (committed s')"
    using serve_all_history [OF sql, of s env reqs] by (simp add: history_def later)
  then obtain k' where ok': "keys_ok (committed s')" and k': "k' \<in> set (api_keys (committed s'))" "same_key k k'"
    using ok k(1) by (auto simp: keys_evolve_def)
  then have "ak_revoked_at k' \<noteq> None" "ak_key_id k' = ak_key_id k"
    using k(2) by (auto simp: same_key_def)
  with revoked_refused [of "s'\<lparr>db := committed s'\<rparr>" k' env raw] ok' k'(1) k(3)
  show ?thesis by (simp add: serve_def with_session_def with_role_def bind_e_def)
qed

theorem revoked_key_locked_out_witness:
  "\<exists>s'. serve counter_key_env echo_app (Some ''Bearer key_0.secret1'') (GetRuns 5) s' =
     (Inl (HTTPException 401 ''invalid or revoked API key''), s'\<lparr>db := committed s'\<rparr>)"
proof -
  let ?s = "(snd demo_revoked)\<lparr>committed := db (snd demo_revoked)\<rparr>"
  let ?k = "hd (api_keys (db (snd demo_revoked)))"
  have "api_keys (db (snd demo_revoked)) \<noteq> []" and k: "ak_revoked_at ?k \<noteq> None" "ak_key_id ?k = ''key_0''"
    using demo_revoked_facts by (cases "api_keys (db (snd demo_revoked))"; simp)+
  then have mem: "?k \<in> set (api_keys (committed ?s))" by simp
  have ok: "keys_ok (committed ?s)" using demo_keys_ok(2) by simp
  have dot: "CHR ''.'' \<notin> set (ak_key_id ?k)" by (simp add: k(2))
  from revoked_key_locked_out [OF idle_reads_only ok mem k(1) dot refl, where env = counter_key_env
      and reqs = "[(None, GetRuns 1)]" and raw = "''secret1''" and req = "GetRuns 5"]
  show ?thesis unfolding k(2) by auto
qed

text \<open>
  C4. A key works from the moment its creation is answered: the id and secret in the response,
  sent as a bearer token with the next request, stand for the tenant and role asked for, and no
  other secret does.
\<close>

theorem created_key_admits:
  assumes ok: "keys_ok (committed s)" and env: "hasher_ok env" "tokens_ok env"
    and req: "serve env app header (PostKey t r) s = (Inr (KeyOut out), s')"
  shows "get_current_principal env
      (Some (''Bearer '' @ ko_key_id out @ ''.'' @ raw)) (s'\<lparr>db := committed s'\<rparr>) =
    (if raw = ko_raw_secret out then Inr \<lparr>pr_tenant_id = t, pr_role = r, pr_key_id = ko_key_id out\<rparr>
     else Inl (HTTPException 401 ''invalid or revoked API key''), s'\<lparr>db := committed s'\<rparr>)"
proof -
  let ?s = "s\<lparr>db := committed s\<rparr>"
  from req obtain p s2 where run: "create_key env t r ?s = (Inr (ko_key_id out, ko_raw_secret out), s2)"
    and s': "s' = (s2\<lparr>committed := db s2\<rparr>)\<lparr>db := db s2\<rparr>"
    using principal_state [of env header ?s]
    by (auto simp: serve_def with_session_def with_role_def lift_result_def map_e_def create_api_key_def
        commit_def bind_e_def ret_def split: prod.splits sum.splits)
  have "keys_ok (db ?s)" using ok by simp
  from issued_key_authenticates [OF this env run, of "s'\<lparr>db := committed s'\<rparr>" raw] show ?thesis
    by (simp add: s')
qed

text \<open>An administrator's key is in the table.\<close>

definition admin_state :: "nat gw_state" where
  "admin_state = (let s = snd (create_key counter_key_env ''acme'' ADMIN start_state)
     in s\<lparr>committed := db s\<rparr>)"

theorem created_key_admits_witness:
  "\<exists>out s'. serve counter_key_env echo_app (Some ''Bearer key_0.secret1'') (PostKey ''acme-legal'' VIEWER)
       admin_state = (Inr (KeyOut out), s') \<and>
     fst (get_current_principal counter_key_env
       (Some (''Bearer '' @ ko_key_id out @ ''.'' @ ko_raw_secret out)) (s'\<lparr>db := committed s'\<rparr>)) =
     Inr \<lparr>pr_tenant_id = ''acme-legal'', pr_role = VIEWER, pr_key_id = ko_key_id out\<rparr>"
proof -
  let ?serve = "serve counter_key_env echo_app (Some ''Bearer key_0.secret1'') (PostKey ''acme-legal'' VIEWER)
    admin_state"
  have "isl (fst ?serve) = False" by code_simp
  then obtain r s' where r: "?serve = (Inr r, s')" by (cases ?serve; cases "fst ?serve") auto
  then obtain out where out: "?serve = (Inr (KeyOut out), s')"
    by (auto simp: serve_def with_session_def with_role_def map_e_def bind_e_def ret_def
        split: prod.splits sum.splits)
  have "keys_ok (db start_state)" by (simp add: start_state_def empty_db_def keys_ok_def keyed_def)
  then have ok: "keys_ok (committed admin_state)"
    using create_evolves [of start_state counter_key_env "''acme''" ADMIN]
    by (simp add: admin_state_def keys_evolve_def Let_def)
  from created_key_admits [OF ok counter_key_env_ok out] out show ?thesis by auto
qed

text \<open>
  C5. Roles stay well typed: if every stored key has a role of the enumeration, it is so after any
  history of requests, and then reading the credentials of a request never fails on a stored
  role: it gives a principal with the tenant and the role of a stored key, or answers 401, or
  raises what the password hasher raised.
\<close>

theorem stored_roles_known:
  assumes sql: "sql_reads_only (app_tools app)" and ok: "keys_ok (committed s)"
    and roles: "ak_role ` set (api_keys (committed s)) \<subseteq> range tenant_role_value"
    and later: "s' = serve_all env app reqs s"
  shows "ak_role ` set (api_keys (committed s')) \<subseteq> range tenant_role_value \<and>
    (case fst (get_current_principal env header (s'\<lparr>db := committed s'\<rparr>)) of
       Inr p \<Rightarrow> \<exists>k \<in> set (api_keys (committed s')). ak_role k = tenant_role_value (pr_role p) \<and>
         ak_tenant k = pr_tenant_id p
     | Inl e \<Rightarrow> (\<exists>m. e = HTTPException 401 m) \<or> (\<exists>h raw. hasher_verify env h raw = VerifyRaises e))"
proof -
  let ?s = "s'\<lparr>db := committed s'\<rparr>"
  have ev: "keys_evolve (committed s) (committed s')"
    using serve_all_history [OF sql, of s env reqs] by (simp add: history_def later)
  with ok have ok': "keys_ok (db ?s)"
    and "ak_role ` set (api_keys (db ?s)) \<subseteq> ak_role ` set (api_keys (committed s)) \<union> range tenant_role_value"
    by (simp_all add: keys_evolve_def)
  with roles have roles': "ak_role ` set (api_keys (db ?s)) \<subseteq> range tenant_role_value" by blast
  have found: "k \<in> set (api_keys (db ?s))" if "active_key (db ?s) kid = Some k" for kid k
    using that ok' by (simp add: active_key_Some)
  have known: "\<exists>r. ak_role k = tenant_role_value r" if "active_key (db ?s) kid = Some k" for kid k
    using roles' found [OF that] by blast
  show ?thesis
    using roles' found known
    by (fastforce simp: get_current_principal_def throw_def bind_e_def lift_result_def ret_def
        authenticate_result [OF ok'] split: option.splits verification.splits)
qed

theorem stored_roles_known_witness:
  "ak_role ` set (api_keys (committed (serve_all counter_key_env echo_app
     [(Some ''Bearer key_0.secret1'', PostKey ''acme-legal'' VIEWER)] admin_state))) \<subseteq> range tenant_role_value"
proof (rule conjunct1 [OF stored_roles_known [OF idle_reads_only _ _ refl]])
  have ok: "keys_ok (db start_state)" by (simp add: start_state_def empty_db_def keys_ok_def keyed_def)
  have "keys_evolve (db start_state) (committed admin_state)"
    using create_evolves [of start_state counter_key_env "''acme''" ADMIN] by (simp add: admin_state_def Let_def)
  with ok show "keys_ok (committed admin_state)"
    and "ak_role ` set (api_keys (committed admin_state)) \<subseteq> range tenant_role_value"
    by (auto simp: keys_evolve_def start_state_def empty_db_def)
qed

end
