(* ===== verification/Api_Results.thy ===== *)
theory Api_Results
  imports Api
begin

text \<open>What the routes answer, and what they leave committed.\<close>

section \<open>Reads\<close>

text \<open>Two databases that look the same to a tenant: its runs, their steps, and its costs.\<close>

definition same_view :: "string \<Rightarrow> database \<Rightarrow> database \<Rightarrow> bool" where
  "same_view t d d' \<longleftrightarrow>
     filter (\<lambda>r. run_tenant r = t) (agent_runs d') = filter (\<lambda>r. run_tenant r = t) (agent_runs d) \<and>
     (\<forall>r \<in> set (agent_runs d). run_tenant r = t \<longrightarrow> steps_of d' (run_pk r) = steps_of d (run_pk r)) \<and>
     filter (\<lambda>e. ce_tenant e = t) (cost_entries d') = filter (\<lambda>e. ce_tenant e = t) (cost_entries d)"

lemma filter_conj: "filter (\<lambda>x. P x \<and> Q x) xs = filter P (filter Q xs)"
  by (induction xs) auto

text \<open>Two runs that return the same go on the same, if the rest does not look at the state.\<close>

lemma fst_bind:
  assumes "fst (m s1) = fst (m s2)" and "\<And>x a b. fst (f x a) = fst (f x b)"
  shows "fst (bind_e m f s1) = fst (bind_e m f s2)"
  using assms by (cases "m s1"; cases "m s2") (auto simp: bind_e_def split: sum.splits)

lemma fst_catch: "fst (m s1) = fst (m s2) \<Longrightarrow> fst (catch_e m s1) = fst (catch_e m s2)"
  by (auto simp: catch_e_def split: prod.splits)

lemma fst_not_found: "fst (m s1) = fst (m s2) \<Longrightarrow> fst (or_not_found m s1) = fst (or_not_found m s2)"
  unfolding or_not_found_def
  by (intro fst_bind fst_catch) (auto simp: ret_def throw_def split: sum.splits)

lemma scalar_one_or_none_in: "scalar_one_or_none rows = Inr (Some r) \<Longrightarrow> r \<in> set rows"
  by (auto simp: scalar_one_or_none_def split: list.splits)

lemma same_view_replay:
  assumes "same_view t d d'"
  shows "fst (replay env rid (Some t) (s\<lparr>db := d'\<rparr>)) = fst (replay env rid (Some t) (s\<lparr>db := d\<rparr>))"
proof -
  let ?q = "\<lambda>d. scalar_one_or_none (filter (\<lambda>r. run_pk r = rid \<and> run_tenant r = t) (agent_runs d))"
  have q: "?q d' = ?q d" using assms unfolding filter_conj by (simp only: same_view_def)
  have steps: "filter (\<lambda>st. st_run_id st = rid) (agent_steps d') = filter (\<lambda>st. st_run_id st = rid) (agent_steps d)"
    if "?q d = Inr (Some r)" for r
  proof -
    from scalar_one_or_none_in [OF that] have "r \<in> set (agent_runs d)" "run_tenant r = t" "run_pk r = rid"
      by auto
    then show ?thesis using assms by (auto simp: same_view_def steps_of_def)
  qed
  have get: "get_run rid (Some t) (s\<lparr>db := e\<rparr>) = (?q e, s\<lparr>db := e\<rparr>)" for e
    by (simp add: get_run_def trace_defs)
  show ?thesis
    using q steps by (cases "?q d") (auto simp: replay_def bind_e_def get trace_defs split: option.splits)
qed

lemma same_view_budget:
  assumes "same_view t d d'"
  shows "fst (check_budget env th t budget (s\<lparr>db := d'\<rparr>)) = fst (check_budget env th t budget (s\<lparr>db := d\<rparr>))"
proof -
  have "month_entries m t d' = month_entries m t d" for m
  proof -
    have "month_entries m t e = filter (\<lambda>c. start_of_month m \<le> ce_created_at c)
        (filter (\<lambda>c. ce_tenant c = t) (cost_entries e))" for e
      unfolding month_entries_def filter_conj [symmetric] by (simp add: conj_commute)
    then show ?thesis using assms by (simp only: same_view_def)
  qed
  then show ?thesis by (simp add: check_budget_result spent_so_far_def)
qed

text \<open>
  C6. Tenants are isolated: what a principal that is not an administrator is shown, by any of
  the routes that read, is the same whatever the runs, steps and costs of the other tenants are,
  errors included; and a report for another tenant is refused.
\<close>

theorem tenants_isolated:
  assumes "pr_role p \<noteq> ADMIN" and "minimum_role req = VIEWER" and "same_view (pr_tenant_id p) d d'"
  shows "fst (route_of env app req p (s\<lparr>db := d'\<rparr>)) = fst (route_of env app req p (s\<lparr>db := d\<rparr>)) \<and>
    (case req of GetCostReport (Some t) \<Rightarrow>
       if t \<noteq> [] \<and> t \<noteq> pr_tenant_id p
       then fst (route_of env app req p (s\<lparr>db := d\<rparr>)) =
         Inl (HTTPException 403 ''cannot view another tenant's cost report'')
       else True
     | _ \<Rightarrow> True)"
proof -
  let ?t = "pr_tenant_id p"
  have tf: "tenant_filter p = Some ?t" using assms(1) by (simp add: tenant_filter_def)
  show ?thesis
  proof (cases req)
    case (GetRuns limit)
    have "filter (\<lambda>r. run_tenant r = ?t) (agent_runs d') = filter (\<lambda>r. run_tenant r = ?t) (agent_runs d)"
      using assms(3) by (simp add: same_view_def)
    then show ?thesis using GetRuns tf
      by (simp add: map_e_def list_agent_runs_def list_runs_def trace_defs split: sum.splits)
  next
    case (GetRun rid)
    have "fst (route_of env app (GetRun rid) p (s\<lparr>db := d'\<rparr>)) =
        fst (route_of env app (GetRun rid) p (s\<lparr>db := d\<rparr>))"
      unfolding route_of.simps map_e_def get_agent_run_def tf
      by (intro fst_bind fst_not_found same_view_replay assms(3)) (simp_all add: ret_def)
    then show ?thesis using GetRun by simp
  next
    case (GetCostReport t)
    have same: "fst (get_cost_report env app t p (s\<lparr>db := d'\<rparr>)) = fst (get_cost_report env app t p (s\<lparr>db := d\<rparr>))"
    proof (cases "opt_str_or t ?t = ?t")
      case True
      show ?thesis
      proof (cases "get_tenant (app_tenants app) ?t")
        case (Some tn)
        then show ?thesis using True unfolding get_cost_report_def Let_def
          by (auto simp: ret_def intro!: fst_bind same_view_budget [OF assms(3)])
      qed (simp add: get_cost_report_def True throw_def)
    qed (use assms(1) in \<open>simp add: get_cost_report_def throw_def\<close>)
    have "fst (route_of env app (GetCostReport t) p (s\<lparr>db := d'\<rparr>)) =
        fst (route_of env app (GetCostReport t) p (s\<lparr>db := d\<rparr>))"
      unfolding route_of.simps map_e_def by (intro fst_bind same) (simp add: ret_def)
    moreover have "fst (route_of env app (GetCostReport (Some u)) p (s\<lparr>db := d\<rparr>)) =
        Inl (HTTPException 403 ''cannot view another tenant's cost report'')" if "u \<noteq> []" "u \<noteq> ?t" for u
      using that assms(1)
      by (simp add: map_e_def get_cost_report_def opt_str_or_def str_or_def bind_e_def throw_def)
    ultimately show ?thesis using GetCostReport by (auto split: option.splits)
  qed (use assms(2) in auto)
qed

theorem tenants_isolated_witness:
  "fst (route_of counter_key_env echo_app (GetCostReport (Some ''acme-legal'')) support_dev
     (start_state\<lparr>db := empty_db\<rparr>)) = Inl (HTTPException 403 ''cannot view another tenant's cost report'') \<and>
   fst (route_of counter_key_env echo_app (GetCostReport (Some ''acme-legal'')) support_dev
     (start_state\<lparr>db := db spent_state\<rparr>)) = Inl (HTTPException 403 ''cannot view another tenant's cost report'')"
proof -
  have p: "pr_role support_dev \<noteq> ADMIN" by (simp add: support_dev_def)
  have req: "minimum_role (GetCostReport (Some ''acme-legal'')) = VIEWER" by simp
  have view: "same_view (pr_tenant_id support_dev) empty_db (db spent_state)"
    by (simp add: same_view_def support_dev_def spent_state_def empty_db_def cost_row_def demo_call_def
        start_state_def)
  have "''acme-legal'' \<noteq> pr_tenant_id support_dev" by (simp add: support_dev_def)
  with tenants_isolated [OF p req view, of counter_key_env echo_app start_state] show ?thesis by simp
qed

section \<open>Billing of chat completions\<close>

interpretation costless: effect_rel "\<lambda>s s'. cost_entries (db s') = cost_entries (db s)"
  by unfold_locales auto

lemma costless_parts:
  "costless.keeps (from_world f)" "costless.keeps (lift_result r)" "costless.keeps commit"
  "costless.keeps (route env rt rq ctx)"
  by (rule costless.keepsI, simp add: from_world_def lift_result_def commit_def route_db split: prod.splits)+

lemma costless_audit: "costless.keeps (record_audit env a)"
proof (rule costless.keepsI)
  fix s
  obtain x s' where run: "record_audit env a s = (x, s')" by fastforce
  then show "cost_entries (db (snd (record_audit env a s))) = cost_entries (db s)"
    by (cases rule: record_audit_cases) (simp_all add: run)
qed

lemma costless_hits: "costless.keeps (audit_chat_hits env p act hits)"
  unfolding audit_chat_hits_def by (intro costless.keeps_rules costless_audit)

text \<open>
  The outcome of a chat request, started with the cost entries \<open>C\<close>: an answer is charged once,
  to the tenant, by its own tokens and model; an error charges nothing.
\<close>

definition billed :: "('w, 'e) gw_env_scheme \<Rightarrow> pricing_table \<Rightarrow> string \<Rightarrow> cost_entry list \<Rightarrow>
    chat_out result \<times> ('w, 'b) gw_state_scheme \<Rightarrow> bool" where
  "billed env pt t C out = (case out of
     (Inr co, s') \<Rightarrow> committed s' = db s' \<and>
       (\<exists>e. cost_entries (db s') = C @ [e] \<and> ce_tenant e = t \<and> ce_run_id e = None \<and>
          ce_provider_name e = co_provider co \<and> ce_model e = co_model co \<and>
          ce_input_tokens e = co_input_tokens co \<and> ce_output_tokens e = co_output_tokens co \<and>
          ce_cost_usd e = estimate_cost_usd (fl env) pt (co_provider co) (co_model co)
            (co_input_tokens co) (co_output_tokens co))
   | (Inl e, s') \<Rightarrow> cost_entries (db s') = C)"

lemma billed_bind:
  assumes "costless.keeps m" and "\<And>x s1. billed env pt t (cost_entries (db s1)) (f x s1)"
  shows "billed env pt t (cost_entries (db s)) (bind_e m f s)"
proof -
  obtain r s1 where m: "m s = (r, s1)" by fastforce
  have same: "cost_entries (db s1) = cost_entries (db s)" using costless.keepsD [OF assms(1) m] .
  show ?thesis
  proof (cases r)
    case (Inl e)
    then show ?thesis using m same by (simp add: billed_def bind_e_def)
  next
    case (Inr x)
    then show ?thesis using m same assms(2) [of s1 x] by (simp add: bind_e_def)
  qed
qed

lemma billed_throw: "billed env pt t (cost_entries (db s)) (throw e s)"
  by (simp add: billed_def throw_def)

lemma billed_tail:
  assumes "ca_tenant ca = t" "ca_run_id ca = None" "ca_provider_name ca = co_provider co"
    "ca_model ca = co_model co" "ca_input_tokens ca = co_input_tokens co"
    "ca_output_tokens ca = co_output_tokens co"
  shows "billed env pt t (cost_entries (db s))
    (bind_e (record_cost env pt ca) (\<lambda>_. bind_e commit (\<lambda>_. ret co)) s)"
proof -
  obtain x s' where run: "record_cost env pt ca s = (x, s')" by fastforce
  then show ?thesis
    by (cases rule: record_cost_cases)
      (simp_all add: assms run bind_e_def commit_def ret_def billed_def cost_row_def cost_of_def)
qed

lemma billed_answered:
  "billed env (app_pricing app) (pr_tenant_id p) (cost_entries (db s)) (chat_answered env app p policy u resp s)"
  unfolding chat_answered_def
  by (intro billed_bind costless_parts costless_hits)
    (auto intro!: billed_tail, intro billed_bind costless_parts billed_throw)

text \<open>
  C11. A chat completion is charged exactly when it is answered: an answer is committed together
  with one cost entry of the caller's tenant, for the provider, model and tokens of the answer at
  the price of the table; after any error, a response refused by the output screen included,
  the cost table is as before.
\<close>

theorem chat_billed:
  "billed env (app_pricing app) (pr_tenant_id p) (cost_entries (db s))
     (create_chat_completion env app body p s)"
  unfolding create_chat_completion_def Let_def chat_provider_failed_def
  by (intro billed_bind costless_parts costless_hits costless.keeps_catch)
    (auto intro!: billed_bind costless_parts costless_hits costless.keeps_catch billed_throw
      billed_answered split: sum.splits)

text \<open>
  Chat completions do not look at the budget: with any other budgets in the registry, of
  nothing at all included, the caller's tenant gets the same answer at the same cost, so the hard
  stop holds for agent runs only.
\<close>

theorem chat_ignores_budget:
  assumes "map_option tn_guardrail_policy (get_tenant reg (pr_tenant_id p)) =
    map_option tn_guardrail_policy (get_tenant (app_tenants app) (pr_tenant_id p))"
  shows "create_chat_completion env (app\<lparr>app_tenants := reg\<rparr>) body p = create_chat_completion env app body p"
proof -
  have "chat_answered env (app\<lparr>app_tenants := reg\<rparr>) = chat_answered env app"
    by (intro ext) (simp add: chat_answered_def cong: if_cong)
  then show ?thesis
    using assms
    by (simp add: create_chat_completion_def chat_policy_def cong: if_cong sum.case_cong)
qed

theorem chat_ignores_budget_witness:
  "create_chat_completion counter_key_env (echo_app\<lparr>app_tenants := \<lparr>tr_version = 1,
     tr_tenants = [\<lparr>tn_id = ''acme-support'', tn_display_name = [], tn_guardrail_policy = ''standard'',
       tn_monthly_budget_usd = 0\<rparr>]\<rparr>\<rparr>) (ask ''hi'') support_dev =
   create_chat_completion counter_key_env echo_app (ask ''hi'') support_dev"
  by (rule chat_ignores_budget)
    (simp add: get_tenant_def echo_app_def tenants_yaml_def support_dev_def)

section \<open>Agent runs\<close>

text \<open>
  C9. The hard stop, for a tenant in the registry whose monthly budget is positive (a budget of
  zero never stops anything), when rounding to floats is monotone and keeps 0 and 1: once the tenant has spent its budget, a request for a run raises before anything happens.
  No provider is asked and no run, step or cost is recorded. The answer is 429 and the refusal
  itself is committed to the audit log under the caller's key; or, if the random key of that audit
  row is taken, the integrity error escapes and nothing is committed.
\<close>

theorem budget_stops_runs:
  assumes "get_tenant (app_tenants app) (pr_tenant_id p) = Some tn" and "rounds (fl env)"
    and "0 < tn_monthly_budget_usd tn"
    and "tn_monthly_budget_usd tn \<le> spent_so_far env (pr_tenant_id p) s"
  shows "case run_agent env app body p s of
      (Inr res, s') \<Rightarrow> False
    | (Inl e, s') \<Rightarrow> obs s' = obs s \<and> agent_runs (db s') = agent_runs (db s) \<and>
        agent_steps (db s') = agent_steps (db s) \<and> cost_entries (db s') = cost_entries (db s) \<and>
        (if e = integrity_error then committed s' = committed s
         else (\<exists>m. e = HTTPException 429 m) \<and> committed s' = db s' \<and>
           (\<exists>a. audit_log (db s') = audit_log (db s) @ [a] \<and> au_tenant a = pr_tenant_id p \<and>
              au_actor a = pr_key_id p \<and> au_action a = ''budget_hard_stop''))"
proof -
  let ?b = "tn_monthly_budget_usd tn" and ?spent = "spent_so_far env (pr_tenant_id p) s"
  have "1 \<le> ?spent / ?b" using assms(3,4) by simp
  then have "fl env 1 \<le> fl env (?spent / ?b)" by (rule rounds_mono [OF assms(2)])
  then have "1 \<le> percent_used (fl env) ?spent ?b" using assms(2,3) by (simp add: percent_used_def rounds_def)
  then have stop: "status_for th (percent_used (fl env) ?spent ?b) = HARD_STOP" for th
    by (simp add: status_for_def)
  show ?thesis
    by (simp add: run_agent_def assms(1) bind_e_def check_budget_result stop budget_exhausted_def
        discard_def record_audit_def audit_defs throw_def commit_def insert_row_def audit_row_def
        audit_args_def integrity_error_def split: prod.splits)
qed

definition broke_state :: "nat gw_state" where
  "broke_state = start_state\<lparr>db := empty_db\<lparr>cost_entries :=
     [cost_row 77 (DateTime 2026 3 2 0 0 0 0) 300 (demo_call\<lparr>ca_tenant := ''acme-legal''\<rparr>)]\<rparr>\<rparr>"

theorem budget_stops_runs_witness:
  "\<exists>e s'. run_agent counter_key_env echo_app
       \<lparr>ai_agent_name = ''default'', ai_system_prompt = [], ai_user_message = ''hi'',
        ai_data_classification = ''internal'', ai_cost_tier = ''standard'', ai_max_steps = 8,
        ai_token_budget = 20000\<rparr>
       (support_dev\<lparr>pr_tenant_id := ''acme-legal''\<rparr>) broke_state = (Inl e, s') \<and>
     agent_runs (db s') = agent_runs (db broke_state)"
proof -
  let ?p = "support_dev\<lparr>pr_tenant_id := ''acme-legal''\<rparr>"
  let ?body = "\<lparr>ai_agent_name = ''default'', ai_system_prompt = [], ai_user_message = ''hi'',
        ai_data_classification = ''internal'', ai_cost_tier = ''standard'', ai_max_steps = 8,
        ai_token_budget = 20000\<rparr>"
  let ?tn = "\<lparr>tn_id = ''acme-legal'', tn_display_name = ''Acme Legal Team'',
          tn_guardrail_policy = ''legal_hold'', tn_monthly_budget_usd = 200\<rparr>"
  have tn: "get_tenant (app_tenants echo_app) (pr_tenant_id ?p) = Some ?tn"
    by (simp add: get_tenant_def echo_app_def tenants_yaml_def)
  have env: "rounds (fl counter_key_env)"
    by (simp add: counter_key_env_def counter_env_def gw_env.extend_def key_env.fields_def rounds_id)
  have spent: "spent_so_far counter_key_env (pr_tenant_id ?p) broke_state = 300"
    by (simp add: spent_so_far_def counter_key_env_def counter_env_def gw_env.extend_def key_env.fields_def
      broke_state_def start_state_def month_entries_def empty_db_def cost_row_def demo_call_def
      start_of_month_def less_eq_datetime_def dt_key_def coalesce_sum_def)
  from budget_stops_runs [OF tn env, of broke_state ?body] spent show ?thesis
    by (cases "run_agent counter_key_env echo_app ?body ?p broke_state") (auto split: sum.splits)
qed

text \<open>
  C10. An answered run is a committed run: the answer reports the row that is committed, its
  outcome is one the guardrails and the token budget allow, and the last row of the audit log names
  the run, the caller's tenant and key, and the tokens. If the route raises instead, nothing of the
  run is committed.
\<close>

theorem agent_run_committed:
  assumes sql: "sql_reads_only (app_tools app)" and pos: "0 \<le> ai_max_steps body" and ok: "trace_ok (db s)"
  shows "case run_within_budget env app body p tn s of
      (Inr res, s') \<Rightarrow> committed s' = db s' \<and> reported (pr_tenant_id p) res s' \<and>
        rr_step_count res \<le> ai_max_steps body \<and>
        outcome_ok (request_runtime app body) (Some (tn_guardrail_policy tn)) res \<and>
        (\<exists>rows a. audit_log (db s') = audit_log (db s) @ rows @ [a] \<and> au_action a = ''agent_run'' \<and>
           au_run_id a = Some (rr_run_id res) \<and> au_tenant a = pr_tenant_id p \<and> au_actor a = pr_key_id p \<and>
           au_input_tokens a = rr_total_input_tokens res \<and> au_output_tokens a = rr_total_output_tokens res)
    | (Inl e, s') \<Rightarrow> committed s' = committed s"
proof -
  let ?ag = "request_runtime app body"
  let ?run = "run env ?ag (pr_tenant_id p) (ai_agent_name body) (ai_system_prompt body) (ai_user_message body)
    (agent_context body p) (Some (tn_guardrail_policy tn))"
  have tools: "tools_contained ?ag"
    by (rule build_tools_contained [OF _ sql]) (simp add: request_runtime_def)
  have cfg: "ac_max_steps (ag_config ?ag) = ai_max_steps body" by (simp add: request_runtime_def)
  obtain r s1 where run: "?run s = (r, s1)" by fastforce
  have com: "committed s1 = committed s" using steady.keepsD [OF contained_run(2) [OF tools] run] .
  have logs: "prefix (audit_log (db s)) (audit_log (db s1))"
    using ledgers.keepsD [OF contained_run(1) [OF tools] run] by (simp add: ledger_def)
  show ?thesis
  proof (cases r)
    case (Inl e)
    then show ?thesis using run com by (simp add: run_within_budget_def bind_e_def)
  next
    case (Inr res)
    have "triple (\<lambda>s. trace_ok (db s)) ?run
        (\<lambda>res s. run_post ?ag (pr_tenant_id p) (Some (tn_guardrail_policy tn)) (rr_run_id res) res s \<and>
           rr_step_count res \<le> ac_max_steps (ag_config ?ag))
        (run_raises env ?ag (agent_context body p) (Some (tn_guardrail_policy tn)))"
      by (rule run_triple [OF tools]) (simp add: cfg pos)
    from triple_InrD [OF this ok run [unfolded Inr]]
    have post: "run_post ?ag (pr_tenant_id p) (Some (tn_guardrail_policy tn)) (rr_run_id res) res s1"
      "rr_step_count res \<le> ai_max_steps body" by (simp_all add: cfg)
    let ?a = "(audit_args (pr_tenant_id p) ''agent_run'')
      \<lparr>aa_run_id := Some (rr_run_id res), aa_actor := pr_key_id p,
       aa_input_tokens := rr_total_input_tokens res, aa_output_tokens := rr_total_output_tokens res\<rparr>"
    obtain x s2 where aud: "record_audit env ?a s1 = (x, s2)" by fastforce
    have com2: "committed s2 = committed s1" using steady.keepsD [OF steady_stores(4) aud] .
    from aud show ?thesis
    proof (cases rule: record_audit_cases)
      case (1 e)
      then show ?thesis using run Inr aud com com2
        by (simp add: run_within_budget_def bind_e_def discard_cases)
    next
      case (2 u now)
      let ?s' = "s2\<lparr>committed := db s2\<rparr>"
      have res: "run_within_budget env app body p tn s = (Inr res, ?s')"
        using run Inr aud 2 by (simp add: run_within_budget_def bind_e_def discard_cases commit_def ret_def)
      have "run_row rid ?s' = run_row rid s1" for rid by (simp add: run_row_def 2)
      then have "reported (pr_tenant_id p) res ?s'" using post(1) by (simp add: run_post_def reported_def)
      moreover obtain rows where "audit_log (db s1) = audit_log (db s) @ rows" using logs by (auto simp: prefix_def)
      ultimately show ?thesis using post 2
        by (simp add: res run_post_def audit_row_def audit_args_def)
    qed
  qed
qed

theorem agent_run_committed_witness:
  "case run_within_budget counter_key_env echo_app
       \<lparr>ai_agent_name = ''default'', ai_system_prompt = [], ai_user_message = ''hi'',
        ai_data_classification = ''internal'', ai_cost_tier = ''standard'', ai_max_steps = 8,
        ai_token_budget = 20000\<rparr>
       support_dev (hd (tr_tenants tenants_yaml)) start_state of
     (Inr res, s') \<Rightarrow> committed s' = db s' \<and> rr_step_count res \<le> 8
   | (Inl e, s') \<Rightarrow> committed s' = committed start_state"
proof -
  let ?body = "\<lparr>ai_agent_name = ''default'', ai_system_prompt = [], ai_user_message = ''hi'',
        ai_data_classification = ''internal'', ai_cost_tier = ''standard'', ai_max_steps = 8,
        ai_token_budget = 20000\<rparr>"
  have pos: "0 \<le> ai_max_steps ?body" by simp
  from agent_run_committed [OF idle_reads_only pos demo_start_ok, where env = counter_key_env
      and p = support_dev and tn = "hd (tr_tenants tenants_yaml)"]
  show ?thesis by (auto split: prod.splits sum.splits)
qed

section \<open>What the provider receives\<close>

lemma bind_e_fst: "fst (m s) = Inr x \<Longrightarrow> bind_e m f s = f x (snd (m s))"
  by (cases "m s") (simp add: bind_e_def)

lemma bind_catch_fst: "fst (m s) = Inr x \<Longrightarrow> bind_e (catch_e m) f s = f (Inr x) (snd (m s))"
  by (cases "m s") (simp add: bind_e_def catch_e_def)

lemma chat_answer_routed:
  fixes app :: "('w, 'f, ('w, 'b) gw_state_scheme) app"
  assumes "create_chat_completion env app body p s = (Inr out, s')"
  shows "\<exists>u c (s1 :: ('w, 'b) gw_state_scheme) resp s2.
    route env (app_router app) (chat_request_of body (pr_tenant_id p) u) c s1 = (Inr resp, s2) \<and>
    co_provider out = resp_provider_name resp \<and> co_request_id out = uuid_str u"
proof -
  have answered: "co_provider out = resp_provider_name resp \<and> co_request_id out = uuid_str u"
    if "chat_answered env app p policy u resp s2 = (Inr out, s')" for policy u resp s2
    using that unfolding chat_answered_def
    by (auto elim!: bind_e_InrE simp: ret_def throw_def split: if_splits)
  have failed: "chat_provider_failed e x \<noteq> (Inr y, z)" for e x and y :: chat_out and z
    by (auto simp: chat_provider_failed_def commit_def throw_def bind_e_def)
  let ?route = "\<lambda>u. route env (app_router app) (chat_request_of body (pr_tenant_id p) u)
    \<lparr>ctx_tenant_id = pr_tenant_id p, ctx_data_classification = ci_data_classification body,
     ctx_cost_tier = ci_cost_tier body\<rparr>"
  from assms obtain u r s1 s2 where r: "catch_e (?route u) s1 = (Inr r, s2)"
      "(case r of Inl e \<Rightarrow> chat_provider_failed e
        | Inr resp \<Rightarrow> chat_answered env app p (chat_policy app p) u resp) s2 = (Inr out, s')"
    unfolding create_chat_completion_def Let_def
    by (auto elim!: bind_e_InrE simp: throw_def split: if_splits)
  from r(2) failed obtain resp where resp: "r = Inr resp" by (cases r) auto
  with r(1) have "?route u s1 = (Inr resp, s2)" by (auto simp: catch_e_def split: prod.splits)
  moreover from r(2) resp answered have "co_provider out = resp_provider_name resp \<and> co_request_id out = uuid_str u"
    by simp
  ultimately show ?thesis by blast
qed

text \<open>The shipped policy redacts an address, and a provider that repeats the prompt returns it.\<close>

lemma chat_example:
  "map_sum id gr_text (screen_request guardrails_yaml ''mail jane@example.com'' (Some ''standard'')) =
     Inr ''mail [REDACTED_EMAIL]'' \<and>
   map_sum id co_content (fst (create_chat_completion counter_key_env echo_app
     (ask ''mail jane@example.com'') support_dev start_state)) = Inr ''mail jane@example.com''"
proof -
  let ?t = "''mail jane@example.com''"
  let ?hits = "[\<lparr>gh_rule = ''pii'', gh_action = ''redact'', gh_detail = [''email'']\<rparr>]"
  let ?pre = "\<lparr>gr_allowed = True, gr_text = ''mail [REDACTED_EMAIL]'', gr_hits = ?hits,
    gr_block_reason = None\<rparr>"
  let ?audit = "audit_chat_hits counter_key_env support_dev ''guardrail_request'' ?hits"
  let ?s1 = "snd (?audit start_state)"
  let ?u = "fst (uuid4 counter_key_env (world ?s1))"
  let ?s2 = "snd (from_world (uuid4 counter_key_env) ?s1)"
  let ?route = "route counter_key_env (app_router echo_app) (chat_request_of (ask ?t) (pr_tenant_id support_dev) ?u)
    \<lparr>ctx_tenant_id = pr_tenant_id support_dev, ctx_data_classification = ci_data_classification (ask ?t),
     ctx_cost_tier = ci_cost_tier (ask ?t)\<rparr>"
  let ?resp = "projr (fst (?route ?s2))"
  have pre: "screen_request guardrails_yaml ?t (Some ''standard'') = Inr ?pre" by code_simp
  have app: "app_guardrails echo_app = guardrails_yaml" "chat_policy echo_app support_dev = Some ''standard''"
    "last_user_message (ci_messages (ask ?t)) = ?t" by code_simp+
  have audit: "fst (?audit start_state) = Inr ()" by code_simp
  have id: "fst (from_world (uuid4 counter_key_env) ?s1) = Inr ?u"
    by (simp add: from_world_def split: prod.splits)
  have "isl (fst (?route ?s2)) = False" by code_simp
  then have routed: "fst (?route ?s2) = Inr ?resp" by (cases "fst (?route ?s2)") auto
  have "map_sum id co_content (fst (chat_answered counter_key_env echo_app support_dev (Some ''standard'')
      ?u ?resp (snd (?route ?s2)))) = Inr ?t" by code_simp
  moreover have "create_chat_completion counter_key_env echo_app (ask ?t) support_dev start_state =
      chat_answered counter_key_env echo_app support_dev (Some ''standard'') ?u ?resp (snd (?route ?s2))"
    by (simp only: create_chat_completion_def Let_def app pre bind_lift_Inr bind_e_fst [of ?audit start_state, OF audit]
        bind_e_fst [of "from_world (uuid4 counter_key_env)" ?s1, OF id]
        bind_catch_fst [of ?route ?s2, OF routed] sum.case guardrail_result.simps not_True_eq_False if_False)
  ultimately show ?thesis using pre by simp
qed

text \<open>
  C12. The chat route sends the prompt as it came, whatever the guardrails redacted in it: for every
  application, prompt and caller, the request the providers get carries the messages of the body.
  With any other providers that answer alike when they are sent exactly these messages, the
  whole route behaves the same, so nothing else is ever sent to one; and an answer of the route is
  the answer of a registered provider to a request with exactly these messages.
\<close>

theorem chat_forwards_unredacted:
  fixes app :: "('w, 'f, ('w, 'b) gw_state_scheme) app"
  assumes "same_answers (ci_messages body) rt (app_router app)"
  shows "create_chat_completion env (app\<lparr>app_router := rt\<rparr>) body p s = create_chat_completion env app body p s \<and>
    (case create_chat_completion env app body p s of
       (Inl e, s') \<Rightarrow> True
     | (Inr out, s') \<Rightarrow> \<exists>q prov rq w resp w'. rt_providers (app_router app) q = Some prov \<and>
         req_messages rq = ci_messages body \<and> req_request_id rq = co_request_id out \<and>
         prov_chat prov rq w = (Inr resp, w') \<and> co_provider out = resp_provider_name resp)"
proof -
  have same: "route env rt (chat_request_of body t u) c =
      (route env (app_router app) (chat_request_of body t u) c :: (('w, 'b) gw_state_scheme, _) eff)" for t u c
    by (intro ext route_same_answers) (use assms in \<open>simp add: chat_request_of_def\<close>)
  have frame: "app_router (app\<lparr>app_router := rt\<rparr>) = rt" "app_guardrails (app\<lparr>app_router := rt\<rparr>) = app_guardrails app"
    "app_pricing (app\<lparr>app_router := rt\<rparr>) = app_pricing app" "app_tenants (app\<lparr>app_router := rt\<rparr>) = app_tenants app"
    by simp_all
  have answered: "chat_answered env (app\<lparr>app_router := rt\<rparr>) p policy u resp = chat_answered env app p policy u resp"
    for policy u resp unfolding chat_answered_def frame ..
  have "create_chat_completion env (app\<lparr>app_router := rt\<rparr>) body p s = create_chat_completion env app body p s"
    unfolding create_chat_completion_def chat_policy_def frame same answered ..
  moreover have "\<exists>q prov rq w resp w'. rt_providers (app_router app) q = Some prov \<and>
         req_messages rq = ci_messages body \<and> req_request_id rq = co_request_id out \<and>
         prov_chat prov rq w = (Inr resp, w') \<and> co_provider out = resp_provider_name resp"
    if out: "create_chat_completion env app body p s = (Inr out, s')" for out s'
  proof -
    from chat_answer_routed [OF out] obtain u c and s1 s2 :: "('w, 'b) gw_state_scheme" and resp where r:
        "route env (app_router app) (chat_request_of body (pr_tenant_id p) u) c s1 = (Inr resp, s2)"
        "co_provider out = resp_provider_name resp" "co_request_id out = uuid_str u" by blast
    from route_answer [OF r(1)] obtain q prov m w w' where "rt_providers (app_router app) q = Some prov"
        "prov_chat prov ((chat_request_of body (pr_tenant_id p) u)\<lparr>req_model := m\<rparr>) w = (Inr resp, w')" by blast
    with r(2,3) show ?thesis
      by (intro exI [of _ q] exI [of _ prov] exI [of _ "(chat_request_of body (pr_tenant_id p) u)\<lparr>req_model := m\<rparr>"])
        (auto simp: chat_request_of_def)
  qed
  ultimately show ?thesis by (auto split: prod.split sum.split)
qed

text \<open>The address that the shipped policy redacts has reached a provider.\<close>

theorem chat_forwards_unredacted_witness:
  "map_sum id gr_text (screen_request guardrails_yaml ''mail jane@example.com'' (Some ''standard'')) =
     Inr ''mail [REDACTED_EMAIL]'' \<and>
   (\<exists>q prov rq w resp w'. rt_providers (app_router echo_app) q = Some prov \<and>
      req_messages rq = [chat_message USER ''mail jane@example.com''] \<and> prov_chat prov rq w = (Inr resp, w'))"
proof -
  let ?body = "ask ''mail jane@example.com''"
  let ?run = "create_chat_completion counter_key_env echo_app ?body support_dev start_state"
  obtain out s' where run: "?run = (Inr out, s')"
    using chat_example by (cases ?run; cases "fst ?run") auto
  have same: "same_answers (ci_messages ?body) (app_router echo_app) (app_router echo_app)"
    by (simp add: same_answers_def)
  from chat_forwards_unredacted [OF same, of counter_key_env support_dev start_state, unfolded run prod.case sum.case]
  have "\<exists>q prov rq w resp w'. rt_providers (app_router echo_app) q = Some prov \<and>
      req_messages rq = ci_messages ?body \<and> prov_chat prov rq w = (Inr resp, w')" by blast
  with chat_example show ?thesis by (simp add: ask_def)
qed

end
