(* ===== verification/Seed.thy ===== *)
theory Seed
  imports Api_Properties
begin

text \<open>
  The bootstrap script \<open>scripts/seed.py\<close>, which makes the first key of a new database: a session
  of its own, a commit, and the four lines it prints.
\<close>

definition seed_lines :: "string \<Rightarrow> tenant_role \<Rightarrow> string \<Rightarrow> string \<Rightarrow> string list" where
  "seed_lines tenant_id role key_id raw_secret =
     [''tenant:  '' @ tenant_id,
      ''role:    '' @ tenant_role_value role,
      ''key_id:  '' @ key_id,
      ''token (Authorization: Bearer <this>, shown once):'' @ [CHR 0x0A] @ key_id @ ''.'' @ raw_secret]"

definition seed :: "('w, 'e) key_env_scheme \<Rightarrow> string \<Rightarrow> tenant_role \<Rightarrow>
    (('w, 'b) gw_state_scheme, string list) eff" where
  "seed env tenant_id role =
     with_session
       (bind_e (create_key env tenant_id role) (\<lambda>(key_id, raw_secret).
        bind_e commit (\<lambda>_.
        ret (seed_lines tenant_id role key_id raw_secret))))"

text \<open>\<open>Role(args.role)\<close>; the parser lets the values of the enumeration through only.\<close>

definition seed_main :: "('w, 'e) key_env_scheme \<Rightarrow> string \<Rightarrow> string \<Rightarrow>
    (('w, 'b) gw_state_scheme, string list) eff" where
  "seed_main env tenant_id role =
     bind_e (lift_result (role_of_value role)) (seed env tenant_id)"

text \<open>
  The gateway can be started from nothing: the token that the script prints for a role is
  admitted by the next request, as a principal of that tenant and role, and every route that the
  role is high enough for runs with it.
\<close>

theorem seeded_token_admits:
  assumes ok: "keys_ok (committed s)" and env: "hasher_ok env" "tokens_ok env"
    and run: "seed env t r s = (Inr out, s')"
  shows "\<exists>token kid. last out = ''token (Authorization: Bearer <this>, shown once):'' @ [CHR 0x0A] @ token \<and>
    get_current_principal env (Some (''Bearer '' @ token)) (s'\<lparr>db := committed s'\<rparr>) =
      (Inr \<lparr>pr_tenant_id = t, pr_role = r, pr_key_id = kid\<rparr>, s'\<lparr>db := committed s'\<rparr>) \<and>
    (\<forall>m route_fn. m \<le> r \<longrightarrow>
       with_role env m (Some (''Bearer '' @ token)) route_fn (s'\<lparr>db := committed s'\<rparr>) =
         route_fn \<lparr>pr_tenant_id = t, pr_role = r, pr_key_id = kid\<rparr> (s'\<lparr>db := committed s'\<rparr>))"
proof -
  let ?s = "s\<lparr>db := committed s\<rparr>"
  from run obtain kid raw s2 where key: "create_key env t r ?s = (Inr (kid, raw), s2)"
    and out: "out = seed_lines t r kid raw" and s': "s' = (s2\<lparr>committed := db s2\<rparr>)\<lparr>db := db s2\<rparr>"
    by (auto simp: seed_def with_session_def commit_def bind_e_def ret_def split: prod.splits sum.splits)
  have "keys_ok (db ?s)" using ok by simp
  from issued_key_authenticates [OF this env key, of "s'\<lparr>db := committed s'\<rparr>" raw]
  have admit: "get_current_principal env (Some (''Bearer '' @ kid @ ''.'' @ raw)) (s'\<lparr>db := committed s'\<rparr>) =
      (Inr \<lparr>pr_tenant_id = t, pr_role = r, pr_key_id = kid\<rparr>, s'\<lparr>db := committed s'\<rparr>)"
    by (simp add: s')
  then have role: "with_role env m (Some (''Bearer '' @ kid @ ''.'' @ raw)) route_fn (s'\<lparr>db := committed s'\<rparr>) =
      route_fn \<lparr>pr_tenant_id = t, pr_role = r, pr_key_id = kid\<rparr> (s'\<lparr>db := committed s'\<rparr>)"
    if "m \<le> r" for m route_fn
    using that by (simp add: with_role_def bind_e_def lift_result_def require_role_order)
  show ?thesis
    by (rule exI [of _ "kid @ ''.'' @ raw"], rule exI [of _ kid])
      (intro conjI allI impI admit role; simp add: out seed_lines_def)
qed

theorem seeded_token_admits_witness:
  "\<exists>out s'. seed counter_key_env ''acme'' ADMIN start_state = (Inr out, s') \<and>
     (\<exists>token kid. last out = ''token (Authorization: Bearer <this>, shown once):'' @ [CHR 0x0A] @ token \<and>
       get_current_principal counter_key_env (Some (''Bearer '' @ token)) (s'\<lparr>db := committed s'\<rparr>) =
         (Inr \<lparr>pr_tenant_id = ''acme'', pr_role = ADMIN, pr_key_id = kid\<rparr>, s'\<lparr>db := committed s'\<rparr>))"
proof -
  have "isl (fst (seed counter_key_env ''acme'' ADMIN start_state)) = False" by code_simp
  then obtain out s' where run: "seed counter_key_env ''acme'' ADMIN start_state = (Inr out, s')"
    by (cases "seed counter_key_env ''acme'' ADMIN start_state";
        cases "fst (seed counter_key_env ''acme'' ADMIN start_state)") auto
  have "keys_ok (committed start_state)" by (simp add: start_state_def empty_db_def keys_ok_def keyed_def)
  from seeded_token_admits [OF this counter_key_env_ok run] run show ?thesis by blast
qed

end
