(* ===== verification/Eval_Harness.thy ===== *)
theory Eval_Harness
  imports Toolbox Provider_Wire "HOL-Library.List_Lexorder" "HOL-Library.Char_ord"
begin

text \<open>
  The evaluation cases and their runner (\<open>eval/models.py\<close>, \<open>eval/golden_provider.py\<close>,
  \<open>eval/runner.py\<close>): a provider that plays back the script of a case, the chat and the agent mode,
  and the check of the assertions. The YAML parser, pydantic, regular expressions given by the
  cases and the mocked transport are parameters; each agent case has a database of its own.
\<close>

section \<open>Cases\<close>

record assertion =
  asr_type :: string
  asr_value :: string

record golden_call =
  gc_tool :: string
  gc_arguments :: jdict

record eval_case =
  ec_id :: string
  ec_category :: string
  ec_mode :: string
  ec_system_prompt :: string
  ec_user_message :: string
  ec_assertions :: "assertion list"
  ec_golden_tool_calls :: "golden_call list"
  ec_golden_final_text :: string
  ec_guardrail_policy :: "string option"

text \<open>The files of a directory by name and content, read in the order of their names.\<close>

definition load_cases :: "(string \<Rightarrow> json result) \<Rightarrow> (json \<Rightarrow> eval_case result) \<Rightarrow>
    (string \<times> string) list \<Rightarrow> eval_case list result" where
  "load_cases parse build files =
     bind_r (map_r (\<lambda>file.
       bind_r (parse (snd file)) (\<lambda>raw.
       bind_r (py_item raw ''cases'') (\<lambda>v.
       bind_r (py_iter v) (map_r build)))) (sort_key fst files)) (\<lambda>css. Inr (concat css))"

section \<open>The golden provider\<close>

definition tool_use_response :: "nat \<Rightarrow> golden_call \<Rightarrow> chat_response" where
  "tool_use_response i g =
     \<lparr>resp_message = chat_message ASSISTANT [],
      resp_tool_calls = [\<lparr>call_id = ''golden-'' @ nat_str i, call_name = gc_tool g, call_arguments = gc_arguments g\<rparr>],
      resp_usage = \<lparr>input_tokens = 20, output_tokens = 8\<rparr>, resp_provider_name = ''golden'',
      resp_model = ''golden-fixture'', resp_finish_reason = ''tool_use'', resp_raw = []\<rparr>"

definition final_response :: "string \<Rightarrow> chat_response" where
  "final_response text =
     \<lparr>resp_message = chat_message ASSISTANT text, resp_tool_calls = [],
      resp_usage = \<lparr>input_tokens = 10, output_tokens = 5\<rparr>, resp_provider_name = ''golden'',
      resp_model = ''golden-fixture'', resp_finish_reason = ''stop'', resp_raw = []\<rparr>"

definition script :: "eval_case \<Rightarrow> chat_response list" where
  "script ec =
     map (\<lambda>(i, g). tool_use_response i g) (enumerate 0 (ec_golden_tool_calls ec)) @
     [final_response (ec_golden_final_text ec)]"

text \<open>The outside world with the state of the provider: the responses left and the calls made.\<close>

record 'w golden =
  golden_pending :: "chat_response list"
  golden_call_count :: int
  golden_rest :: 'w

definition golden_chat :: "eval_case \<Rightarrow> chat_request \<Rightarrow> 'w golden \<Rightarrow> chat_response result \<times> 'w golden" where
  "golden_chat ec request w =
     (let w1 = w\<lparr>golden_call_count := golden_call_count w + 1\<rparr>
      in case golden_pending w1 of
           [] \<Rightarrow> (Inl (AssertionError (''eval case '' @ py_repr (ec_id ec) @
               '': provider called more times than the golden fixture script has steps for'')), w1)
         | r # rs \<Rightarrow> (Inr r, w1\<lparr>golden_pending := rs\<rparr>))"

definition golden_stream :: "eval_case \<Rightarrow> chat_request \<Rightarrow> 'w golden \<Rightarrow> chunks \<times> 'w golden" where
  "golden_stream ec request w =
     (case golden_chat ec request w of
        (Inl e, w') \<Rightarrow> (([], Some e), w')
      | (Inr r, w') \<Rightarrow>
          (([\<lparr>chunk_delta = msg_content (resp_message r),
              chunk_finish_reason = Some (resp_finish_reason r), chunk_usage = None\<rparr>], None), w'))"

text \<open>\<open>NotImplementedError\<close> has no constructor of its own; nothing tells it from another error.\<close>

definition golden_embed :: "embed_request \<Rightarrow> embed_response result" where
  "golden_embed request = Inl (OtherError ''golden provider does not script embeddings'')"

definition golden_health :: bool where
  "golden_health = True"

definition golden_provider :: "eval_case \<Rightarrow> 'w golden provider" where
  "golden_provider ec = \<lparr>prov_name = ''golden'', prov_chat = golden_chat ec\<rparr>"

definition golden_world :: "eval_case \<Rightarrow> 'w \<Rightarrow> 'w golden" where
  "golden_world ec w =
     \<lparr>golden_pending = script ec, golden_call_count = 0, golden_rest = w\<rparr>"

section \<open>Assertions\<close>

record assertion_result =
  ar_assertion :: assertion
  ar_passed :: bool
  ar_detail :: string

record case_result =
  cre_case_id :: string
  cre_category :: string
  cre_mode :: string
  cre_passed :: bool
  cre_assertion_results :: "assertion_result list"
  cre_error :: "string option"

text \<open>What the assertion says, if its type is known; \<open>re\<close> is \<open>re.search(pattern, text) is not None\<close>.\<close>

definition assertion_holds :: "(string \<Rightarrow> string \<Rightarrow> bool result) \<Rightarrow> assertion \<Rightarrow> string \<Rightarrow> string \<Rightarrow>
    string \<Rightarrow> string list \<Rightarrow> bool option result" where
  "assertion_holds re a status text input_text tools_called =
     (if asr_type a = ''contains'' then Inr (Some (has_sub (asr_value a) text))
      else if asr_type a = ''not_contains'' then Inr (Some (\<not> has_sub (asr_value a) text))
      else if asr_type a = ''regex'' then bind_r (re (asr_value a) text) (\<lambda>b. Inr (Some b))
      else if asr_type a = ''status_equals'' then Inr (Some (status = asr_value a))
      else if asr_type a = ''tool_called'' then Inr (Some (asr_value a \<in> set tools_called))
      else if asr_type a = ''input_contains'' then Inr (Some (has_sub (asr_value a) input_text))
      else if asr_type a = ''input_not_contains'' then Inr (Some (\<not> has_sub (asr_value a) input_text))
      else Inr None)"

definition check_assertion :: "(string \<Rightarrow> string \<Rightarrow> bool result) \<Rightarrow> string \<Rightarrow> string option \<Rightarrow> string \<Rightarrow>
    string list \<Rightarrow> assertion \<Rightarrow> assertion_result result" where
  "check_assertion re status response_text input_text tools_called a =
     (let text = opt_str_or response_text [] in
      bind_r (assertion_holds re a status text input_text tools_called) (\<lambda>holds.
      Inr (case holds of
        None \<Rightarrow> \<lparr>ar_assertion = a, ar_passed = False,
                 ar_detail = ''unknown assertion type: '' @ py_repr (asr_type a)\<rparr>
      | Some ok \<Rightarrow> \<lparr>ar_assertion = a, ar_passed = ok,
                 ar_detail = (if ok then [] else asr_type a @ ''('' @ py_repr (asr_value a) @ '') failed '' @
                   dash @ '' status='' @ py_repr status @ '' text='' @ py_repr text)\<rparr>)))"

definition result_of :: "eval_case \<Rightarrow> assertion_result list \<Rightarrow> case_result" where
  "result_of ec results =
     \<lparr>cre_case_id = ec_id ec, cre_category = ec_category ec, cre_mode = ec_mode ec,
      cre_passed = list_all ar_passed results, cre_assertion_results = results, cre_error = None\<rparr>"

section \<open>Chat mode\<close>

definition chat_case_request :: "eval_case \<Rightarrow> string \<Rightarrow> chat_request" where
  "chat_case_request ec text =
     \<lparr>req_messages = [chat_message SYSTEM (ec_system_prompt ec), chat_message USER text],
      req_model = [], req_tools = [], req_temperature = 2 / 10, req_max_output_tokens = 1024,
      req_tenant_id = ''eval'', req_request_id = ec_id ec\<rparr>"

text \<open>The status, the text of the response and the text of the input that the assertions see.\<close>

definition chat_outcome :: "eval_case \<Rightarrow> (string \<times> string option \<times> string) result" where
  "chat_outcome ec =
     bind_r (screen_request guardrails_yaml (ec_user_message ec) (ec_guardrail_policy ec)) (\<lambda>pre.
     if \<not> gr_allowed pre then Inr (''blocked_request'', None, ec_user_message ec)
     else
       bind_r (fst (golden_chat ec (chat_case_request ec (gr_text pre)) (golden_world ec ()))) (\<lambda>resp.
       bind_r (screen_response guardrails_yaml (msg_content (resp_message resp)) (ec_guardrail_policy ec))
         (\<lambda>post.
       if \<not> gr_allowed post then Inr (''blocked_response'', None, gr_text pre)
       else Inr (''completed'', Some (gr_text post), gr_text pre))))"

definition run_chat_case :: "(string \<Rightarrow> string \<Rightarrow> bool result) \<Rightarrow> eval_case \<Rightarrow> case_result result" where
  "run_chat_case re ec =
     bind_r (chat_outcome ec) (\<lambda>(status, response_text, input_text).
     bind_r (map_r (check_assertion re status response_text input_text []) (ec_assertions ec)) (\<lambda>rs.
     Inr (result_of ec rs)))"

section \<open>Agent mode\<close>

text \<open>
  The mocked transport: which URLs it answers, and what it raises for another.
\<close>

record http_mock =
  hm_matches :: "string \<Rightarrow> bool"
  hm_unmatched :: "string \<Rightarrow> exn"

definition eval_http_allowed_host :: string where
  "eval_http_allowed_host = ''eval-fixtures.test''"

definition needs_http_mock :: "eval_case \<Rightarrow> bool" where
  "needs_http_mock ec = list_ex (\<lambda>g. gc_tool g = ''http_get'') (ec_golden_tool_calls ec)"

definition mocked_http :: "http_mock \<Rightarrow> 'w http_env \<Rightarrow> 'w http_env" where
  "mocked_http hm env =
     env\<lparr>resolve := (\<lambda>host w. (Resolved [V4 (ipv4 93 184 216 34)], w)),
         http_get := (\<lambda>timeout url w.
           if hm_matches hm url then (Response 200 ''mocked fixture response, no live network'', w)
           else (HttpInterrupted (hm_unmatched hm url), w))\<rparr>"

definition eval_tools :: "http_mock \<Rightarrow> ('w golden, 'f, 's) tool_deps \<Rightarrow> eval_case \<Rightarrow>
    ('w golden, 'f, 's) tool_deps" where
  "eval_tools hm td ec =
     td\<lparr>td_allowed_domains := [eval_http_allowed_host],
        td_http := (if needs_http_mock ec then mocked_http hm (td_http td) else td_http td)\<rparr>"

definition eval_runtime :: "http_mock \<Rightarrow> ('w golden, 'f, 'w golden gw_state) tool_deps \<Rightarrow> eval_case \<Rightarrow>
    ('w golden, 'w golden gw_state) runtime" where
  "eval_runtime hm td ec =
     \<lparr>ag_router = \<lparr>rt_policy = routing_yaml, rt_providers = [''local'' \<mapsto> golden_provider ec]\<rparr>,
      ag_tools = build_tools (eval_tools hm td ec), ag_config = default_config,
      ag_guardrails = Some guardrails_yaml, ag_pricing = None, ag_audits = False\<rparr>"

definition eval_context :: routing_context where
  "eval_context = \<lparr>ctx_tenant_id = ''eval'', ctx_data_classification = ''internal'', ctx_cost_tier = ''standard''\<rparr>"

text \<open>A fresh engine, router and provider.\<close>

definition eval_state :: "eval_case \<Rightarrow> 'w \<Rightarrow> 'w golden gw_state" where
  "eval_state ec w =
     \<lparr>breakers = router_breakers routing_yaml None, world = golden_world ec w, obs = [],
      db = empty_db, committed = empty_db\<rparr>"

definition tools_called_in :: "replayed_run \<Rightarrow> string list" where
  "tools_called_in rep =
     concat (map (\<lambda>s. case sr_tool_name s of
         Some t \<Rightarrow> if t \<noteq> [] \<and> opt_str_or (sr_error s) [] = [] then [t] else []
       | None \<Rightarrow> []) (rep_steps rep))"

definition run_agent_case :: "('w golden, 'e) gw_env_scheme \<Rightarrow> http_mock \<Rightarrow>
    ('w golden, 'f, 'w golden gw_state) tool_deps \<Rightarrow> (string \<Rightarrow> string \<Rightarrow> bool result) \<Rightarrow> eval_case \<Rightarrow>
    ('w golden gw_state, case_result) eff" where
  "run_agent_case env hm td re ec =
     bind_e (run env (eval_runtime hm td ec) ''eval'' ''eval-case'' (ec_system_prompt ec)
       (ec_user_message ec) eval_context (ec_guardrail_policy ec)) (\<lambda>result.
     bind_e (runtime_replay env (rr_run_id result) None) (\<lambda>replayed.
     bind_e (lift_result (map_r (check_assertion re (rr_status result) (rr_final_output result)
       (ec_user_message ec) (tools_called_in replayed)) (ec_assertions ec))) (\<lambda>rs.
     ret (result_of ec rs))))"

section \<open>All cases\<close>

definition failed_case :: "eval_case \<Rightarrow> exn \<Rightarrow> case_result" where
  "failed_case ec e =
     \<lparr>cre_case_id = ec_id ec, cre_category = ec_category ec, cre_mode = ec_mode ec,
      cre_passed = False, cre_assertion_results = [], cre_error = Some (exn_str e)\<rparr>"

definition run_case :: "('w golden, 'e) gw_env_scheme \<Rightarrow> http_mock \<Rightarrow>
    ('w golden, 'f, 'w golden gw_state) tool_deps \<Rightarrow> (string \<Rightarrow> string \<Rightarrow> bool result) \<Rightarrow> eval_case \<Rightarrow>
    'w \<Rightarrow> case_result \<times> 'w" where
  "run_case env hm td re ec w =
     (let (r, w') =
        (if ec_mode ec = ''agent'' then
           (let (r, s) = run_agent_case env hm td re ec (eval_state ec w)
            in (r, golden_rest (world s)))
         else (run_chat_case re ec, w))
      in (case r of Inl e \<Rightarrow> failed_case ec e | Inr res \<Rightarrow> res, w'))"

fun run_cases :: "('w golden, 'e) gw_env_scheme \<Rightarrow> http_mock \<Rightarrow>
    ('w golden, 'f, 'w golden gw_state) tool_deps \<Rightarrow> (string \<Rightarrow> string \<Rightarrow> bool result) \<Rightarrow>
    eval_case list \<Rightarrow> 'w \<Rightarrow> case_result list \<times> 'w" where
  "run_cases env hm td re [] w = ([], w)"
| "run_cases env hm td re (c # cs) w =
     (let (r, w1) = run_case env hm td re c w; (rs, w2) = run_cases env hm td re cs w1
      in (r # rs, w2))"

end
