(* ===== verification/Eval_Report.thy ===== *)
theory Eval_Report
  imports Eval_Harness "HOL-Library.Multiset"
begin

text \<open>
  The report of an evaluation and the merge gate (\<open>eval/report.py\<close>, \<open>eval/cli.py\<close>): totals by
  category, the JSON and Markdown renderings, and the exit code. Float division, the percent
  format and the layout of \<open>json.dumps\<close> are parameters.
\<close>

section \<open>The report\<close>

record formats =
  fm_ratio :: "nat \<Rightarrow> nat \<Rightarrow> real"
  fm_percent :: "real \<Rightarrow> string"
  fm_dumps :: "json \<Rightarrow> string"

record category_summary =
  sm_category :: string
  sm_total :: nat
  sm_passed :: nat

record eval_report =
  er_results :: "case_result list"
  er_categories :: "category_summary list"

text \<open>\<open>passed / total if total else 1.0\<close>.\<close>

definition rate :: "formats \<Rightarrow> nat \<Rightarrow> nat \<Rightarrow> real" where
  "rate fm passed n = (if n = 0 then 1 else fm_ratio fm passed n)"

definition passed_in :: "case_result list \<Rightarrow> nat" where
  "passed_in rs = length (filter cre_passed rs)"

definition failures :: "eval_report \<Rightarrow> case_result list" where
  "failures report = filter (\<lambda>r. \<not> cre_passed r) (er_results report)"

definition pass_rate :: "formats \<Rightarrow> eval_report \<Rightarrow> real" where
  "pass_rate fm report = rate fm (passed_in (er_results report)) (length (er_results report))"

text \<open>\<open>groups.setdefault(k, []).append(v)\<close>.\<close>

fun setdefault_append :: "'k \<Rightarrow> 'v \<Rightarrow> ('k \<times> 'v list) list \<Rightarrow> ('k \<times> 'v list) list" where
  "setdefault_append k v [] = [(k, [v])]"
| "setdefault_append k v ((k', vs) # groups) =
     (if k = k' then (k', vs @ [v]) # groups else (k', vs) # setdefault_append k v groups)"

definition by_category :: "case_result list \<Rightarrow> (string \<times> case_result list) list" where
  "by_category results = foldl (\<lambda>groups r. setdefault_append (cre_category r) r groups) [] results"

definition summarise :: "string \<times> case_result list \<Rightarrow> category_summary" where
  "summarise g = \<lparr>sm_category = fst g, sm_total = length (snd g), sm_passed = passed_in (snd g)\<rparr>"

definition build_report :: "case_result list \<Rightarrow> eval_report" where
  "build_report results =
     \<lparr>er_results = results, er_categories = map summarise (sort_key fst (by_category results))\<rparr>"

section \<open>Rendering\<close>

definition summary_json :: "formats \<Rightarrow> category_summary \<Rightarrow> json" where
  "summary_json fm c = JObj
     [(''category'', JStr (sm_category c)), (''total'', JInt (int (sm_total c))),
      (''passed'', JInt (int (sm_passed c))), (''pass_rate'', JFloat (rate fm (sm_passed c) (sm_total c)))]"

definition assertion_json :: "assertion_result \<Rightarrow> json" where
  "assertion_json a = JObj
     [(''type'', JStr (asr_type (ar_assertion a))), (''value'', JStr (asr_value (ar_assertion a))),
      (''passed'', JBool (ar_passed a)), (''detail'', JStr (ar_detail a))]"

definition case_json :: "case_result \<Rightarrow> json" where
  "case_json r = JObj
     [(''id'', JStr (cre_case_id r)), (''category'', JStr (cre_category r)), (''mode'', JStr (cre_mode r)),
      (''passed'', JBool (cre_passed r)), (''error'', json_opt_str (cre_error r)),
      (''assertions'', JList (map assertion_json (cre_assertion_results r)))]"

definition report_json :: "formats \<Rightarrow> eval_report \<Rightarrow> json" where
  "report_json fm report = JObj
     [(''total'', JInt (int (length (er_results report)))),
      (''passed'', JInt (int (passed_in (er_results report)))),
      (''pass_rate'', JFloat (pass_rate fm report)),
      (''categories'', JList (map (summary_json fm) (er_categories report))),
      (''cases'', JList (map case_json (er_results report)))]"

definition failure_lines :: "case_result \<Rightarrow> string list" where
  "failure_lines r =
     [''### '' @ cre_case_id r @ '' ('' @ cre_category r @ ''/'' @ cre_mode r @ '')''] @
     (case cre_error r of
        None \<Rightarrow> []
      | Some e \<Rightarrow> if e = [] then [] else [''- error: `'' @ e @ ''`'']) @
     map (\<lambda>a. ''- assertion `'' @ asr_type (ar_assertion a) @ ''='' @ py_repr (asr_value (ar_assertion a)) @
         ''`: '' @ ar_detail a) (filter (\<lambda>a. \<not> ar_passed a) (cre_assertion_results r)) @
     [[]]"

definition markdown_lines :: "formats \<Rightarrow> eval_report \<Rightarrow> string list" where
  "markdown_lines fm report =
     [''# Eval report'', [],
      ''**'' @ nat_str (passed_in (er_results report)) @ ''/'' @ nat_str (length (er_results report)) @
        '' cases passed** ('' @ fm_percent fm (pass_rate fm report) @ '')'', [],
      ''| Category | Passed | Total | Pass rate |'', ''|---|---|---|---|''] @
     map (\<lambda>c. ''| '' @ sm_category c @ '' | '' @ nat_str (sm_passed c) @ '' | '' @ nat_str (sm_total c) @
        '' | '' @ fm_percent fm (rate fm (sm_passed c) (sm_total c)) @ '' |'') (er_categories report) @
     (if failures report = [] then []
      else [[], ''## Failures'', []] @ concat (map failure_lines (failures report)))"

definition to_markdown :: "formats \<Rightarrow> eval_report \<Rightarrow> string" where
  "to_markdown fm report = join_with [CHR 0x0A] (markdown_lines fm report)"

section \<open>The gate\<close>

text \<open>What a run of the command leaves: the exit code, the two outputs and the file written.\<close>

record cli_result =
  cli_exit :: int
  cli_out :: "string list"
  cli_err :: "string list"
  cli_file :: "(string \<times> string) option"

definition gate :: "formats \<Rightarrow> string option \<Rightarrow> real \<Rightarrow> case_result list \<Rightarrow> cli_result" where
  "gate fm out min_pass_rate results =
     (let report = build_report results;
          file = map_option (\<lambda>path. (path, fm_dumps fm (report_json fm report))) out
      in if pass_rate fm report < min_pass_rate
         then \<lparr>cli_exit = 1, cli_out = [to_markdown fm report],
               cli_err = [[CHR 0x0A] @ ''eval-gate FAILED: pass rate '' @ fm_percent fm (pass_rate fm report) @
                 '' is below the required '' @ fm_percent fm min_pass_rate], cli_file = file\<rparr>
         else \<lparr>cli_exit = 0, cli_out = [to_markdown fm report, [CHR 0x0A] @ ''eval-gate passed: '' @
                 nat_str (passed_in (er_results report)) @ ''/'' @ nat_str (length (er_results report)) @ '' cases.''],
               cli_err = [], cli_file = file\<rparr>)"

definition eval_main :: "('w golden, 'e) gw_env_scheme \<Rightarrow> http_mock \<Rightarrow>
    ('w golden, 'f, 'w golden gw_state) tool_deps \<Rightarrow> (string \<Rightarrow> string \<Rightarrow> bool result) \<Rightarrow> formats \<Rightarrow>
    string \<Rightarrow> eval_case list \<Rightarrow> string option \<Rightarrow> real \<Rightarrow> 'w \<Rightarrow> cli_result" where
  "eval_main env hm td re fm cases_dir cases out min_pass_rate w =
     (if cases = []
      then \<lparr>cli_exit = 1, cli_out = [], cli_err = [''no eval cases found under '' @ cases_dir], cli_file = None\<rparr>
      else gate fm out min_pass_rate (fst (run_cases env hm td re cases w)))"

section \<open>Groups\<close>

lemma setdefault_keys:
  "map fst (setdefault_append k v groups) =
     map fst groups @ (if k \<in> fst ` set groups then [] else [k])"
  by (induction k v groups rule: setdefault_append.induct) auto

lemma setdefault_map_of:
  "map_of (setdefault_append k v groups) c =
     (if c = k then Some ((case map_of groups k of None \<Rightarrow> [] | Some vs \<Rightarrow> vs) @ [v]) else map_of groups c)"
  by (induction groups) auto

lemma foldl_groups:
  fixes results :: "case_result list"
  defines "step \<equiv> \<lambda>groups r. setdefault_append (cre_category r) r groups"
  assumes "distinct (map fst groups)"
  shows "distinct (map fst (foldl step groups results)) \<and>
    set (map fst (foldl step groups results)) = fst ` set groups \<union> cre_category ` set results \<and>
    (\<forall>c. map_of (foldl step groups results) c =
       (if filter (\<lambda>r. cre_category r = c) results = [] then map_of groups c
        else Some ((case map_of groups c of None \<Rightarrow> [] | Some vs \<Rightarrow> vs) @ filter (\<lambda>r. cre_category r = c) results)))"
  using assms(2)
proof (induction results arbitrary: groups)
  case (Cons r rs)
  have "distinct (map fst (step groups r))"
    using Cons.prems by (simp add: step_def setdefault_keys image_image [symmetric])
  note IH = Cons.IH [OF this]
  have keys: "fst ` set (step groups r) = insert (cre_category r) (fst ` set groups)"
    using arg_cong [OF setdefault_keys [of "cre_category r" r groups], of set]
    by (auto simp: step_def)
  show ?case
    using IH keys by (auto simp: step_def setdefault_map_of split: option.splits)
qed simp

lemma by_category_props:
  "distinct (map fst (by_category results))"
  "fst ` set (by_category results) = cre_category ` set results"
  "(c, rs) \<in> set (by_category results) \<Longrightarrow> rs = filter (\<lambda>r. cre_category r = c) results"
proof -
  note fg = foldl_groups [of "[]" results, simplified, folded by_category_def]
  show d: "distinct (map fst (by_category results))" using fg by blast
  show "fst ` set (by_category results) = cre_category ` set results" using fg by simp
  assume "(c, rs) \<in> set (by_category results)"
  then have "map_of (by_category results) c = Some rs" using d by (simp add: map_of_is_SomeI)
  then show "rs = filter (\<lambda>r. cre_category r = c) results" using fg by (auto split: if_splits)
qed

lemma sum_groups:
  assumes "finite C" and "cre_category ` set results \<subseteq> C"
  shows "(\<Sum>c \<in> C. length (filter (\<lambda>r. cre_category r = c \<and> P r) results)) = length (filter P results)"
  using assms(2)
proof (induction results)
  case (Cons r rs)
  have "length (filter (\<lambda>r. cre_category r = c \<and> P r) (r # rs)) =
      (if c = cre_category r then of_bool (P r) else 0) + length (filter (\<lambda>r. cre_category r = c \<and> P r) rs)" for c
    by auto
  then show ?case using Cons assms(1) by (simp add: sum.distrib sum.delta del: filter.simps) simp
qed simp

section \<open>Properties\<close>

text \<open>
  The categories of a report are those of its results, each once and in order, with as many
  results and as many passed ones as the category has; nothing is lost or counted twice, so the
  categories add up to the totals.
\<close>

theorem report_adds_up:
  "map sm_category (er_categories (build_report results)) = sorted_list_of_set (cre_category ` set results) \<and>
   list_all (\<lambda>c. sm_total c = length (filter (\<lambda>r. cre_category r = sm_category c) results) \<and>
      sm_passed c = passed_in (filter (\<lambda>r. cre_category r = sm_category c) results) \<and> 0 < sm_total c)
     (er_categories (build_report results)) \<and>
   sum_list (map sm_total (er_categories (build_report results))) = length results \<and>
   sum_list (map sm_passed (er_categories (build_report results))) = passed_in results"
proof -
  let ?g = "sort_key fst (by_category results)"
  let ?n = "\<lambda>P c. length (filter (\<lambda>r. cre_category r = c \<and> P r) results)"
  have d: "distinct (map fst ?g)"
    using by_category_props(1) [of results]
    by (metis distinct_map mset_eq_imp_distinct_iff mset_map mset_sort)
  have keys: "map fst ?g = sorted_list_of_set (cre_category ` set results)"
    using d by_category_props(2) [of results]
    by (intro sorted_distinct_set_unique) simp_all
  have group: "rs = filter (\<lambda>r. cre_category r = c) results" if "(c, rs) \<in> set ?g" for c rs
    using by_category_props(3) that by simp
  have sums: "sum_list (map (\<lambda>g. length (filter P (snd g))) ?g) = length (filter P results)" for P
  proof -
    have "sum_list (map (\<lambda>g. length (filter P (snd g))) ?g) = sum_list (map (?n P) (map fst ?g))"
      using group by (fastforce intro!: arg_cong [of _ _ sum_list] simp: filter_filter conj_commute)
    also have "\<dots> = (\<Sum>c \<in> cre_category ` set results. ?n P c)"
      using d by (simp add: keys sum_list_distinct_conv_sum_set)
    also have "\<dots> = length (filter P results)" by (rule sum_groups) simp_all
    finally show ?thesis .
  qed
  have total: "map sm_total (er_categories (build_report results)) = map (\<lambda>g. length (filter (\<lambda>r. True) (snd g))) ?g"
    and passed: "map sm_passed (er_categories (build_report results)) = map (\<lambda>g. length (filter cre_passed (snd g))) ?g"
    and names: "map sm_category (er_categories (build_report results)) = map fst ?g"
    by (simp_all add: build_report_def summarise_def passed_in_def)
  have "sm_total c = length (filter (\<lambda>r. cre_category r = sm_category c) results) \<and>
      sm_passed c = passed_in (filter (\<lambda>r. cre_category r = sm_category c) results) \<and> 0 < sm_total c"
    if "c \<in> set (er_categories (build_report results))" for c
  proof -
    from that obtain cat rs where c: "(cat, rs) \<in> set ?g" "c = summarise (cat, rs)"
      by (auto simp: build_report_def)
    have "cat \<in> cre_category ` set results" using c(1) by_category_props(2) [of results] by force
    then have "rs \<noteq> []" using group [OF c(1)] by (auto simp: filter_empty_conv)
    then show ?thesis using c(2) group [OF c(1)] by (simp add: summarise_def)
  qed
  moreover have "sum_list (map sm_total (er_categories (build_report results))) = length results"
    using sums [of "\<lambda>r. True"] by (simp add: total)
  moreover have "sum_list (map sm_passed (er_categories (build_report results))) = passed_in results"
    using sums [of cre_passed] by (simp add: passed passed_in_def)
  ultimately show ?thesis unfolding names keys list_all_iff by blast
qed

text \<open>\<open>int / int\<close> is correctly rounded: below 1 for a proper fraction of representable integers.\<close>

definition ratio_ok :: "formats \<Rightarrow> bool" where
  "ratio_ok fm \<longleftrightarrow> (\<forall>n p. 0 < n \<and> n < 2 ^ 53 \<longrightarrow>
     (p < n \<longrightarrow> fm_ratio fm p n < 1) \<and> (p = n \<longrightarrow> fm_ratio fm p n = 1))"

lemma passed_all: "passed_in rs = length rs \<longleftrightarrow> list_all cre_passed rs"
  unfolding passed_in_def list_all_iff using length_filter_less [of _ rs cre_passed]
  by (metis filter_id_conv filter_True nat_less_le)

lemma run_cases_map:
  "length (fst (run_cases env hm td re cs w)) = length cs"
  by (induction cs arbitrary: w) (auto split: prod.splits, metis fst_conv)

text \<open>
  The gate with its default threshold lets a change through exactly if there are cases and
  every one of them passed; a single failing case is enough to stop it, and the JSON report is
  written in both cases.
\<close>

theorem gate_needs_all:
  assumes "ratio_ok fm" and "length cases < 2 ^ 53"
  shows "(cli_exit (eval_main env hm td re fm dir cases out 1 w) = 0 \<longleftrightarrow>
      cases \<noteq> [] \<and> list_all cre_passed (fst (run_cases env hm td re cases w))) \<and>
    (cases \<noteq> [] \<longrightarrow> cli_file (eval_main env hm td re fm dir cases out 1 w) =
      map_option (\<lambda>path. (path, fm_dumps fm (report_json fm (build_report (fst (run_cases env hm td re cases w)))))) out)"
proof (cases "cases = []")
  case False
  let ?rs = "fst (run_cases env hm td re cases w)"
  have n: "length ?rs = length cases" by (rule run_cases_map)
  have le: "passed_in ?rs \<le> length ?rs" by (simp add: passed_in_def)
  have "pass_rate fm (build_report ?rs) < 1 \<longleftrightarrow> passed_in ?rs \<noteq> length ?rs"
    using assms(1) [unfolded ratio_ok_def, rule_format, of "length ?rs" "passed_in ?rs"] False n le assms(2)
    by (cases "passed_in ?rs = length ?rs") (simp_all add: pass_rate_def rate_def build_report_def)
  then show ?thesis using False passed_all [of ?rs] by (simp add: eval_main_def gate_def Let_def)
qed (simp add: eval_main_def)

text \<open>Division without rounding; a greeting, and the same case with a misspelt assertion type.\<close>

definition plain_formats :: formats where
  "plain_formats =
     \<lparr>fm_ratio = (\<lambda>p n. real p / real n), fm_percent = (\<lambda>q. []), fm_dumps = (\<lambda>j. [])\<rparr>"

definition greeting :: "string \<Rightarrow> eval_case" where
  "greeting kind =
     \<lparr>ec_id = ''hi'', ec_category = ''chat'', ec_mode = ''chat'', ec_system_prompt = ''Be brief.'',
      ec_user_message = ''Hi'', ec_assertions = [\<lparr>asr_type = kind, asr_value = ''ello''\<rparr>],
      ec_golden_tool_calls = [], ec_golden_final_text = ''Hello'', ec_guardrail_policy = None\<rparr>"

lemma plain_ratio_ok: "ratio_ok plain_formats"
  by (auto simp: ratio_ok_def plain_formats_def)

lemma greeting_outcome: "chat_outcome (greeting kind) = Inr (''completed'', Some ''Hello'', ''Hi'')"
  unfolding chat_outcome_def greeting_def by code_simp

lemma greeting_passes:
  "ec_mode (greeting kind) \<noteq> ''agent''"
  "cre_passed (case run_chat_case re (greeting ''contains'') of
     Inl e \<Rightarrow> failed_case (greeting ''contains'') e | Inr r \<Rightarrow> r)"
  "\<not> cre_passed (case run_chat_case re (greeting ''contain'') of
     Inl e \<Rightarrow> failed_case (greeting ''contain'') e | Inr r \<Rightarrow> r)"
  by (simp_all add: run_chat_case_def greeting_outcome bind_r_def)
     (simp_all add: greeting_def check_assertion_def assertion_holds_def result_of_def failed_case_def
       bind_r_def opt_str_or_def str_or_def Let_def)

theorem gate_needs_all_witness:
  "\<forall>env hm td re w.
     cli_exit (eval_main env hm td re plain_formats ''evals'' [greeting ''contains''] None 1 w) = 0 \<and>
     cli_exit (eval_main env hm td re plain_formats ''evals'' [greeting ''contains'', greeting ''contain''] None 1 w) \<noteq> 0"
proof (intro allI conjI)
  fix env :: "('w golden, 'e) gw_env_scheme" and hm and td :: "('w golden, 'f, 'w golden gw_state) tool_deps"
    and re and w :: 'w
  note run = gate_needs_all [OF plain_ratio_ok, where env = env and hm = hm and td = td and re = re and w = w
      and dir = "''evals''" and out = None]
  show "cli_exit (eval_main env hm td re plain_formats ''evals'' [greeting ''contains''] None 1 w) = 0"
    using run [of "[greeting ''contains'']"] greeting_passes by (simp add: run_case_def)
  show "cli_exit (eval_main env hm td re plain_formats ''evals'' [greeting ''contains'', greeting ''contain''] None 1 w) \<noteq> 0"
    using run [of "[greeting ''contains'', greeting ''contain'']"] greeting_passes by (simp add: run_case_def)
qed

end
