(* ===== verification/Eval_Results.thy ===== *)
theory Eval_Results
  imports Eval_Report
begin

text \<open>
  What a passed evaluation case and a passed gate stand for.
\<close>

text \<open>What the assertions of a case are checked against, if the case does not raise.\<close>

definition observed :: "('w golden, 'e) gw_env_scheme \<Rightarrow> http_mock \<Rightarrow>
    ('w golden, 'f, 'w golden gw_state) tool_deps \<Rightarrow> eval_case \<Rightarrow> 'w \<Rightarrow>
    (string \<times> string option \<times> string \<times> string list) result" where
  "observed env hm td ec w =
     (if ec_mode ec = ''agent'' then
        fst (bind_e (run env (eval_runtime hm td ec) ''eval'' ''eval-case'' (ec_system_prompt ec)
              (ec_user_message ec) eval_context (ec_guardrail_policy ec)) (\<lambda>result.
             bind_e (runtime_replay env (rr_run_id result) None) (\<lambda>replayed.
             ret (rr_status result, rr_final_output result, ec_user_message ec, tools_called_in replayed)))
             (eval_state ec w))
      else bind_r (chat_outcome ec) (\<lambda>(status, txt, inp). Inr (status, txt, inp, [])))"

lemma map_r_passed:
  assumes "\<And>a v. ar_passed (g a v) \<longleftrightarrow> v = Some True"
  shows "(case map_r (\<lambda>a. bind_r (h a) (\<lambda>v. Inr (g a v))) as of
      Inl e \<Rightarrow> False | Inr rs \<Rightarrow> list_all ar_passed rs) \<longleftrightarrow> list_all (\<lambda>a. h a = Inr (Some True)) as"
proof (induction as)
  case (Cons a as)
  show ?case
  proof (cases "h a")
    case (Inr v)
    with Cons assms [of a v] show ?thesis
      by (cases "map_r (\<lambda>a. bind_r (h a) (\<lambda>v. Inr (g a v))) as") auto
  qed simp
qed simp

lemma checked:
  "(case map_r (check_assertion re st txt inp tools) as of Inl e \<Rightarrow> False | Inr rs \<Rightarrow> list_all ar_passed rs) \<longleftrightarrow>
     list_all (\<lambda>a. assertion_holds re a st (opt_str_or txt []) inp tools = Inr (Some True)) as"
  unfolding check_assertion_def Let_def by (rule map_r_passed) (simp split: option.split)

text \<open>
  C34. A case passes exactly if it runs without an exception and every one of its assertions has a
  known type and holds of what was observed; a run that raises, a pattern that does not compile
  and a misspelt assertion type all fail the case, and a case without assertions passes whenever
  it does not raise.
\<close>

theorem passed_case_holds:
  "cre_passed (fst (run_case env hm td re ec w)) \<longleftrightarrow>
    (case observed env hm td ec w of
       Inl e \<Rightarrow> False
     | Inr (status, txt, inp, tools) \<Rightarrow>
         list_all (\<lambda>a. assertion_holds re a status (opt_str_or txt []) inp tools = Inr (Some True))
           (ec_assertions ec))"
proof (cases "ec_mode ec = ''agent''")
  case True
  let ?run = "run env (eval_runtime hm td ec) ''eval'' ''eval-case'' (ec_system_prompt ec)
    (ec_user_message ec) eval_context (ec_guardrail_policy ec) (eval_state ec w)"
  obtain r s where r: "?run = (r, s)" by fastforce
  show ?thesis
  proof (cases r)
    case (Inl e)
    with True r show ?thesis
      by (simp add: run_case_def run_agent_case_def observed_def bind_e_def failed_case_def)
  next
    case (Inr result)
    obtain q s' where q: "runtime_replay env (rr_run_id result) None s = (q, s')" by fastforce
    show ?thesis
    proof (cases q)
      case (Inl e)
      with True r Inr q show ?thesis
        by (simp add: run_case_def run_agent_case_def observed_def bind_e_def failed_case_def)
    next
      case (Inr rep)
      with True r \<open>r = Inr result\<close> q
        checked [of re "rr_status result" "rr_final_output result" "ec_user_message ec" "tools_called_in rep"
          "ec_assertions ec"]
      show ?thesis
        by (auto simp: run_case_def run_agent_case_def observed_def bind_e_def ret_def lift_result_def
            failed_case_def result_of_def split: sum.splits)
    qed
  qed
next
  case False
  show ?thesis
  proof (cases "chat_outcome ec")
    case (Inl e)
    with False show ?thesis by (simp add: run_case_def run_chat_case_def observed_def failed_case_def)
  next
    case (Inr p)
    obtain st shown inp where p: "p = (st, shown, inp)" by (cases p) auto
    with False Inr checked [of re st shown inp "[]" "ec_assertions ec"] show ?thesis
      by (auto simp: run_case_def run_chat_case_def observed_def failed_case_def result_of_def split: sum.splits)
  qed
qed

text \<open>
  The \<open>input_contains\<close> and \<open>input_not_contains\<close> assertions mean two things: in chat mode they
  are checked against the text that the guardrails let through, in agent mode against the
  message as the user wrote it, redacted or not, so a case that checks redaction with them
  always fails there.
\<close>

theorem agent_input_unscreened:
  "case observed env hm td ec w of
     Inl e \<Rightarrow> True
   | Inr (status, txt, inp, tools) \<Rightarrow>
       if ec_mode ec = ''agent'' then inp = ec_user_message ec
       else \<exists>pre. screen_request guardrails_yaml (ec_user_message ec) (ec_guardrail_policy ec) = Inr pre \<and>
         inp = (if gr_allowed pre then gr_text pre else ec_user_message ec)"
proof (cases "ec_mode ec = ''agent''")
  case True
  then show ?thesis
    by (auto simp: observed_def bind_e_def ret_def split: prod.splits sum.splits)
next
  case False
  then show ?thesis
    by (cases "screen_request guardrails_yaml (ec_user_message ec) (ec_guardrail_policy ec)")
      (auto simp: observed_def chat_outcome_def bind_r_def split: sum.splits if_splits)
qed

end
