(* ===== verification/Router_Concurrency.thy ===== *)
theory Router_Concurrency
  imports Router
begin

text \<open>
  Requests in flight at the same time. The event loop changes from one request to another only
  where \<open>route\<close> waits for a provider, so the loop body of \<open>providers/router.py\<close> falls into the part
  before the \<open>await\<close> and the part after it; a step of the system runs one request from one
  \<open>await\<close> to the next, on the breakers and the log that all requests share.
\<close>

section \<open>The loop body, cut at the \<open>await\<close>\<close>

text \<open>What the body does before it waits: go on to the next candidate, raise, or ask a provider.\<close>

datatype 'w begun = Skipped | Broken exn | Asked "'w provider" chat_request real

definition begin_attempt :: "('w, 'e) env_scheme \<Rightarrow> 'w router \<Rightarrow> chat_request \<Rightarrow> string \<Rightarrow>
    ('w, 'b) gateway_scheme \<Rightarrow> 'w begun \<times> ('w, 'b) gateway_scheme" where
  "begin_attempt env rt request p s =
     (case rt_providers rt p of
        None \<Rightarrow> (Skipped, s)
      | Some prov \<Rightarrow>
     (case before_call env p s of
        (Inl exc, s1) \<Rightarrow> (Skipped, s1)
      | (Inr _, s1) \<Rightarrow>
     (case map_of (rp_providers (rt_policy rt)) p of
        None \<Rightarrow> (Broken (KeyError (py_repr p)), s1)
      | Some cfg \<Rightarrow>
          (let (started, s2) = read_clock env s1
           in (Asked prov (request\<lparr>req_model := str_or (req_model request) (pc_model cfg)\<rparr>) started,
               emit (SpanStart p (req_request_id request) (req_tenant_id request)) s2)))))"

text \<open>What it does with what the provider returned or raised.\<close>

definition end_attempt :: "('w, 'e) env_scheme \<Rightarrow> string \<Rightarrow> real \<Rightarrow> chat_response result \<Rightarrow>
    ('w, 'b) gateway_scheme \<Rightarrow> turn \<times> ('w, 'b) gateway_scheme" where
  "end_attempt env p started r s =
     (case r of
        Inl exc \<Rightarrow>
          if is_auth_error exc then
            (Raise exc, emit (SpanAttr ''aegis.outcome'' ''auth_error'')
               (observe env p started ''auth_error'' None s))
          else if is_provider_error exc then
            (Continue, emit (SpanAttr ''aegis.outcome'' ''error'')
               (observe env p started ''error'' None (on_failure env p s)))
          else (Raise exc, s)
      | Inr response \<Rightarrow>
          (Return response,
           on_success p (observe env p started ''success'' (Some response)
             (emit (SpanTokens ''aegis.output_tokens'' (output_tokens (resp_usage response)))
             (emit (SpanTokens ''aegis.input_tokens'' (input_tokens (resp_usage response)))
             (emit (SpanAttr ''aegis.outcome'' ''success'') s))))))"

lemma attempt_cut:
  "attempt env rt request p s =
     (case begin_attempt env rt request p s of
        (Skipped, s1) \<Rightarrow> (Continue, s1)
      | (Broken e, s1) \<Rightarrow> (Raise e, s1)
      | (Asked prov rq started, s1) \<Rightarrow>
          (let (r, s2) = call_provider prov rq s1 in end_attempt env p started r s2))"
  by (simp add: attempt_def begin_attempt_def end_attempt_def Let_def
      split: option.split prod.split sum.split)

section \<open>One request\<close>

text \<open>
  Where a request is: not begun, waiting for a provider with the candidates that are left, or
  done.
\<close>

datatype 'w progress =
    Fresh
  | Awaiting string "'w provider" chat_request real "string list"
  | Done "chat_response result"

record 'w task =
  tk_request :: chat_request
  tk_context :: routing_context
  tk_progress :: "'w progress"

text \<open>The loop over the candidates, up to the next \<open>await\<close>.\<close>

fun advance :: "('w, 'e) env_scheme \<Rightarrow> 'w router \<Rightarrow> chat_request \<Rightarrow> string list \<Rightarrow> string list \<Rightarrow>
    ('w, 'b) gateway_scheme \<Rightarrow> 'w progress \<times> ('w, 'b) gateway_scheme" where
  "advance env rt request cands [] s =
     (Done (Inl (NoHealthyProviderError (''no healthy provider among candidates '' @ list_repr cands))), s)"
| "advance env rt request cands (p # ps) s =
     (case begin_attempt env rt request p s of
        (Skipped, s1) \<Rightarrow> advance env rt request cands ps s1
      | (Broken e, s1) \<Rightarrow> (Done (Inl e), s1)
      | (Asked prov rq started, s1) \<Rightarrow> (Awaiting p prov rq started ps, s1))"

definition start_task :: "('w, 'e) env_scheme \<Rightarrow> 'w router \<Rightarrow> 'w task \<Rightarrow>
    ('w, 'b) gateway_scheme \<Rightarrow> 'w progress \<times> ('w, 'b) gateway_scheme" where
  "start_task env rt t s =
     (let candidates = route_candidates (rt_policy rt) (tk_context t)
      in if candidates = []
         then (Done (Inl (NoHealthyProviderError ''routing policy produced zero candidate providers'')), s)
         else advance env rt (tk_request t) candidates candidates s)"

definition resume_task :: "('w, 'e) env_scheme \<Rightarrow> 'w router \<Rightarrow> 'w task \<Rightarrow> string \<Rightarrow> real \<Rightarrow> string list \<Rightarrow>
    chat_response result \<Rightarrow> ('w, 'b) gateway_scheme \<Rightarrow> 'w progress \<times> ('w, 'b) gateway_scheme" where
  "resume_task env rt t p started ps r s =
     (case end_attempt env p started r s of
        (Continue, s1) \<Rightarrow>
          advance env rt (tk_request t) (route_candidates (rt_policy rt) (tk_context t)) ps s1
      | (Return response, s1) \<Rightarrow> (Done (Inr response), s1)
      | (Raise e, s1) \<Rightarrow> (Done (Inl e), s1))"

section \<open>Requests in flight\<close>

text \<open>
  A request begins; a provider answers the request that waits for it; and the outside world
  changes on its own at any time.
\<close>

inductive step :: "('w, 'e) env_scheme \<Rightarrow> 'w router \<Rightarrow> nat option \<Rightarrow>
    'w task list \<times> ('w, 'b) gateway_scheme \<Rightarrow> 'w task list \<times> ('w, 'b) gateway_scheme \<Rightarrow> bool" for env rt where
  begins: "i < length ts \<Longrightarrow> tk_progress (ts ! i) = Fresh \<Longrightarrow> start_task env rt (ts ! i) s = (g, s') \<Longrightarrow>
     step env rt (Some i) (ts, s) (ts[i := (ts ! i)\<lparr>tk_progress := g\<rparr>], s')"
| answers: "i < length ts \<Longrightarrow> tk_progress (ts ! i) = Awaiting p prov rq started ps \<Longrightarrow>
     call_provider prov rq s = (r, s1) \<Longrightarrow> resume_task env rt (ts ! i) p started ps r s1 = (g, s') \<Longrightarrow>
     step env rt (Some i) (ts, s) (ts[i := (ts ! i)\<lparr>tk_progress := g\<rparr>], s')"
| elapses: "step env rt None (ts, s) (ts, s\<lparr>world := w\<rparr>)"

inductive_cases stepE [consumes 1, case_names begins answers elapses]: "step env rt l (ts, s) c"
inductive_cases turnE [consumes 1, case_names begins answers]: "step env rt (Some i) (ts, s) c"

text \<open>A schedule: which request moved, or that the world did, step by step.\<close>

inductive schedule :: "('w, 'e) env_scheme \<Rightarrow> 'w router \<Rightarrow> nat option list \<Rightarrow>
    'w task list \<times> ('w, 'b) gateway_scheme \<Rightarrow> 'w task list \<times> ('w, 'b) gateway_scheme \<Rightarrow> bool" for env rt where
  nothing: "schedule env rt [] c c"
| further: "schedule env rt ls c c' \<Longrightarrow> step env rt l c' c'' \<Longrightarrow> schedule env rt (ls @ [l]) c c''"

lemma schedule_append:
  "schedule env rt ms c' c'' \<Longrightarrow> schedule env rt ls c c' \<Longrightarrow> schedule env rt (ls @ ms) c c''"
  by (induction rule: schedule.induct) (auto simp: append_assoc [symmetric] simp del: append_assoc
      intro: schedule.intros)

lemma schedule_step: "step env rt l c c' \<Longrightarrow> schedule env rt ms c' c'' \<Longrightarrow> schedule env rt (l # ms) c c''"
  using schedule_append [of env rt ms c' c'' "[l]" c] schedule.further [OF schedule.nothing] by fastforce

definition fresh_task :: "chat_request \<Rightarrow> routing_context \<Rightarrow> 'w task" where
  "fresh_task rq c = \<lparr>tk_request = rq, tk_context = c, tk_progress = Fresh\<rparr>"

section \<open>A request on its own\<close>

lemma route_loop_cut:
  "route_loop env rt request cands ps s =
     (case advance env rt request cands ps s of
        (Fresh, s1) \<Rightarrow> (Inl (OtherError []), s1)
      | (Done r, s1) \<Rightarrow> (r, s1)
      | (Awaiting p prov rq started qs, s1) \<Rightarrow>
          (let (r, s2) = call_provider prov rq s1
           in case end_attempt env p started r s2 of
                (Continue, s3) \<Rightarrow> route_loop env rt request cands qs s3
              | (Return response, s3) \<Rightarrow> (Inr response, s3)
              | (Raise e, s3) \<Rightarrow> (Inl e, s3)))"
proof (induction ps arbitrary: s)
  case (Cons p ps)
  show ?case
    by (cases "begin_attempt env rt request p s"; cases "fst (begin_attempt env rt request p s)")
      (simp_all add: attempt_cut Cons.IH split: prod.split turn.split)
qed simp

lemma advance_not_fresh: "fst (advance env rt request cands ps s) \<noteq> Fresh"
  by (induction ps arbitrary: s) (auto split: prod.splits begun.splits simp: prod.case_eq_if)

lemma advance_suffix:
  "advance env rt request cands ps s = (Awaiting p prov rq st qs, s') \<Longrightarrow>
     \<exists>pre. ps = pre @ p # qs \<and> rt_providers rt p = Some prov"
proof (induction ps arbitrary: s)
  case (Cons a ps)
  show ?case
  proof (cases "begin_attempt env rt request a s")
    case (Pair b s1)
    show ?thesis
    proof (cases b)
      case Skipped
      with Cons Pair obtain pre where "ps = pre @ p # qs \<and> rt_providers rt p = Some prov" by auto
      then show ?thesis by (intro exI [of _ "a # pre"]) simp
    next
      case (Asked prov' rq' st')
      with Cons.prems Pair show ?thesis
        by (auto simp: begin_attempt_def Let_def split: option.splits prod.splits sum.splits)
    qed (use Cons.prems Pair in auto)
  qed
qed simp

lemma loop_schedule:
  assumes "advance env rt (tk_request t) (route_candidates (rt_policy rt) (tk_context t)) ps s = (g, s1)"
    and "i < length ts" "ts ! i = t\<lparr>tk_progress := g\<rparr>"
    and "route_loop env rt (tk_request t) (route_candidates (rt_policy rt) (tk_context t)) ps s = (r, s')"
  shows "\<exists>ls. set ls \<subseteq> {Some i} \<and> schedule env rt ls (ts, s1) (ts[i := t\<lparr>tk_progress := Done r\<rparr>], s')"
  using assms
proof (induction "length ps" arbitrary: ps s s1 g ts rule: less_induct)
  case less
  let ?c = "route_candidates (rt_policy rt) (tk_context t)"
  show ?case
  proof (cases g)
    case Fresh
    then show ?thesis using advance_not_fresh [of env rt "tk_request t" ?c ps s] less.prems(1) by simp
  next
    case (Done q)
    with less.prems have "q = r \<and> s1 = s'" by (simp add: route_loop_cut [of env rt _ ?c ps s])
    moreover have "ts[i := t\<lparr>tk_progress := g\<rparr>] = ts" using less.prems(3) by (metis list_update_id)
    ultimately show ?thesis using Done by (intro exI [of _ "[]"]) (simp add: schedule.nothing)
  next
    case (Awaiting p prov rq started qs)
    obtain x s2 where call: "call_provider prov rq s1 = (x, s2)" by fastforce
    obtain u s3 where fin: "end_attempt env p started x s2 = (u, s3)" by fastforce
    obtain g' s4 where g': "resume_task env rt (ts ! i) p started qs x s2 = (g', s4)" by fastforce
    let ?ts = "ts[i := t\<lparr>tk_progress := g'\<rparr>]"
    have moved: "step env rt (Some i) (ts, s1) (?ts, s4)"
      using step.answers [OF less.prems(2) _ call g'] Awaiting less.prems(3) by simp
    have rest: "(r, s') = (case u of Continue \<Rightarrow> route_loop env rt (tk_request t) ?c qs s3
        | Return resp \<Rightarrow> (Inr resp, s3) | Raise e \<Rightarrow> (Inl e, s3))"
      using less.prems(1,4) Awaiting call fin by (simp add: route_loop_cut [of env rt _ ?c ps s] split: turn.splits)
    have "\<exists>ls. set ls \<subseteq> {Some i} \<and> schedule env rt ls (?ts, s4) (?ts[i := t\<lparr>tk_progress := Done r\<rparr>], s')"
    proof (cases u)
      case Continue
      have "length qs < length ps"
        using advance_suffix [OF less.prems(1) [unfolded Awaiting]] by auto
      moreover have "advance env rt (tk_request t) ?c qs s3 = (g', s4)"
        using g' fin Continue less.prems(3) by (simp add: resume_task_def)
      ultimately show ?thesis using less.hyps [of qs s3 g' s4 ?ts] less.prems(2) rest Continue by simp
    next
      case (Return resp)
      then show ?thesis using g' fin rest by (intro exI [of _ "[]"]) (simp add: resume_task_def schedule.nothing)
    next
      case (Raise e)
      then show ?thesis using g' fin rest by (intro exI [of _ "[]"]) (simp add: resume_task_def schedule.nothing)
    qed
    then obtain ls where "set ls \<subseteq> {Some i}" "schedule env rt ls (?ts, s4) (?ts[i := t\<lparr>tk_progress := Done r\<rparr>], s')"
      by blast
    then show ?thesis using schedule_step [OF moved] by (intro exI [of _ "Some i # ls"]) simp
  qed
qed

section \<open>What every interleaving keeps\<close>

text \<open>
  A property of the breakers that each of their operations keeps is kept by every schedule:
  nothing else writes to them, and no operation is interrupted.
\<close>

locale registry_invariant =
  fixes I :: "('w, 'b) gateway_scheme \<Rightarrow> bool" and env :: "('w, 'e) env_scheme"
  assumes I_frame: "breakers s = breakers s' \<Longrightarrow> I s \<Longrightarrow> I s'"
    and I_before: "I s \<Longrightarrow> I (snd (before_call env p s))"
    and I_success: "I s \<Longrightarrow> I (on_success p s)"
    and I_failure: "I s \<Longrightarrow> I (on_failure env p s)"
begin

lemma I_begin:
  assumes "I s"
  shows "I (snd (begin_attempt env rt rq p s))"
proof (cases "before_call env p s")
  case (Pair r s1)
  with I_before [OF assms, of p] have "I s1" by simp
  moreover have "I s2" if "read_clock env s1 = (t, s2)" for t s2
    using I_frame [OF _ \<open>I s1\<close>] breakers_read_clock [OF that] by simp
  ultimately show ?thesis using assms Pair I_frame [of _ "emit _ _"]
    by (auto simp: begin_attempt_def Let_def split: option.split prod.split sum.split)
qed

lemma I_observe: "I s \<Longrightarrow> I (observe env p started out r s)"
  by (erule I_frame [rotated]) simp

lemma I_emit: "I s \<Longrightarrow> I (emit e s)"
  by (erule I_frame [rotated]) simp

lemma I_end: "I s \<Longrightarrow> I (snd (end_attempt env p started r s))"
  by (auto simp: end_attempt_def intro!: I_failure I_success I_observe I_emit split: sum.split)

lemma I_advance: "I s \<Longrightarrow> I (snd (advance env rt rq cands ps s))"
proof (induction ps arbitrary: s)
  case (Cons p ps)
  from I_begin [OF Cons.prems, of rt rq p] Cons.IH show ?case
    by (cases "begin_attempt env rt rq p s"; cases "fst (begin_attempt env rt rq p s)") auto
qed simp

lemma I_resume:
  assumes "I s"
  shows "I (snd (resume_task env rt t p started ps r s))"
  using I_end [OF assms, of p started r] I_advance
  by (cases "end_attempt env p started r s"; cases "fst (end_attempt env p started r s)")
    (auto simp: resume_task_def)

lemma I_step:
  assumes "step env rt l (ts, s) (ts', s')" and "I s"
  shows "I s'"
  using assms(1)
proof (cases rule: stepE)
  case (begins i s2 g)
  then show ?thesis using assms(2) I_advance [OF assms(2), of rt "tk_request (ts ! i)"
      "route_candidates (rt_policy rt) (tk_context (ts ! i))" "route_candidates (rt_policy rt) (tk_context (ts ! i))"]
    by (auto simp: start_task_def Let_def split: if_splits)
next
  case (answers i p prov rq started ps r s1 g)
  have "I s1" using I_frame [OF _ assms(2)] call_provider_breakers [OF answers(5)] by simp
  from I_resume [OF this, of rt "ts ! i" p started ps r] answers show ?thesis by auto
next
  case (elapses w)
  then show ?thesis using I_frame [OF _ assms(2)] by simp
qed

lemma I_schedule:
  assumes "schedule env rt ls (ts, s) (ts', s')" and "I s"
  shows "I s'"
  using assms
  by (induction ls "(ts, s)" "(ts', s')" arbitrary: ts' s' rule: schedule.induct) (auto dest: I_step)

end

interpretation consistent: registry_invariant "\<lambda>s. breakers_ok (breakers s)" env
  by unfold_locales (simp_all add: breakers_ok_before breakers_ok_success breakers_ok_failure)

section \<open>Each request\<close>

text \<open>The turns a request has left at most.\<close>

definition turns_left :: "'w router \<Rightarrow> 'w task \<Rightarrow> nat" where
  "turns_left rt t =
     (case tk_progress t of
        Fresh \<Rightarrow> Suc (length (route_candidates (rt_policy rt) (tk_context t)))
      | Awaiting p prov rq started ps \<Rightarrow> Suc (length ps)
      | Done r \<Rightarrow> 0)"

text \<open>A request waits for one of its own candidates, and with its own content.\<close>

definition own_call :: "'w router \<Rightarrow> 'w task \<Rightarrow> string \<Rightarrow> 'w provider \<Rightarrow> chat_request \<Rightarrow> bool" where
  "own_call rt t p prov rq \<longleftrightarrow> p \<in> set (route_candidates (rt_policy rt) (tk_context t)) \<and>
     rt_providers rt p = Some prov \<and>
     (\<exists>cfg. map_of (rp_providers (rt_policy rt)) p = Some cfg \<and>
        rq = (tk_request t)\<lparr>req_model := str_or (req_model (tk_request t)) (pc_model cfg)\<rparr>)"

definition progress_own :: "'w router \<Rightarrow> 'w task \<Rightarrow> 'w progress \<Rightarrow> bool" where
  "progress_own rt t g \<longleftrightarrow>
     (case g of
        Fresh \<Rightarrow> True
      | Awaiting p prov rq started ps \<Rightarrow> own_call rt t p prov rq \<and>
          set ps \<subseteq> set (route_candidates (rt_policy rt) (tk_context t))
      | Done r \<Rightarrow>
          (case r of
             Inl e \<Rightarrow> True
           | Inr resp \<Rightarrow> \<exists>p prov rq w w'. own_call rt t p prov rq \<and> prov_chat prov rq w = (Inr resp, w')))"

lemma begin_attempt_asked:
  assumes "begin_attempt env rt rq p s = (Asked prov q st, s')"
  shows "rt_providers rt p = Some prov \<and> (\<exists>cfg. map_of (rp_providers (rt_policy rt)) p = Some cfg \<and>
    q = rq\<lparr>req_model := str_or (req_model rq) (pc_model cfg)\<rparr>)"
  using assms by (auto simp: begin_attempt_def Let_def split: option.splits prod.splits sum.splits)

lemma advance_turn:
  assumes "advance env rt (tk_request t) cands ps s = (g, s')"
    and "set ps \<subseteq> set (route_candidates (rt_policy rt) (tk_context t))"
  shows "turns_left rt (t\<lparr>tk_progress := g\<rparr>) \<le> length ps \<and> progress_own rt t g"
  using assms
proof (induction ps arbitrary: s)
  case Nil
  then show ?case by (auto simp: turns_left_def progress_own_def)
next
  case (Cons p ps)
  obtain b s1 where b: "begin_attempt env rt (tk_request t) p s = (b, s1)" by fastforce
  show ?case
  proof (cases b)
    case Skipped
    then have "advance env rt (tk_request t) cands ps s1 = (g, s')" using Cons.prems(1) b by simp
    from Cons.IH [OF this] Cons.prems(2) show ?thesis by simp
  next
    case (Broken e)
    then show ?thesis using Cons.prems b by (auto simp: turns_left_def progress_own_def)
  next
    case (Asked prov q st)
    then have "g = Awaiting p prov q st ps" using Cons.prems(1) b by simp
    then show ?thesis using begin_attempt_asked [of env rt "tk_request t" p s prov q st s1] b Asked Cons.prems(2)
      by (simp add: turns_left_def progress_own_def own_call_def)
  qed
qed

lemma resume_turn:
  assumes "resume_task env rt t p st ps r s = (g, s')" and "own_call rt t p prov rq"
    and "prov_chat prov rq w = (r, w')" and "set ps \<subseteq> set (route_candidates (rt_policy rt) (tk_context t))"
  shows "turns_left rt (t\<lparr>tk_progress := g\<rparr>) \<le> length ps \<and> progress_own rt t g"
proof (cases "end_attempt env p st r s")
  case (Pair u s1)
  show ?thesis
  proof (cases u)
    case Continue
    then have "advance env rt (tk_request t) (route_candidates (rt_policy rt) (tk_context t)) ps s1 = (g, s')"
      using assms(1) Pair by (simp add: resume_task_def)
    then show ?thesis using assms(4) by (rule advance_turn)
  next
    case (Return resp)
    with Pair have "r = Inr resp" by (auto simp: end_attempt_def split: sum.splits if_splits)
    then have "progress_own rt t (Done (Inr resp))" using assms(2,3) by (auto simp: progress_own_def) blast
    then show ?thesis using assms(1) Pair Return by (auto simp: resume_task_def turns_left_def)
  qed (use assms(1) Pair in \<open>auto simp: resume_task_def turns_left_def progress_own_def\<close>)
qed

lemma step_turn:
  assumes "step env rt l (ts, s) (ts', s')" and "\<forall>t \<in> set ts. progress_own rt t (tk_progress t)"
  shows "case l of
      None \<Rightarrow> ts' = ts
    | Some i \<Rightarrow> i < length ts \<and> (\<exists>g. ts' = ts[i := (ts ! i)\<lparr>tk_progress := g\<rparr>] \<and> progress_own rt (ts ! i) g \<and>
        turns_left rt ((ts ! i)\<lparr>tk_progress := g\<rparr>) < turns_left rt (ts ! i))"
  using assms(1)
proof (cases rule: stepE)
  case (begins i g s2)
  let ?c = "route_candidates (rt_policy rt) (tk_context (ts ! i))"
  have "turns_left rt ((ts ! i)\<lparr>tk_progress := g\<rparr>) \<le> length ?c \<and> progress_own rt (ts ! i) g"
    using begins(5) advance_turn [of env rt "ts ! i" ?c ?c s g s2]
    by (auto simp: start_task_def Let_def turns_left_def progress_own_def split: if_splits)
  then show ?thesis using begins by (auto simp: turns_left_def)
next
  case (answers i p prov rq started ps r s1 g s2)
  have own: "own_call rt (ts ! i) p prov rq \<and> set ps \<subseteq> set (route_candidates (rt_policy rt) (tk_context (ts ! i)))"
    using assms(2) answers nth_mem [of i ts] by (fastforce simp: progress_own_def)
  obtain w' where "prov_chat prov rq (world s) = (r, w')"
    using answers(5) by (auto simp: call_provider_def split: prod.splits)
  with own answers resume_turn [OF answers(6), of prov rq "world s" w'] show ?thesis
    by (auto simp: turns_left_def)
qed simp

text \<open>A request of a schedule: whose it is, what it may still do, and how often it moved.\<close>

definition turns_of :: "nat \<Rightarrow> nat option list \<Rightarrow> nat" where
  "turns_of i ls = length (filter (\<lambda>l. l = Some i) ls)"

lemma progress_own_same [simp]: "progress_own rt (t\<lparr>tk_progress := g\<rparr>) h = progress_own rt t h"
  by (simp add: progress_own_def own_call_def split: progress.split sum.split)

lemma schedule_turns:
  assumes "schedule env rt ls (ts, s) (ts', s')" and "\<forall>t \<in> set ts. tk_progress t = Fresh"
  shows "length ts' = length ts \<and> (\<forall>i < length ts. \<exists>g. ts' ! i = (ts ! i)\<lparr>tk_progress := g\<rparr> \<and>
    progress_own rt (ts ! i) g \<and>
    turns_of i ls + turns_left rt (ts' ! i) \<le> Suc (length (route_candidates (rt_policy rt) (tk_context (ts ! i)))))"
  using assms(1)
proof (induction ls "(ts, s)" "(ts', s')" arbitrary: ts' s' rule: schedule.induct)
  case nothing
  have "ts ! i = (ts ! i)\<lparr>tk_progress := Fresh\<rparr>" "tk_progress (ts ! i) = Fresh" if "i < length ts" for i
    using assms(2) that by simp_all
  then show ?case
    by (auto simp: turns_of_def turns_left_def progress_own_def intro!: exI [of _ Fresh])
next
  case (further ls c' l)
  obtain us u where c': "c' = (us, u)" by (cases c')
  note IH = further(2) [OF c']
  have "\<forall>t \<in> set us. progress_own rt t (tk_progress t)"
    using IH by (auto simp: in_set_conv_nth) (metis progress_own_same task.select_convs(3) task.surjective task.update_convs(3))
  note turn = step_turn [OF further(3) [unfolded c'] this]
  show ?case
  proof (cases l)
    case None
    then show ?thesis using turn IH by (simp add: turns_of_def)
  next
    case (Some j)
    then obtain h where j: "j < length us" "ts' = us[j := (us ! j)\<lparr>tk_progress := h\<rparr>]"
        "progress_own rt (us ! j) h" "turns_left rt ((us ! j)\<lparr>tk_progress := h\<rparr>) < turns_left rt (us ! j)"
      using turn by auto
    have "\<exists>g. ts' ! i = (ts ! i)\<lparr>tk_progress := g\<rparr> \<and> progress_own rt (ts ! i) g \<and>
        turns_of i (ls @ [l]) + turns_left rt (ts' ! i) \<le> Suc (length (route_candidates (rt_policy rt) (tk_context (ts ! i))))"
      if i: "i < length ts" for i
    proof -
      obtain g where g: "us ! i = (ts ! i)\<lparr>tk_progress := g\<rparr>" "progress_own rt (ts ! i) g"
          "turns_of i ls + turns_left rt (us ! i) \<le> Suc (length (route_candidates (rt_policy rt) (tk_context (ts ! i))))"
        using IH i by blast
      show ?thesis
      proof (cases "i = j")
        case True
        then show ?thesis using g j Some by (intro exI [of _ h]) (simp add: turns_of_def)
      next
        case False
        then show ?thesis using g j Some by (intro exI [of _ g]) (simp add: turns_of_def)
      qed
    qed
    then show ?thesis using j IH by simp
  qed
qed

lemma turns_left_0: "turns_left rt t = 0 \<longleftrightarrow> (\<exists>r. tk_progress t = Done r)"
  by (simp add: turns_left_def split: progress.split)

lemma turn_enabled:
  assumes "i < length ts" and "turns_left rt (ts ! i) \<noteq> 0"
  shows "\<exists>c'. step env rt (Some i) (ts, s) c'"
proof (cases "tk_progress (ts ! i)")
  case Fresh
  then show ?thesis using step.begins [OF assms(1)] by (metis prod.collapse)
next
  case (Awaiting p prov rq started ps)
  then show ?thesis using step.answers [OF assms(1)] by (metis prod.collapse)
qed (use assms(2) turns_left_0 [of rt "ts ! i"] in auto)

section \<open>Requests for the witnesses\<close>

definition demo_task :: "string \<Rightarrow> nat task" where
  "demo_task d = fresh_task demo_request (ctx_of d ''standard'')"

lemma demo_task_simps [simp]:
  "tk_progress (demo_task d) = Fresh" "tk_request (demo_task d) = demo_request"
  "tk_context (demo_task d) = ctx_of d ''standard''"
  by (simp_all add: demo_task_def fresh_task_def)

text \<open>Two requests of which the second, a confidential one, has begun.\<close>

definition demo_begun :: "nat task list \<times> nat gateway" where
  "demo_begun =
     (let (g, s) = start_task tick_env demo_router (demo_task ''confidential'') demo_gateway
      in ([demo_task ''internal'', (demo_task ''confidential'')\<lparr>tk_progress := g\<rparr>], s))"

lemma demo_begun_schedule:
  "schedule tick_env demo_router [Some 1] ([demo_task ''internal'', demo_task ''confidential''], demo_gateway)
     (fst demo_begun, snd demo_begun)"
  using schedule_step [OF step.begins schedule.nothing,
      of 1 "[demo_task ''internal'', demo_task ''confidential'']" tick_env demo_router demo_gateway]
  by (auto simp: demo_begun_def split: prod.split)

section \<open>Properties\<close>

text \<open>
  C14. The interleaved system has the sequential one in it: a request that no other interrupts
  goes, turn by turn, to the result and the state that \<open>route\<close> gives, wherever it stands among
  the requests in flight.
\<close>

theorem route_is_schedule:
  assumes "i < length ts" and "ts ! i = fresh_task rq c" and "route env rt rq c s = (r, s')"
  shows "\<exists>ls. set ls \<subseteq> {Some i} \<and>
    schedule env rt ls (ts, s) (ts[i := (fresh_task rq c)\<lparr>tk_progress := Done r\<rparr>], s')"
proof -
  let ?c = "route_candidates (rt_policy rt) c" and ?t = "fresh_task rq c :: 'a task"
  obtain g s1 where g: "start_task env rt ?t s = (g, s1)" by fastforce
  let ?ts = "ts[i := ?t\<lparr>tk_progress := g\<rparr>]"
  have first: "step env rt (Some i) (ts, s) (?ts, s1)"
    using step.begins [of i ts env rt s g s1] assms(1,2) g by (simp add: fresh_task_def)
  have "\<exists>ls. set ls \<subseteq> {Some i} \<and> schedule env rt ls (?ts, s1) (?ts[i := ?t\<lparr>tk_progress := Done r\<rparr>], s')"
  proof (cases "?c = []")
    case True
    then show ?thesis using g assms(3)
      by (intro exI [of _ "[]"]) (simp add: start_task_def route_def fresh_task_def schedule.nothing)
  next
    case False
    then show ?thesis
      using loop_schedule [of env rt ?t ?c s g s1 i ?ts r s'] g assms(1,3)
      by (simp add: start_task_def route_def fresh_task_def Let_def)
  qed
  then obtain ls where "set ls \<subseteq> {Some i}" "schedule env rt ls (?ts, s1) (?ts[i := ?t\<lparr>tk_progress := Done r\<rparr>], s')"
    by blast
  then show ?thesis using schedule_step [OF first] by (intro exI [of _ "Some i # ls"]) simp
qed

theorem route_is_schedule_witness:
  "\<exists>ls. set ls \<subseteq> {Some 1} \<and>
    schedule tick_env demo_router ls ([demo_task ''confidential'', demo_task ''internal''], demo_gateway)
      ([demo_task ''confidential'', (demo_task ''internal'')\<lparr>tk_progress := Done
          (fst (route tick_env demo_router demo_request (ctx_of ''internal'' ''standard'') demo_gateway))\<rparr>],
       snd (route tick_env demo_router demo_request (ctx_of ''internal'' ''standard'') demo_gateway))"
  using route_is_schedule [of 1 "[demo_task ''confidential'', demo_task ''internal'']" demo_request
      "ctx_of ''internal'' ''standard''" tick_env demo_router demo_gateway]
  by (simp add: demo_task_def)

text \<open>
  C13. Requests in flight do not mix: in every interleaving a request waits for a candidate of its
  own routing context only, with its own content, and an answer it returns is one that such a
  candidate gave to that content; with the shipped policy confidential and restricted requests
  wait for the local provider only, whatever else is in flight.
\<close>

theorem concurrent_answers_own:
  assumes "schedule env rt ls (ts, s) (ts', s')" and "\<forall>t \<in> set ts. tk_progress t = Fresh"
    and "i < length ts"
  shows "\<exists>g. ts' ! i = (ts ! i)\<lparr>tk_progress := g\<rparr> \<and>
    (case g of
       Fresh \<Rightarrow> True
     | Awaiting p prov rq started ps \<Rightarrow> own_call rt (ts ! i) p prov rq \<and>
         (rt_policy rt = routing_yaml \<and>
          ctx_data_classification (tk_context (ts ! i)) \<in> {''confidential'', ''restricted''} \<longrightarrow> p = ''local'')
     | Done (Inl e) \<Rightarrow> True
     | Done (Inr resp) \<Rightarrow> \<exists>p prov rq w w'. own_call rt (ts ! i) p prov rq \<and>
         prov_chat prov rq w = (Inr resp, w') \<and>
         (rt_policy rt = routing_yaml \<and>
          ctx_data_classification (tk_context (ts ! i)) \<in> {''confidential'', ''restricted''} \<longrightarrow> p = ''local''))"
proof -
  obtain g where g: "ts' ! i = (ts ! i)\<lparr>tk_progress := g\<rparr>" "progress_own rt (ts ! i) g"
    using schedule_turns [OF assms(1,2)] assms(3) by blast
  have loc: "p = ''local''" if "own_call rt (ts ! i) p prov rq" "rt_policy rt = routing_yaml"
      "ctx_data_classification (tk_context (ts ! i)) \<in> {''confidential'', ''restricted''}" for p prov rq
    using that by (auto simp: own_call_def route_candidates_def candidates_for_def routing_yaml_def matches_def
        context_dump_def slice_to_def)
  show ?thesis
    using g loc by (intro exI [of _ g]) (auto simp: progress_own_def split: progress.split sum.split; blast)
qed

theorem concurrent_answers_own_witness:
  "\<exists>g. fst demo_begun ! 1 = (demo_task ''confidential'')\<lparr>tk_progress := g\<rparr> \<and>
    (case g of
       Awaiting p prov rq started ps \<Rightarrow> own_call demo_router (demo_task ''confidential'') p prov rq \<and> p = ''local''
     | _ \<Rightarrow> True)"
proof -
  have fresh: "\<forall>t \<in> set [demo_task ''internal'', demo_task ''confidential'']. tk_progress t = Fresh"
    by simp
  have pol: "rt_policy demo_router = routing_yaml" by (simp add: demo_router_def)
  have cls: "ctx_data_classification (ctx_of ''confidential'' ''standard'') = ''confidential''"
    by (simp add: ctx_of_def)
  show ?thesis
    using concurrent_answers_own [OF demo_begun_schedule fresh, of 1]
    by (auto simp: pol cls split: progress.splits)
qed

text \<open>
  C15. Every request ends, however the others behave: in any interleaving it moves at most once
  more than it has candidates, as long as it has not ended its next move is possible whatever
  the others wait for, and after that many moves it has ended.
\<close>

theorem request_ends:
  assumes "schedule env rt ls (ts, s) (ts', s')" and "\<forall>t \<in> set ts. tk_progress t = Fresh"
    and "i < length ts"
  shows "turns_of i ls \<le> Suc (length (route_candidates (rt_policy rt) (tk_context (ts ! i)))) \<and>
    ((\<exists>r. tk_progress (ts' ! i) = Done r) \<or> (\<exists>c'. step env rt (Some i) (ts', s') c')) \<and>
    (turns_of i ls = Suc (length (route_candidates (rt_policy rt) (tk_context (ts ! i)))) \<longrightarrow>
      (\<exists>r. tk_progress (ts' ! i) = Done r))"
proof -
  let ?n = "Suc (length (route_candidates (rt_policy rt) (tk_context (ts ! i))))"
  have len: "i < length ts'" and le: "turns_of i ls + turns_left rt (ts' ! i) \<le> ?n"
    using schedule_turns [OF assms(1,2)] assms(3) by auto
  from turn_enabled [OF len, of rt env s'] turns_left_0 [of rt "ts' ! i"]
  have "(\<exists>r. tk_progress (ts' ! i) = Done r) \<or> (\<exists>c'. step env rt (Some i) (ts', s') c')" by blast
  moreover have "\<exists>r. tk_progress (ts' ! i) = Done r" if "turns_of i ls = ?n"
    using le that turns_left_0 [of rt "ts' ! i"] by simp
  moreover have "turns_of i ls \<le> ?n" using le by simp
  ultimately show ?thesis by blast
qed

theorem request_ends_witness:
  "(\<exists>r. tk_progress (fst demo_begun ! 1) = Done r) \<or>
   (\<exists>c'. step tick_env demo_router (Some 1) (fst demo_begun, snd demo_begun) c')"
proof -
  have fresh: "\<forall>t \<in> set [demo_task ''internal'', demo_task ''confidential'']. tk_progress t = Fresh"
    by simp
  show ?thesis
    using request_ends [OF demo_begun_schedule fresh, of 1] by simp
qed

text \<open>
  C25. The breakers stay consistent under every interleaving: if the registry is consistent, it
  is consistent after any schedule of any requests, in whatever order they begin and are answered: a
  circuit is closed exactly while its failures in a row are below the threshold.
\<close>

theorem interleaved_breakers_sound:
  assumes "schedule env rt ls (ts, s) (ts', s')" and "breakers_ok (breakers s)"
  shows "breakers_ok (breakers s')"
  by (rule consistent.I_schedule [OF assms])

theorem interleaved_breakers_sound_witness:
  "breakers_ok (breakers (snd demo_begun))"
proof (rule interleaved_breakers_sound [OF demo_begun_schedule])
  show "breakers_ok (breakers demo_gateway)"
    by (simp add: breakers_ok_def new_entry_def Let_def demo_gateway_def router_breakers_def new_registry_def routing_yaml_def)
qed

section \<open>Probing an open circuit\<close>

lemma begin_probe:
  assumes "rt_providers rt p = Some prov" and "map_of (rp_providers (rt_policy rt)) p = Some cfg"
    and "fst (before_call env p s) = Inr ()" and "cb_state (peek p s) \<in> {OPEN, HALF_OPEN}"
  shows "\<exists>rq st s'. begin_attempt env rt request p s = (Asked prov rq st, s') \<and> cb_state (peek p s') = HALF_OPEN"
proof -
  obtain s1 where b: "before_call env p s = (Inr (), s1)" using assms(3) by (metis prod.collapse)
  then have "cb_state (peek p s1) = HALF_OPEN" using before_call_state [of p env s] assms(4) by (auto split: if_splits)
  moreover obtain t s2 where c: "read_clock env s1 = (t, s2)" by fastforce
  ultimately show ?thesis using assms(1,2) b breakers_read_clock [OF c]
    by (auto simp: begin_attempt_def peek_def)
qed

lemma half_open_passes: "cb_state (peek p s) = HALF_OPEN \<Longrightarrow> fst (before_call env p s) = Inr ()"
  by (simp add: before_call_result)

text \<open>
  A half-open circuit does not hold back: once the time-out of an open circuit is over, any
  number of requests that arrive before the first probe is answered all call the provider, not
  one of them only.
\<close>

theorem half_open_admits_all:
  assumes "\<forall>t \<in> set ts. tk_progress t = Fresh \<and> (\<exists>ps. route_candidates (rt_policy rt) (tk_context t) = p # ps)"
    and "rt_providers rt p = Some prov" and "map_of (rp_providers (rt_policy rt)) p = Some cfg"
    and "cb_state (peek p s) = OPEN" and "fst (before_call env p s) = Inr ()"
  shows "\<exists>ts' s'. schedule env rt (map Some [0..<length ts]) (ts, s) (ts', s') \<and>
    length ts' = length ts \<and>
    (\<forall>i < length ts. \<exists>rq st ps. tk_progress (ts' ! i) = Awaiting p prov rq st ps)"
proof -
  have "\<exists>ts' s'. schedule env rt (map Some [0..<k]) (ts, s) (ts', s') \<and> length ts' = length ts \<and>
      (\<forall>i < k. \<exists>rq st ps. tk_progress (ts' ! i) = Awaiting p prov rq st ps) \<and>
      (\<forall>i. k \<le> i \<longrightarrow> i < length ts \<longrightarrow> ts' ! i = ts ! i) \<and>
      fst (before_call env p s') = Inr () \<and> cb_state (peek p s') \<in> {OPEN, HALF_OPEN}"
    if "k \<le> length ts" for k
    using that
  proof (induction k)
    case 0
    then show ?case using assms(4,5) by (auto intro!: exI [of _ ts] exI [of _ s] schedule.nothing)
  next
    case (Suc k)
    then obtain us u where us: "schedule env rt (map Some [0..<k]) (ts, s) (us, u)" "length us = length ts"
        "\<forall>i < k. \<exists>rq st ps. tk_progress (us ! i) = Awaiting p prov rq st ps"
        "\<forall>i. k \<le> i \<longrightarrow> i < length ts \<longrightarrow> us ! i = ts ! i"
        "fst (before_call env p u) = Inr ()" "cb_state (peek p u) \<in> {OPEN, HALF_OPEN}"
      by auto
    have k: "k < length ts" "us ! k = ts ! k" using Suc.prems us(4) by auto
    obtain ps where t: "tk_progress (ts ! k) = Fresh" "route_candidates (rt_policy rt) (tk_context (ts ! k)) = p # ps"
      using assms(1) k(1) nth_mem by blast
    obtain rq st v where v: "begin_attempt env rt (tk_request (ts ! k)) p u = (Asked prov rq st, v)"
        "cb_state (peek p v) = HALF_OPEN"
      using begin_probe [OF assms(2,3) us(5,6)] by blast
    let ?ts = "us[k := (us ! k)\<lparr>tk_progress := Awaiting p prov rq st ps\<rparr>]"
    have "step env rt (Some k) (us, u) (?ts, v)"
      by (rule step.begins) (use k us(2) t v(1) in \<open>simp_all add: start_task_def\<close>)
    from schedule.further [OF us(1) this]
    have "schedule env rt (map Some [0..<Suc k]) (ts, s) (?ts, v)" by simp
    moreover have "\<exists>rq st ps. tk_progress (?ts ! i) = Awaiting p prov rq st ps" if "i < Suc k" for i
      using that us(2,3) k(1) by (cases "i = k") auto
    moreover have "?ts ! i = ts ! i" if "Suc k \<le> i" "i < length ts" for i using that us(4) by simp
    moreover have "fst (before_call env p v) = Inr ()" using v(2) by (rule half_open_passes)
    ultimately show ?case using us(2) v(2)
      by (intro exI [of _ ?ts] exI [of _ v]) (simp del: upt_Suc)
  qed
  from this [of "length ts"] show ?thesis by auto
qed

definition opened_gateway :: "nat gateway" where
  "opened_gateway = demo_gateway\<lparr>world := 1000,
     breakers := set_entry ''local'' \<lparr>cb_state = OPEN, consecutive_failures = 3, opened_at = 0\<rparr>
       (router_breakers routing_yaml None)\<rparr>"

theorem half_open_admits_all_witness:
  "\<exists>ts' s'. schedule tick_env demo_router (map Some [0..<2])
      ([demo_task ''confidential'', demo_task ''internal''], opened_gateway) (ts', s') \<and> length ts' = 2 \<and>
    (\<forall>i < 2. \<exists>rq st ps. tk_progress (ts' ! i) = Awaiting ''local'' (failing_provider ''local'' (ProviderUnavailableError ''down'')) rq st ps)"
proof -
  have conf: "route_candidates routing_yaml (ctx_of ''confidential'' ''standard'') = [''local'']"
    by (simp add: route_candidates_def candidates_for_def routing_yaml_def ctx_of_def matches_def
        context_dump_def slice_to_def)
  let ?ts = "[demo_task ''confidential'', demo_task ''internal'']"
  have fresh: "\<forall>t \<in> set ?ts. tk_progress t = Fresh \<and>
      (\<exists>ps. route_candidates (rt_policy demo_router) (tk_context t) = ''local'' # ps)"
    using conf internal_candidates by (simp add: demo_router_def)
  have cfg: "\<exists>cfg. map_of (rp_providers (rt_policy demo_router)) ''local'' = Some cfg"
    by (simp add: demo_router_def routing_yaml_def)
  have prov: "rt_providers demo_router ''local'' = Some (failing_provider ''local'' (ProviderUnavailableError ''down''))"
    by (simp add: demo_router_def)
  have opened: "cb_state (peek ''local'' opened_gateway) = OPEN"
    by (simp add: opened_gateway_def peek_def)
  have due: "fst (before_call tick_env ''local'' opened_gateway) = Inr ()"
    by (simp add: before_call_def opened_gateway_def entry_def read_clock_def tick_env_def
        router_breakers_def new_registry_def routing_yaml_def)
  have two: "length ?ts = 2" by simp
  from cfg obtain cfg where "map_of (rp_providers (rt_policy demo_router)) ''local'' = Some cfg" ..
  from half_open_admits_all [OF fresh prov this opened due] show ?thesis unfolding two .
qed

end
