(* ===== verification/Telemetry.thy ===== *)
theory Telemetry
  imports Router
begin

text \<open>
  Metrics and tracing: the collectors of \<open>observability/metrics.py\<close> as what the metric events of
  the log add up to, and \<open>configure_tracing\<close> of \<open>observability/tracing.py\<close>, which decides where
  spans go.
\<close>

section \<open>The collectors\<close>

text \<open>
  The two collectors that the router feeds, by their labels: the observations of the histogram and
  the value of the counter. The other two have no caller.
\<close>

record metrics =
  PROVIDER_LATENCY_SECONDS :: "string \<times> string \<Rightarrow> real list"
  PROVIDER_TOKENS_TOTAL :: "string \<times> string \<Rightarrow> int"
  GUARDRAIL_HITS_TOTAL :: "string \<Rightarrow> int"
  ESTIMATED_COST_USD_TOTAL :: "string \<times> string \<Rightarrow> real"

definition new_metrics :: metrics where
  "new_metrics = \<lparr>PROVIDER_LATENCY_SECONDS = (\<lambda>_. []), PROVIDER_TOKENS_TOTAL = (\<lambda>_. 0),
     GUARDRAIL_HITS_TOTAL = (\<lambda>_. 0), ESTIMATED_COST_USD_TOTAL = (\<lambda>_. 0)\<rparr>"

fun count_event :: "obs_event \<Rightarrow> metrics \<Rightarrow> metrics" where
  "count_event (Latency p outcome t) m =
     m\<lparr>PROVIDER_LATENCY_SECONDS := (PROVIDER_LATENCY_SECONDS m)
         ((p, outcome) := PROVIDER_LATENCY_SECONDS m (p, outcome) @ [t])\<rparr>"
| "count_event (TokensInc p direction n) m =
     m\<lparr>PROVIDER_TOKENS_TOTAL := (PROVIDER_TOKENS_TOTAL m)
         ((p, direction) := PROVIDER_TOKENS_TOTAL m (p, direction) + n)\<rparr>"
| "count_event _ m = m"

definition metrics_of :: "obs_event list \<Rightarrow> metrics" where
  "metrics_of es = fold count_event es new_metrics"

lemma metrics_of_append: "metrics_of (xs @ ys) = fold count_event ys (metrics_of xs)"
  by (simp add: metrics_of_def)

section \<open>What a call adds\<close>

text \<open>
  The metrics after a call of \<open>p\<close> that took \<open>t\<close> seconds, and after an answer of it.
\<close>

definition timed :: "string \<Rightarrow> string \<Rightarrow> real \<Rightarrow> metrics \<Rightarrow> metrics" where
  "timed p outcome t = count_event (Latency p outcome t)"

definition answered :: "string \<Rightarrow> real \<Rightarrow> usage \<Rightarrow> metrics \<Rightarrow> metrics" where
  "answered p t u m =
     count_event (TokensInc p ''output'' (output_tokens u))
       (count_event (TokensInc p ''input'' (input_tokens u)) (timed p ''success'' t m))"

lemma observe_obs:
  "\<exists>t. obs (observe env p started out r s) = obs s @ Latency p out t #
     (case r of None \<Rightarrow> []
      | Some resp \<Rightarrow> [TokensInc p ''input'' (input_tokens (resp_usage resp)),
                      TokensInc p ''output'' (output_tokens (resp_usage resp))])"
  by (cases "read_clock env s") (auto simp: observe_def obs_read_clock split: option.split)

lemma observe_metrics:
  "\<exists>t. metrics_of (obs (observe env p started out r s)) =
     (case r of None \<Rightarrow> timed p out t (metrics_of (obs s))
      | Some resp \<Rightarrow> count_event (TokensInc p ''output'' (output_tokens (resp_usage resp)))
          (count_event (TokensInc p ''input'' (input_tokens (resp_usage resp)))
            (timed p out t (metrics_of (obs s)))))"
  using observe_obs [of env p started out r s]
  by (auto simp: metrics_of_append timed_def split: option.split)

lemma metrics_of_span [simp]:
  "metrics_of (es @ [SpanStart a b c]) = metrics_of es"
  "metrics_of (es @ [SpanAttr k v]) = metrics_of es"
  "metrics_of (es @ [SpanTokens k n]) = metrics_of es"
  by (simp_all add: metrics_of_append)

text \<open>
  One turn: a failure is timed under its outcome, an answer is timed and its tokens are counted,
  and nothing is recorded of a call that raised another exception or was not made.
\<close>

lemma attempt_metrics:
  assumes "attempt env rt request p s = (t, s')"
  shows "case t of
      Return resp \<Rightarrow> \<exists>u. metrics_of (obs s') = answered p u (resp_usage resp) (metrics_of (obs s))
    | Raise e \<Rightarrow> metrics_of (obs s') = metrics_of (obs s) \<and> \<not> is_auth_error e \<or>
        is_auth_error e \<and> (\<exists>u. metrics_of (obs s') = timed p ''auth_error'' u (metrics_of (obs s)))
    | Continue \<Rightarrow> metrics_of (obs s') = metrics_of (obs s) \<or>
        (\<exists>u. metrics_of (obs s') = timed p ''error'' u (metrics_of (obs s)))"
  using assms
proof (cases rule: attempt_cases)
  case (auth prov cfg s1 u s2 e s4)
  then show ?thesis using after_provider(1) [OF auth(2,4,5)] observe_metrics [of env p u "''auth_error''" None s4]
    by auto
next
  case (failed prov cfg s1 u s2 e s4)
  then show ?thesis using after_provider(1) [OF failed(2,4,5)]
      observe_metrics [of env p u "''error''" None "on_failure env p s4"] by auto
next
  case (other prov cfg s1 u s2 e s4)
  then show ?thesis using after_provider(1) [OF other(2,4,5)] auth_error_is_provider_error by auto
next
  case (success prov cfg s1 u s2 resp s4)
  then show ?thesis using after_provider(1) [OF success(2,4,5)]
      observe_metrics [of env p u "''success''" "Some resp" "emit (SpanTokens ''aegis.output_tokens'' (output_tokens (resp_usage resp)))
         (emit (SpanTokens ''aegis.input_tokens'' (input_tokens (resp_usage resp)))
         (emit (SpanAttr ''aegis.outcome'' ''success'') s4))"]
    by (auto simp: answered_def metrics_of_append)
qed (simp_all add: obs_before_call)

text \<open>The whole loop: some failed calls, then what ends it.\<close>

definition failed_calls :: "(string \<times> real) list \<Rightarrow> metrics \<Rightarrow> metrics" where
  "failed_calls fs = fold (\<lambda>(p, t). timed p ''error'' t) fs"

lemma failed_calls_simps [simp]:
  "failed_calls [] m = m"
  "failed_calls ((p, t) # fs) m = failed_calls fs (timed p ''error'' t m)"
  by (simp_all add: failed_calls_def)

definition ends_with :: "string list \<Rightarrow> chat_response result \<Rightarrow> metrics \<Rightarrow> metrics \<Rightarrow> bool" where
  "ends_with ps r m m' \<longleftrightarrow>
     (case r of
        Inr resp \<Rightarrow> \<exists>p t. p \<in> set ps \<and> m' = answered p t (resp_usage resp) m
      | Inl e \<Rightarrow> if is_auth_error e then \<exists>p t. p \<in> set ps \<and> m' = timed p ''auth_error'' t m else m' = m)"

lemma ends_with_Cons: "ends_with ps r m m' \<Longrightarrow> ends_with (p # ps) r m m'"
  by (auto simp: ends_with_def split: sum.splits if_splits)

lemma route_loop_metrics:
  assumes "route_loop env rt request cands ps s = (r, s')"
  shows "\<exists>fs. set (map fst fs) \<subseteq> set ps \<and>
    ends_with ps r (failed_calls fs (metrics_of (obs s))) (metrics_of (obs s'))"
  using assms
proof (induction ps arbitrary: s)
  case Nil
  then show ?case by (auto simp: ends_with_def intro: exI [of _ "[]"])
next
  case (Cons p ps)
  obtain t s1 where a: "attempt env rt request p s = (t, s1)" by fastforce
  note m = attempt_metrics [OF a]
  show ?case
  proof (cases t)
    case Continue
    with Cons.prems a have "route_loop env rt request cands ps s1 = (r, s')" by simp
    from Cons.IH [OF this] obtain fs where fs: "set (map fst fs) \<subseteq> set ps"
      "ends_with (p # ps) r (failed_calls fs (metrics_of (obs s1))) (metrics_of (obs s'))"
      using ends_with_Cons by blast
    from m Continue consider "metrics_of (obs s1) = metrics_of (obs s)"
      | u where "metrics_of (obs s1) = timed p ''error'' u (metrics_of (obs s))" by auto
    then show ?thesis
    proof cases
      case 1
      with fs show ?thesis by (intro exI [of _ fs]) auto
    next
      case 2
      with fs show ?thesis by (intro exI [of _ "(p, u) # fs"]) auto
    qed
  next
    case (Return resp)
    with m a Cons.prems have "ends_with (p # ps) r (metrics_of (obs s)) (metrics_of (obs s'))"
      by (fastforce simp: ends_with_def)
    then show ?thesis by (intro exI [of _ "[]"]) simp
  next
    case (Raise e)
    with m a Cons.prems have "ends_with (p # ps) r (metrics_of (obs s)) (metrics_of (obs s'))"
      by (fastforce simp: ends_with_def)
    then show ?thesis by (intro exI [of _ "[]"]) simp
  qed
qed

lemma failed_calls_frame:
  "PROVIDER_TOKENS_TOTAL (failed_calls fs m) = PROVIDER_TOKENS_TOTAL m"
  "GUARDRAIL_HITS_TOTAL (failed_calls fs m) = GUARDRAIL_HITS_TOTAL m"
  "ESTIMATED_COST_USD_TOTAL (failed_calls fs m) = ESTIMATED_COST_USD_TOTAL m"
  "out \<noteq> ''error'' \<Longrightarrow> PROVIDER_LATENCY_SECONDS (failed_calls fs m) (p, out) = PROVIDER_LATENCY_SECONDS m (p, out)"
  by (induction fs arbitrary: m) (auto simp: timed_def)

section \<open>Properties\<close>

text \<open>
  C26. The metrics account for what \<open>route\<close> returns: an answer adds its own usage to the token
  counters of one candidate and one observation to that provider's successes; an error adds no
  tokens and no success; and of a request that ends with anything but a provider error, the call
  that raised it is in no histogram. The counters for guardrail hits and cost never move.
\<close>

theorem route_metrics:
  assumes "route env rt request c s = (r, s')"
    and "m = metrics_of (obs s)" and "m' = metrics_of (obs s')"
  shows "(case r of
      Inr resp \<Rightarrow> \<exists>p t. p \<in> set (route_candidates (rt_policy rt) c) \<and>
        PROVIDER_TOKENS_TOTAL m' = (PROVIDER_TOKENS_TOTAL m)
          ((p, ''input'') := PROVIDER_TOKENS_TOTAL m (p, ''input'') + input_tokens (resp_usage resp),
           (p, ''output'') := PROVIDER_TOKENS_TOTAL m (p, ''output'') + output_tokens (resp_usage resp)) \<and>
        (\<forall>q. PROVIDER_LATENCY_SECONDS m' (q, ''success'') =
           PROVIDER_LATENCY_SECONDS m (q, ''success'') @ (if q = p then [t] else []))
    | Inl e \<Rightarrow> PROVIDER_TOKENS_TOTAL m' = PROVIDER_TOKENS_TOTAL m \<and>
        (\<forall>q out. out \<noteq> ''error'' \<longrightarrow> \<not> is_auth_error e \<longrightarrow>
           PROVIDER_LATENCY_SECONDS m' (q, out) = PROVIDER_LATENCY_SECONDS m (q, out))) \<and>
    GUARDRAIL_HITS_TOTAL m' = GUARDRAIL_HITS_TOTAL m \<and> ESTIMATED_COST_USD_TOTAL m' = ESTIMATED_COST_USD_TOTAL m"
proof -
  let ?ps = "route_candidates (rt_policy rt) c"
  have "\<exists>fs. ends_with ?ps r (failed_calls fs m) m'"
  proof (cases "?ps = []")
    case True
    then show ?thesis using assms by (auto simp: route_def ends_with_def intro!: exI [of _ "[]"])
  next
    case False
    then show ?thesis using assms(2,3) route_loop_metrics [of env rt request ?ps ?ps s r s'] assms(1)
      by (auto simp: route_def Let_def)
  qed
  then obtain fs where e: "ends_with ?ps r (failed_calls fs m) m'" ..
  show ?thesis
  proof (cases r)
    case (Inl x)
    with e show ?thesis
      by (cases "is_auth_error x") (auto simp: ends_with_def failed_calls_frame timed_def)
  next
    case (Inr resp)
    with e obtain p t where "p \<in> set ?ps" "m' = answered p t (resp_usage resp) (failed_calls fs m)"
      by (auto simp: ends_with_def)
    then show ?thesis using Inr
      by (auto simp: answered_def timed_def failed_calls_frame fun_eq_iff intro!: exI [of _ p] exI [of _ t])
  qed
qed

theorem route_metrics_witness:
  "GUARDRAIL_HITS_TOTAL (metrics_of (obs (snd (route tick_env demo_router demo_request
     (ctx_of ''internal'' ''standard'') demo_gateway)))) = (\<lambda>_. 0)"
  using route_metrics [OF prod.collapse [symmetric] refl refl,
      of tick_env demo_router demo_request "ctx_of ''internal'' ''standard''" demo_gateway]
  by (simp add: demo_gateway_def metrics_of_def new_metrics_def)

end
