(* ===== verification/Local_Provider.thy ===== *)
theory Local_Provider
  imports Provider_Wire
begin

text \<open>
  The adapter to an Ollama server, \<open>providers/local_provider.py\<close>: the request it sends, the
  response or exception it makes of the answer, streaming, embeddings and the health check. The
  HTTP client, the JSON parser and pydantic are parameters.
\<close>

section \<open>The server as the client shows it\<close>

datatype ollama_failure = TimedOut | CannotConnect | OtherHttpError string | Crashed exn

datatype ollama_outcome = Reply int string | Failed ollama_failure

text \<open>An open stream: the status, the lines, and how it breaks off, if it does.\<close>

datatype ollama_stream = StreamReply int "string list" "ollama_failure option" | NoStream ollama_failure

record 'w ollama =
  ol_base_url :: string
  ol_timeout_s :: real
  ol_post :: "real \<Rightarrow> string \<Rightarrow> json \<Rightarrow> 'w \<Rightarrow> ollama_outcome \<times> 'w"
  ol_get :: "real \<Rightarrow> string \<Rightarrow> 'w \<Rightarrow> ollama_outcome \<times> 'w"
  ol_stream :: "real \<Rightarrow> string \<Rightarrow> json \<Rightarrow> 'w \<Rightarrow> ollama_stream \<times> 'w"
  ol_stream_text :: "string result"
  ol_loads :: "string \<Rightarrow> json result"
  ol_float :: "real \<Rightarrow> string"
  ol_pydantic :: pydantic

text \<open>\<open>LocalProvider(base_url, timeout_s)\<close>.\<close>

definition local_init :: "string \<Rightarrow> real \<Rightarrow> ('w, 'e) ollama_scheme \<Rightarrow> ('w, 'e) ollama_scheme" where
  "local_init base_url timeout_s ol =
     ol\<lparr>ol_base_url := rstrip_char CHR ''/'' base_url, ol_timeout_s := timeout_s\<rparr>"

section \<open>The request\<close>

definition ollama_messages :: "chat_message list \<Rightarrow> json" where
  "ollama_messages ms =
     JList (map (\<lambda>m. JObj [(''role'', JStr (role_value (msg_role m))), (''content'', JStr (msg_content m))]) ms)"

definition ollama_tools_payload :: "tool_spec list \<Rightarrow> json option" where
  "ollama_tools_payload tools =
     (if tools = [] then None
      else Some (JList (map (\<lambda>t. JObj
        [(''type'', JStr ''function''),
         (''function'', JObj [(''name'', JStr (spec_name t)), (''description'', JStr (spec_description t)),
            (''parameters'', JObj (spec_parameters t))])]) tools)))"

definition ollama_payload :: "chat_request \<Rightarrow> json" where
  "ollama_payload request = JObj
     ([(''model'', JStr (req_model request)),
       (''messages'', ollama_messages (req_messages request)),
       (''stream'', JBool False),
       (''options'', JObj [(''temperature'', JFloat (req_temperature request)),
          (''num_predict'', JInt (req_max_output_tokens request))])] @
      (case ollama_tools_payload (req_tools request) of None \<Rightarrow> [] | Some t \<Rightarrow> [(''tools'', t)]))"

section \<open>The answer\<close>

definition parse_ollama_call :: "pydantic \<Rightarrow> nat \<times> json \<Rightarrow> tool_call result" where
  "parse_ollama_call pyd p = (case p of (i, call) \<Rightarrow>
     bind_r (py_get call ''function'' (JObj [])) (\<lambda>fn.
     bind_r (py_get call ''id'' JNull) (\<lambda>cid.
     bind_r (py_get fn ''name'' (JStr [])) (\<lambda>name.
     bind_r (py_get fn ''arguments'' JNull) (\<lambda>arguments.
     valid_tool_call pyd (or_else cid (JStr (''call-'' @ nat_str i))) name (or_else arguments (JObj [])))))))"

definition parse_ollama_tool_calls :: "pydantic \<Rightarrow> json \<Rightarrow> tool_call list result" where
  "parse_ollama_tool_calls pyd msg =
     bind_r (py_get msg ''tool_calls'' JNull) (\<lambda>v.
     bind_r (py_iter (or_else v (JList []))) (\<lambda>calls.
     map_r (parse_ollama_call pyd) (enumerate 0 calls)))"

definition raise_for_ollama_status :: "int \<Rightarrow> string result \<Rightarrow> unit result" where
  "raise_for_ollama_status status text =
     (if status < 400 then Inr ()
      else if status \<in> {401, 403} then Inl (ProviderAuthError (''Ollama returned '' @ int_str status))
      else bind_r text (\<lambda>t. Inl (ProviderUnavailableError (''Ollama returned '' @ int_str status @ '': '' @
        py_repr (take 200 t) @ '' '' @ dash @ '' is the model pulled? see `ollama pull <model>` in README''))))"

text \<open>The two handlers; any other exception of the client goes through.\<close>

fun ollama_exn :: "('w, 'e) ollama_scheme \<Rightarrow> ollama_failure \<Rightarrow> exn" where
  "ollama_exn ol TimedOut =
     ProviderTimeoutError (''local provider timed out after '' @ ol_float ol (ol_timeout_s ol) @ ''s'')"
| "ollama_exn ol CannotConnect =
     ProviderUnavailableError (''cannot reach Ollama at '' @ ol_base_url ol @ '' '' @ dash @
       '' is `ollama serve` running?'')"
| "ollama_exn ol (OtherHttpError m) = OtherError m"
| "ollama_exn ol (Crashed e) = e"

definition local_finish :: "tool_call list \<Rightarrow> json \<Rightarrow> string" where
  "local_finish calls ended = (if calls \<noteq> [] then ''tool_use'' else if truthy ended then ''stop'' else ''length'')"

definition local_response :: "('w, 'e) ollama_scheme \<Rightarrow> string \<Rightarrow> json \<Rightarrow> chat_response result" where
  "local_response ol model body =
     (let pyd = ol_pydantic ol in
      bind_r (py_get body ''message'' (JObj [])) (\<lambda>msg.
      bind_r (py_get msg ''content'' (JStr [])) (\<lambda>content.
      bind_r (parse_ollama_tool_calls pyd msg) (\<lambda>calls.
      bind_r (py_get body ''prompt_eval_count'' (JInt 0)) (\<lambda>tin.
      bind_r (py_get body ''eval_count'' (JInt 0)) (\<lambda>tout.
      bind_r (valid_usage pyd tin tout) (\<lambda>u.
      bind_r (valid_message pyd ASSISTANT content) (\<lambda>m.
      bind_r (py_get body ''done'' (JBool True)) (\<lambda>ended.
      valid_response pyd ''local'' model m calls u (JStr (local_finish calls ended)) body)))))))))"

definition local_chat :: "('w, 'e) ollama_scheme \<Rightarrow> chat_request \<Rightarrow> 'w \<Rightarrow> chat_response result \<times> 'w" where
  "local_chat ol request w =
     (case ol_post ol (ol_timeout_s ol) (ol_base_url ol @ ''/api/chat'') (ollama_payload request) w of
        (Failed f, w') \<Rightarrow> (Inl (ollama_exn ol f), w')
      | (Reply status text, w') \<Rightarrow>
          (bind_r (raise_for_ollama_status status (Inr text)) (\<lambda>_.
           bind_r (ol_loads ol text) (local_response ol (req_model request))), w'))"

definition local_provider :: "('w, 'e) ollama_scheme \<Rightarrow> 'w provider" where
  "local_provider ol = \<lparr>prov_name = ''local'', prov_chat = local_chat ol\<rparr>"

section \<open>Streaming, embeddings, health\<close>

definition stream_payload :: "chat_request \<Rightarrow> json" where
  "stream_payload request = JObj
     [(''model'', JStr (req_model request)), (''messages'', ollama_messages (req_messages request)),
      (''stream'', JBool True)]"

definition local_chunk :: "('w, 'e) ollama_scheme \<Rightarrow> string \<Rightarrow> stream_chunk result" where
  "local_chunk ol line =
     (let pyd = ol_pydantic ol in
      bind_r (ol_loads ol line) (\<lambda>chunk.
      bind_r (py_get chunk ''message'' (JObj [])) (\<lambda>msg.
      bind_r (py_get msg ''content'' (JStr [])) (\<lambda>delta.
      bind_r (py_get chunk ''done'' (JBool False)) (\<lambda>ended.
      if truthy ended then
        bind_r (py_get chunk ''prompt_eval_count'' (JInt 0)) (\<lambda>tin.
        bind_r (py_get chunk ''eval_count'' (JInt 0)) (\<lambda>tout.
        bind_r (valid_usage pyd tin tout) (\<lambda>u.
        valid_chunk pyd delta (JStr ''stop'') (Some u))))
      else valid_chunk pyd delta JNull None)))))"

fun local_lines :: "('w, 'e) ollama_scheme \<Rightarrow> ollama_failure option \<Rightarrow> string list \<Rightarrow> chunks" where
  "local_lines ol broken [] = ([], map_option (ollama_exn ol) broken)"
| "local_lines ol broken (line # lines) =
     (if line = [] then local_lines ol broken lines
      else case local_chunk ol line of
        Inl e \<Rightarrow> ([], Some e)
      | Inr c \<Rightarrow> (let (cs, e) = local_lines ol broken lines in (c # cs, e)))"

definition local_stream :: "('w, 'e) ollama_scheme \<Rightarrow> chat_request \<Rightarrow> 'w \<Rightarrow> chunks \<times> 'w" where
  "local_stream ol request w =
     (case ol_stream ol (ol_timeout_s ol) (ol_base_url ol @ ''/api/chat'') (stream_payload request) w of
        (NoStream f, w') \<Rightarrow> (([], Some (ollama_exn ol f)), w')
      | (StreamReply status lines broken, w') \<Rightarrow>
          (case raise_for_ollama_status status (ol_stream_text ol) of
             Inl e \<Rightarrow> (([], Some e), w')
           | Inr _ \<Rightarrow> (local_lines ol broken lines, w')))"

fun local_vectors :: "('w, 'e) ollama_scheme \<Rightarrow> string \<Rightarrow> string list \<Rightarrow> 'w \<Rightarrow> json list result \<times> 'w" where
  "local_vectors ol model [] w = (Inr [], w)"
| "local_vectors ol model (text # texts) w =
     (case ol_post ol (ol_timeout_s ol) (ol_base_url ol @ ''/api/embeddings'')
         (JObj [(''model'', JStr model), (''prompt'', JStr text)]) w of
        (Failed f, w') \<Rightarrow> (Inl (ollama_exn ol f), w')
      | (Reply status body, w') \<Rightarrow>
          (case bind_r (raise_for_ollama_status status (Inr body)) (\<lambda>_.
                bind_r (ol_loads ol body) (\<lambda>v. py_item v ''embedding'')) of
             Inl e \<Rightarrow> (Inl e, w')
           | Inr v \<Rightarrow>
               (let (rest, w'') = local_vectors ol model texts w' in (bind_r rest (\<lambda>vs. Inr (v # vs)), w''))))"

definition local_embed :: "('w, 'e) ollama_scheme \<Rightarrow> embed_request \<Rightarrow> 'w \<Rightarrow> embed_response result \<times> 'w" where
  "local_embed ol request w =
     (let (vectors, w') = local_vectors ol (emb_model request) (emb_inputs request) w
      in (bind_r vectors (valid_embedding (ol_pydantic ol) ''local'' (emb_model request)
            \<lparr>input_tokens = sum_list (map (\<lambda>t. int (length (py_split t))) (emb_inputs request)),
             output_tokens = 0\<rparr>), w'))"

definition local_health :: "('w, 'e) ollama_scheme \<Rightarrow> 'w \<Rightarrow> bool result \<times> 'w" where
  "local_health ol w =
     (case ol_get ol 3 (ol_base_url ol @ ''/api/tags'') w of
        (Reply status body, w') \<Rightarrow> (Inr (status = 200), w')
      | (Failed (Crashed e), w') \<Rightarrow> (Inl e, w')
      | (Failed f, w') \<Rightarrow> (Inr False, w'))"

section \<open>Properties\<close>

text \<open>What the client, the parser and pydantic raise is not a provider error.\<close>

definition outside_raises_foreign :: "('w, 'e) ollama_scheme \<Rightarrow> bool" where
  "outside_raises_foreign ol \<longleftrightarrow> (\<forall>t. foreign (ol_loads ol t)) \<and>
     (\<forall>a b c w e. fst (ol_post ol a b c w) = Failed (Crashed e) \<longrightarrow> \<not> is_provider_error e)"

text \<open>How a call to the server ends when the adapter reports a provider error.\<close>

fun reported :: "ollama_outcome \<Rightarrow> bool" where
  "reported (Failed TimedOut) = True"
| "reported (Failed CannotConnect) = True"
| "reported (Failed f) = False"
| "reported (Reply status text) = (400 \<le> status)"

lemma foreign_parse: "foreign (parse_ollama_tool_calls pyd msg)"
  unfolding parse_ollama_tool_calls_def parse_ollama_call_def case_prod_unfold by (intro foreign_rules)

lemma foreign_response: "foreign (local_response ol model body)"
  unfolding local_response_def Let_def by (intro foreign_rules foreign_parse)

lemma status_cases:
  "raise_for_ollama_status status (Inr text) = Inr u \<longleftrightarrow> status < 400"
  "raise_for_ollama_status status (Inr text) = Inl e \<Longrightarrow> is_provider_error e"
  by (auto simp: raise_for_ollama_status_def split: if_splits)

text \<open>
  C32. The local adapter keeps the contract of a provider only in part: its exception is a
  provider error, which the router handles, exactly if the server could not be reached in time
  or at all, or answered with a status of 400 or more; any other failure of the client, a
  redirect, and a body that does not parse or has another shape end in a foreign exception.
\<close>

theorem local_chat_errors:
  assumes "outside_raises_foreign ol" and "local_chat ol request w = (Inl e, w')"
  shows "is_provider_error e \<longleftrightarrow>
    reported (fst (ol_post ol (ol_timeout_s ol) (ol_base_url ol @ ''/api/chat'') (ollama_payload request) w))"
proof -
  obtain out w1 where post:
    "ol_post ol (ol_timeout_s ol) (ol_base_url ol @ ''/api/chat'') (ollama_payload request) w = (out, w1)"
    by fastforce
  show ?thesis
  proof (cases out)
    case (Failed f)
    have "f = Crashed x \<Longrightarrow> \<not> is_provider_error x" for x
      using assms(1) post Failed unfolding outside_raises_foreign_def by (metis fst_conv)
    then show ?thesis using assms(2) post Failed by (cases f) (auto simp: local_chat_def)
  next
    case (Reply status body)
    show ?thesis
    proof (cases "raise_for_ollama_status status (Inr body)")
      case (Inl x)
      then show ?thesis using assms(2) post Reply status_cases [of status body]
        by (auto simp: local_chat_def raise_for_ollama_status_def split: if_splits)
    next
      case (Inr u)
      have "foreign (bind_r (ol_loads ol body) (local_response ol (req_model request)))"
        using assms(1) by (intro foreign_bind foreign_response) (simp add: outside_raises_foreign_def)
      with Inr show ?thesis using assms(2) post Reply status_cases(1) [of status body u]
        by (auto simp: local_chat_def)
    qed
  qed
qed

text \<open>A server that is there but redirects to a login page.\<close>

definition login_ollama :: "unit ollama" where
  "login_ollama =
     \<lparr>ol_base_url = ''http://ollama'', ol_timeout_s = 30,
      ol_post = (\<lambda>t u p w. (Reply 302 ''<html>'', w)), ol_get = (\<lambda>t u w. (Reply 302 [], w)),
      ol_stream = (\<lambda>t u p w. (StreamReply 404 [] None, w)), ol_stream_text = Inl (OtherError ''not read''),
      ol_loads = (\<lambda>t. Inl (ValueError ''Expecting value'')), ol_float = (\<lambda>x. ''30.0''),
      ol_pydantic = plain_pydantic\<rparr>"

definition plain_request :: chat_request where
  "plain_request = \<lparr>req_messages = [], req_model = ''m'', req_tools = [], req_temperature = 0,
     req_max_output_tokens = 1, req_tenant_id = ''t'', req_request_id = ''r''\<rparr>"

theorem local_chat_errors_witness:
  "local_chat login_ollama plain_request () = (Inl (ValueError ''Expecting value''), ()) \<and>
   \<not> reported (Reply 302 ''<html>'')"
proof -
  have "outside_raises_foreign login_ollama"
    by (simp add: outside_raises_foreign_def login_ollama_def)
  moreover have run: "local_chat login_ollama plain_request () = (Inl (ValueError ''Expecting value''), ())"
    by (simp add: local_chat_def login_ollama_def raise_for_ollama_status_def)
  ultimately have "is_provider_error (ValueError ''Expecting value'') \<longleftrightarrow> reported (Reply 302 ''<html>'')"
    using local_chat_errors [of login_ollama plain_request "()" "ValueError ''Expecting value''" "()"]
    by (simp add: login_ollama_def)
  with run show ?thesis by simp
qed

text \<open>
  A stream that the server refuses does not even report the status: reading the text of an open
  stream raises (the client wants it read first), and that exception leaves the adapter.
\<close>

lemma stream_status_lost:
  assumes "ol_stream ol (ol_timeout_s ol) (ol_base_url ol @ ''/api/chat'') (stream_payload rq) w =
      (StreamReply status lines broken, w')"
    and "400 \<le> status" "status \<notin> {401, 403}" and "ol_stream_text ol = Inl e"
  shows "local_stream ol rq w = (([], Some e), w')"
  using assms by (simp add: local_stream_def raise_for_ollama_status_def)

text \<open>How Ollama writes tool calls.\<close>

definition ollama_call :: "tool_call \<Rightarrow> json" where
  "ollama_call c = JObj [(''id'', JStr (call_id c)),
     (''function'', JObj [(''name'', JStr (call_name c)), (''arguments'', JObj (call_arguments c))])]"

text \<open>
  Tool calls survive the wire: what the server writes for a list of calls is parsed to the
  same calls, in order, and a call without an id gets \<open>call-\<close> and its position as one.
\<close>

theorem ollama_calls_round_trip:
  assumes "accepts_exact pyd"
  shows "parse_ollama_tool_calls pyd (JObj [(''content'', JStr t), (''tool_calls'', JList (map ollama_call calls))]) =
    Inr (map (\<lambda>(i, c). c\<lparr>call_id := str_or (call_id c) (''call-'' @ nat_str i)\<rparr>) (enumerate 0 calls))"
proof -
  have call: "parse_ollama_call pyd (i, ollama_call c) =
      Inr (c\<lparr>call_id := str_or (call_id c) (''call-'' @ nat_str i)\<rparr>)" for i c
    using assms by (cases c) (simp add: parse_ollama_call_def ollama_call_def jget_or_def
        or_else_def valid_tool_call_def accepts_exact_def str_or_def)
  have "map_r (parse_ollama_call pyd) (enumerate k (map ollama_call calls)) =
      Inr (map (\<lambda>(i, c). c\<lparr>call_id := str_or (call_id c) (''call-'' @ nat_str i)\<rparr>) (enumerate k calls))" for k
    by (induction calls arbitrary: k) (simp_all add: call)
  then show ?thesis
    by (cases "calls = []") (simp_all add: parse_ollama_tool_calls_def jget_or_def or_else_def)
qed

theorem ollama_calls_round_trip_witness:
  "parse_ollama_tool_calls plain_pydantic (JObj [(''content'', JStr []), (''tool_calls'', JList (map ollama_call
     [\<lparr>call_id = [], call_name = ''calculator'', call_arguments = [(''expression'', JStr ''1+1'')]\<rparr>]))]) =
   Inr [\<lparr>call_id = ''call-0'', call_name = ''calculator'', call_arguments = [(''expression'', JStr ''1+1'')]\<rparr>]"
  by (rule trans [OF ollama_calls_round_trip [OF plain_accepts]]) code_simp

end
