(* ===== verification/Bedrock_Provider.thy ===== *)
theory Bedrock_Provider
  imports Provider_Wire
begin

text \<open>
  The adapter to AWS Bedrock, \<open>providers/bedrock_provider.py\<close>: messages, tools and errors
  converted to and from the Converse API. The \<open>boto3\<close> client, of any type \<open>'c\<close>, and what its
  operations do are parameters. Calls run in a worker thread, which the model runs in place.
\<close>

section \<open>The client\<close>

text \<open>
  The exceptions that \<open>_handle_client_error\<close> tells apart, each with its text; the error code of a
  \<open>ClientError\<close> is missing if the response has none.
\<close>

datatype bedrock_failure =
    ConnectTimeoutError string
  | ReadTimeoutError string
  | ClientError "string option" string
  | OtherFailure string

record ('c, 'w) bedrock =
  br_make :: "'w \<Rightarrow> 'c result \<times> 'w"
  br_converse :: "'c \<Rightarrow> jdict \<Rightarrow> 'w \<Rightarrow> (bedrock_failure + json) \<times> 'w"
  br_converse_stream :: "'c \<Rightarrow> jdict \<Rightarrow> 'w \<Rightarrow> (bedrock_failure + json list \<times> bedrock_failure option) \<times> 'w"
  br_invoke_all :: "'c \<Rightarrow> (string \<times> json) list \<Rightarrow> 'w \<Rightarrow> (bedrock_failure + json list) \<times> 'w"
  br_list_models :: "'c \<Rightarrow> 'w \<Rightarrow> (bedrock_failure + unit) \<times> 'w"
  br_embedding_model :: string
  br_sum :: "json list \<Rightarrow> json result"
  br_pydantic :: pydantic

section \<open>Conversion\<close>

definition text_block :: "chat_message \<Rightarrow> json" where
  "text_block m = JObj [(''text'', JStr (msg_content m))]"

fun to_bedrock_messages :: "chat_message list \<Rightarrow> json list \<times> json list" where
  "to_bedrock_messages [] = ([], [])"
| "to_bedrock_messages (m # ms) =
     (let (system, converted) = to_bedrock_messages ms
      in if msg_role m = SYSTEM then (text_block m # system, converted)
         else (system, JObj [(''role'', JStr (if msg_role m = USER then ''user'' else ''assistant'')),
                             (''content'', JList [text_block m])] # converted))"

definition to_bedrock_tool_config :: "chat_request \<Rightarrow> json option" where
  "to_bedrock_tool_config request =
     (if req_tools request = [] then None
      else Some (JObj [(''tools'', JList (map (\<lambda>t. JObj [(''toolSpec'', JObj
        [(''name'', JStr (spec_name t)), (''description'', JStr (spec_description t)),
         (''inputSchema'', JObj [(''json'', JObj (spec_parameters t))])])]) (req_tools request)))]))"

definition bedrock_kwargs :: "chat_request \<Rightarrow> jdict" where
  "bedrock_kwargs request =
     (let (system, messages) = to_bedrock_messages (req_messages request)
      in [(''modelId'', JStr (req_model request)),
          (''messages'', JList messages),
          (''inferenceConfig'', JObj [(''temperature'', JFloat (req_temperature request)),
             (''maxTokens'', JInt (req_max_output_tokens request))])] @
         (if system = [] then [] else [(''system'', JList system)]) @
         (case to_bedrock_tool_config request of None \<Rightarrow> [] | Some t \<Rightarrow> [(''toolConfig'', t)]))"

definition retryable_error_codes :: "string list" where
  "retryable_error_codes = [''ThrottlingException'', ''ServiceUnavailableException'',
     ''InternalServerException'', ''ModelTimeoutException'']"

definition auth_error_codes :: "string list" where
  "auth_error_codes = [''AccessDeniedException'', ''UnrecognizedClientException'', ''ExpiredTokenException'']"

fun handle_client_error :: "bedrock_failure \<Rightarrow> exn" where
  "handle_client_error (ConnectTimeoutError m) = ProviderTimeoutError m"
| "handle_client_error (ReadTimeoutError m) = ProviderTimeoutError m"
| "handle_client_error (ClientError found m) =
     (let code = (case found of None \<Rightarrow> [] | Some c \<Rightarrow> c)
      in if code \<in> set auth_error_codes then ProviderAuthError (''Bedrock auth error: '' @ code)
         else if code \<in> set retryable_error_codes
         then ProviderUnavailableError (''Bedrock transient error: '' @ code)
         else ProviderUnavailableError (''Bedrock error: '' @ code))"
| "handle_client_error (OtherFailure m) = ProviderUnavailableError m"

section \<open>Chat\<close>

text \<open>\<open>[f(c) for c in blocks if k in c]\<close>.\<close>

fun blocks_with :: "string \<Rightarrow> (json \<Rightarrow> 'a result) \<Rightarrow> json list \<Rightarrow> 'a list result" where
  "blocks_with k f [] = Inr []"
| "blocks_with k f (c # cs) =
     bind_r (py_contains k c) (\<lambda>found.
     if found then bind_r (f c) (\<lambda>x. bind_r (blocks_with k f cs) (\<lambda>xs. Inr (x # xs)))
     else blocks_with k f cs)"

text \<open>\<open>"".join(parts)\<close>, the index of a part that is no string in the error.\<close>

fun join_parts :: "nat \<Rightarrow> json list \<Rightarrow> string result" where
  "join_parts i [] = Inr []"
| "join_parts i (p # ps) =
     (case p of
        JStr s \<Rightarrow> bind_r (join_parts (Suc i) ps) (\<lambda>t. Inr (s @ t))
      | _ \<Rightarrow> Inl (OtherError (''sequence item '' @ nat_str i @ '': expected str instance, '' @
               type_name p @ '' found'')))"

definition bedrock_tool_call :: "pydantic \<Rightarrow> json \<Rightarrow> tool_call result" where
  "bedrock_tool_call pyd c =
     bind_r (py_item c ''toolUse'') (\<lambda>u.
     bind_r (py_item u ''toolUseId'') (\<lambda>cid.
     bind_r (py_item u ''name'') (\<lambda>name.
     bind_r (py_item u ''input'') (\<lambda>arguments.
     valid_tool_call pyd cid name arguments))))"

definition bedrock_response :: "pydantic \<Rightarrow> string \<Rightarrow> json \<Rightarrow> chat_response result" where
  "bedrock_response pyd model body =
     bind_r (py_item body ''output'') (\<lambda>out.
     bind_r (py_item out ''message'') (\<lambda>msg.
     bind_r (py_get msg ''content'' (JList [])) (\<lambda>content.
     bind_r (py_iter content) (\<lambda>blocks.
     bind_r (blocks_with ''text'' (\<lambda>c. py_item c ''text'') blocks) (\<lambda>parts.
     bind_r (blocks_with ''toolUse'' (bedrock_tool_call pyd) blocks) (\<lambda>calls.
     bind_r (py_get body ''usage'' (JObj [])) (\<lambda>us.
     bind_r (join_parts 0 parts) (\<lambda>text.
     bind_r (valid_message pyd ASSISTANT (JStr text)) (\<lambda>m.
     bind_r (py_get us ''inputTokens'' (JInt 0)) (\<lambda>tin.
     bind_r (py_get us ''outputTokens'' (JInt 0)) (\<lambda>tout.
     bind_r (valid_usage pyd tin tout) (\<lambda>u.
     bind_r (py_get body ''stopReason'' (JStr ''stop'')) (\<lambda>finish.
     valid_response pyd ''bedrock'' model m calls u finish body)))))))))))))"

definition bedrock_chat :: "('c, 'w) bedrock \<Rightarrow> chat_request \<Rightarrow> (('c, 'w) sdk, chat_response) eff" where
  "bedrock_chat br request =
     bind_e (get_client (br_make br)) (\<lambda>client s.
       case on_sdk (br_converse br client (bedrock_kwargs request)) s of
         (Inl f, s') \<Rightarrow> (Inl (handle_client_error f), s')
       | (Inr body, s') \<Rightarrow> (bedrock_response (br_pydantic br) (req_model request) body, s'))"

definition bedrock_provider :: "('c, 'w) bedrock \<Rightarrow> ('c, 'w) sdk provider" where
  "bedrock_provider br = \<lparr>prov_name = ''bedrock'', prov_chat = bedrock_chat br\<rparr>"

section \<open>Streaming, embeddings, health\<close>

text \<open>The chunk of an event, if it has one.\<close>

definition bedrock_chunk :: "pydantic \<Rightarrow> json \<Rightarrow> stream_chunk option result" where
  "bedrock_chunk pyd event =
     bind_r (py_contains ''contentBlockDelta'' event) (\<lambda>is_delta.
     if is_delta then
       bind_r (py_item event ''contentBlockDelta'') (\<lambda>b.
       bind_r (py_item b ''delta'') (\<lambda>d.
       bind_r (py_get d ''text'' (JStr [])) (\<lambda>delta.
       bind_r (valid_chunk pyd delta JNull None) (\<lambda>c. Inr (Some c)))))
     else bind_r (py_contains ''messageStop'' event) (\<lambda>is_stop.
     if is_stop then
       bind_r (py_item event ''messageStop'') (\<lambda>b.
       bind_r (py_get b ''stopReason'' (JStr ''stop'')) (\<lambda>reason.
       bind_r (valid_chunk pyd (JStr []) reason None) (\<lambda>c. Inr (Some c))))
     else bind_r (py_contains ''metadata'' event) (\<lambda>is_meta.
     if is_meta then
       bind_r (py_item event ''metadata'') (\<lambda>b.
       bind_r (py_get b ''usage'' (JObj [])) (\<lambda>us.
       bind_r (py_get us ''inputTokens'' (JInt 0)) (\<lambda>tin.
       bind_r (py_get us ''outputTokens'' (JInt 0)) (\<lambda>tout.
       bind_r (valid_usage pyd tin tout) (\<lambda>u.
       bind_r (valid_chunk pyd (JStr []) JNull (Some u)) (\<lambda>c. Inr (Some c)))))))
     else Inr None)))"

fun bedrock_events :: "pydantic \<Rightarrow> bedrock_failure option \<Rightarrow> json list \<Rightarrow> chunks" where
  "bedrock_events pyd broken [] = ([], map_option handle_client_error broken)"
| "bedrock_events pyd broken (ev # evs) =
     (case bedrock_chunk pyd ev of
        Inl e \<Rightarrow> ([], Some (handle_client_error (OtherFailure (exn_str e))))
      | Inr c \<Rightarrow>
          (let (cs, e) = bedrock_events pyd broken evs
           in ((case c of None \<Rightarrow> cs | Some x \<Rightarrow> x # cs), e)))"

definition bedrock_stream :: "('c, 'w) bedrock \<Rightarrow> chat_request \<Rightarrow> (('c, 'w) sdk, chunks) eff" where
  "bedrock_stream br request =
     bind_e (get_client (br_make br)) (\<lambda>client s.
       case on_sdk (br_converse_stream br client (bedrock_kwargs request)) s of
         (Inl f, s') \<Rightarrow> (Inr ([], Some (handle_client_error f)), s')
       | (Inr (events, broken), s') \<Rightarrow> (Inr (bedrock_events (br_pydantic br) broken events), s'))"

text \<open>
  The embeddings are asked for all at once; \<open>br_invoke_all\<close> gives the parsed bodies or the first
  failure.
\<close>

fun int_list :: "json list \<Rightarrow> int list option" where
  "int_list [] = Some []"
| "int_list (JInt n # vs) = map_option ((#) n) (int_list vs)"
| "int_list (v # vs) = None"

text \<open>\<open>sum(values)\<close>: exact on integers, otherwise (floats, a \<open>TypeError\<close>) a parameter.\<close>

definition py_sum :: "('c, 'w) bedrock \<Rightarrow> json list \<Rightarrow> json result" where
  "py_sum br vs = (case int_list vs of Some ns \<Rightarrow> Inr (JInt (sum_list ns)) | None \<Rightarrow> br_sum br vs)"

definition bedrock_vectors :: "('c, 'w) bedrock \<Rightarrow> string \<Rightarrow> json list \<Rightarrow> embed_response result" where
  "bedrock_vectors br model bodies =
     bind_r (map_r (\<lambda>b. py_item b ''embedding'') bodies) (\<lambda>vectors.
     bind_r (map_r (\<lambda>b. py_get b ''inputTextTokenCount'' (JInt 0)) bodies) (\<lambda>counts.
     bind_r (py_sum br counts) (\<lambda>total.
     bind_r (valid_usage (br_pydantic br) total (JInt 0)) (\<lambda>u.
     valid_embedding (br_pydantic br) ''bedrock'' model u vectors))))"

definition bedrock_embed :: "('c, 'w) bedrock \<Rightarrow> embed_request \<Rightarrow> (('c, 'w) sdk, embed_response) eff" where
  "bedrock_embed br request =
     (let model = str_or (emb_model request) (br_embedding_model br) in
      bind_e (get_client (br_make br)) (\<lambda>client s.
        case on_sdk (br_invoke_all br client
            (map (\<lambda>t. (model, JObj [(''inputText'', JStr t)])) (emb_inputs request))) s of
          (Inl f, s') \<Rightarrow> (Inl (handle_client_error f), s')
        | (Inr bodies, s') \<Rightarrow> (bedrock_vectors br model bodies, s')))"

definition bedrock_health :: "('c, 'w) bedrock \<Rightarrow> (('c, 'w) sdk, bool) eff" where
  "bedrock_health br s =
     (case get_client (br_make br) s of
        (Inl e, s') \<Rightarrow> (Inr False, s')
      | (Inr client, s') \<Rightarrow>
          (case on_sdk (br_list_models br client) s' of
             (Inl f, s'') \<Rightarrow> (Inr False, s'')
           | (Inr _, s'') \<Rightarrow> (Inr True, s'')))"

section \<open>Properties\<close>

lemma handled_errors:
  "is_provider_error (handle_client_error f)"
  "is_auth_error (handle_client_error f) \<longleftrightarrow> (\<exists>c m. f = ClientError (Some c) m \<and> c \<in> set auth_error_codes)"
  by (cases f; auto simp: Let_def auth_error_codes_def split: option.splits)+

lemma to_bedrock_split:
  "to_bedrock_messages ms =
     (map text_block (filter (\<lambda>m. msg_role m = SYSTEM) ms),
      map (\<lambda>m. JObj [(''role'', JStr (if msg_role m = USER then ''user'' else ''assistant'')),
                     (''content'', JList [text_block m])]) (filter (\<lambda>m. msg_role m \<noteq> SYSTEM) ms))"
  by (induction ms) auto

text \<open>
  Bedrock receives the system prompts apart and the other messages in order, but a tool
  result reaches it as words of the assistant: exchanging the role of a tool message, its
  \<open>tool_call_id\<close> or its name changes nothing that is sent.
\<close>

theorem bedrock_tool_result_as_assistant:
  "bedrock_kwargs (rq\<lparr>req_messages := ms @ m\<lparr>msg_role := TOOL, msg_tool_call_id := i, msg_name := n\<rparr> # ms'\<rparr>) =
     bedrock_kwargs (rq\<lparr>req_messages := ms @ m\<lparr>msg_role := ASSISTANT, msg_tool_call_id := j, msg_name := k\<rparr> # ms'\<rparr>) \<and>
   to_bedrock_messages ms =
     (map text_block (filter (\<lambda>m. msg_role m = SYSTEM) ms),
      map (\<lambda>m. JObj [(''role'', JStr (if msg_role m = USER then ''user'' else ''assistant'')),
                     (''content'', JList [text_block m])]) (filter (\<lambda>m. msg_role m \<noteq> SYSTEM) ms))"
  by (simp add: bedrock_kwargs_def to_bedrock_tool_config_def to_bedrock_split text_block_def)








end
