(* ===== verification/Foundry_Provider.thy ===== *)
theory Foundry_Provider
  imports Provider_Wire
begin

text \<open>
  The adapter to Azure AI Foundry, \<open>providers/foundry_provider.py\<close>: messages, tools and errors
  converted to and from the chat API of the \<open>openai\<close> SDK. The client, of any type \<open>'c\<close>, what its
  operations do and the JSON parser are parameters; the SDK's objects are records of the fields
  that the adapter reads.
\<close>

section \<open>The client\<close>

datatype openai_failure =
    APITimeoutError string
  | AuthenticationError string
  | RateLimitError string
  | APIConnectionError string
  | InternalServerError string
  | PermissionDeniedError string
  | OtherApiError string

record openai_call =
  oc_id :: string
  oc_name :: string
  oc_arguments :: "string option"

record choice =
  ch_content :: "string option"
  ch_tool_calls :: "openai_call list option"
  ch_finish_reason :: "string option"

record completion =
  cp_choices :: "choice list"
  cp_usage :: "usage option"
  cp_dump :: jdict

record stream_event =
  ev_choices :: "choice list"
  ev_usage :: "usage option"

record ('c, 'w) foundry =
  fd_make :: "'w \<Rightarrow> 'c result \<times> 'w"
  fd_create :: "'c \<Rightarrow> jdict \<Rightarrow> 'w \<Rightarrow> (openai_failure + completion) \<times> 'w"
  fd_create_stream :: "'c \<Rightarrow> jdict \<Rightarrow> 'w \<Rightarrow>
    (openai_failure + stream_event list \<times> openai_failure option) \<times> 'w"
  fd_embed :: "'c \<Rightarrow> string \<Rightarrow> string list \<Rightarrow> 'w \<Rightarrow> (openai_failure + json list \<times> int option) \<times> 'w"
  fd_list_models :: "'c \<Rightarrow> real \<Rightarrow> 'w \<Rightarrow> (openai_failure + unit) \<times> 'w"
  fd_embedding_model :: string
  fd_loads :: "string \<Rightarrow> loads_error + json"
  fd_pydantic :: pydantic

section \<open>Conversion\<close>

fun role_map :: "role \<Rightarrow> string" where
  "role_map SYSTEM = ''system''"
| "role_map USER = ''user''"
| "role_map ASSISTANT = ''assistant''"
| "role_map TOOL = ''tool''"

definition to_openai_messages :: "chat_message list \<Rightarrow> json" where
  "to_openai_messages ms =
     JList (map (\<lambda>m. JObj [(''role'', JStr (role_map (msg_role m))), (''content'', JStr (msg_content m))]) ms)"

definition to_openai_tools :: "chat_request \<Rightarrow> json option" where
  "to_openai_tools request =
     (if req_tools request = [] then None
      else Some (JList (map (\<lambda>t. JObj
        [(''type'', JStr ''function''),
         (''function'', JObj [(''name'', JStr (spec_name t)), (''description'', JStr (spec_description t)),
            (''parameters'', JObj (spec_parameters t))])]) (req_tools request))))"

fun handle_error :: "openai_failure \<Rightarrow> exn" where
  "handle_error (APITimeoutError m) = ProviderTimeoutError m"
| "handle_error (AuthenticationError m) = ProviderAuthError m"
| "handle_error (RateLimitError m) = ProviderUnavailableError m"
| "handle_error (APIConnectionError m) = ProviderUnavailableError m"
| "handle_error (InternalServerError m) = ProviderUnavailableError m"
| "handle_error (PermissionDeniedError m) = ProviderUnavailableError m"
| "handle_error (OtherApiError m) = ProviderUnavailableError m"

text \<open>The arguments of a call are the parsed text, or empty if there is none or it does not parse.\<close>

definition safe_json_loads :: "('c, 'w) foundry \<Rightarrow> string option \<Rightarrow> json result" where
  "safe_json_loads fd raw =
     (case raw of
        None \<Rightarrow> Inr (JObj [])
      | Some t \<Rightarrow>
          (case fd_loads fd t of
             Inl (JSONDecodeError m) \<Rightarrow> Inr (JObj [])
           | Inl (OtherLoadsError e) \<Rightarrow> Inl e
           | Inr v \<Rightarrow> Inr v))"

section \<open>Chat\<close>

definition openai_kwargs :: "chat_request \<Rightarrow> jdict" where
  "openai_kwargs request =
     [(''model'', JStr (req_model request)),
      (''messages'', to_openai_messages (req_messages request)),
      (''temperature'', JFloat (req_temperature request)),
      (''max_tokens'', JInt (req_max_output_tokens request))]"

definition tools_kwarg :: "chat_request \<Rightarrow> jdict" where
  "tools_kwarg request = (case to_openai_tools request of None \<Rightarrow> [] | Some t \<Rightarrow> [(''tools'', t)])"

definition foundry_response :: "('c, 'w) foundry \<Rightarrow> string \<Rightarrow> completion \<Rightarrow> chat_response result" where
  "foundry_response fd model completion =
     (case cp_choices completion of
        [] \<Rightarrow> Inl (OtherError ''list index out of range'')
      | ch # _ \<Rightarrow>
          bind_r (map_r (\<lambda>tc. bind_r (safe_json_loads fd (oc_arguments tc))
               (valid_tool_call (fd_pydantic fd) (JStr (oc_id tc)) (JStr (oc_name tc))))
             (case ch_tool_calls ch of None \<Rightarrow> [] | Some tcs \<Rightarrow> tcs)) (\<lambda>calls.
          Inr \<lparr>resp_message = chat_message ASSISTANT (opt_str_or (ch_content ch) []),
               resp_tool_calls = calls,
               resp_usage = (case cp_usage completion of
                  None \<Rightarrow> \<lparr>input_tokens = 0, output_tokens = 0\<rparr> | Some u \<Rightarrow> u),
               resp_provider_name = ''foundry'', resp_model = model,
               resp_finish_reason = opt_str_or (ch_finish_reason ch) ''stop'',
               resp_raw = cp_dump completion\<rparr>))"

definition foundry_chat :: "('c, 'w) foundry \<Rightarrow> chat_request \<Rightarrow> (('c, 'w) sdk, chat_response) eff" where
  "foundry_chat fd request =
     bind_e (get_client (fd_make fd)) (\<lambda>client s.
       case on_sdk (fd_create fd client (openai_kwargs request @ tools_kwarg request)) s of
         (Inl f, s') \<Rightarrow> (Inl (handle_error f), s')
       | (Inr completion, s') \<Rightarrow> (foundry_response fd (req_model request) completion, s'))"

definition foundry_provider :: "('c, 'w) foundry \<Rightarrow> ('c, 'w) sdk provider" where
  "foundry_provider fd = \<lparr>prov_name = ''foundry'', prov_chat = foundry_chat fd\<rparr>"

section \<open>Streaming, embeddings, health\<close>

definition foundry_chunk :: "stream_event \<Rightarrow> stream_chunk option" where
  "foundry_chunk event =
     (case ev_usage event of
        Some u \<Rightarrow> Some \<lparr>chunk_delta = [], chunk_finish_reason = None, chunk_usage = Some u\<rparr>
      | None \<Rightarrow>
          (case ev_choices event of
             [] \<Rightarrow> None
           | ch # _ \<Rightarrow> Some \<lparr>chunk_delta = opt_str_or (ch_content ch) [],
               chunk_finish_reason = ch_finish_reason ch, chunk_usage = None\<rparr>))"

fun foundry_events :: "stream_event list \<Rightarrow> stream_chunk list" where
  "foundry_events [] = []"
| "foundry_events (ev # evs) =
     (case foundry_chunk ev of None \<Rightarrow> foundry_events evs | Some c \<Rightarrow> c # foundry_events evs)"

definition foundry_stream :: "('c, 'w) foundry \<Rightarrow> chat_request \<Rightarrow> (('c, 'w) sdk, chunks) eff" where
  "foundry_stream fd request =
     bind_e (get_client (fd_make fd)) (\<lambda>client s.
       case on_sdk (fd_create_stream fd client
           (openai_kwargs request @ [(''stream'', JBool True),
              (''stream_options'', JObj [(''include_usage'', JBool True)])] @ tools_kwarg request)) s of
         (Inl f, s') \<Rightarrow> (Inr ([], Some (handle_error f)), s')
       | (Inr (events, broken), s') \<Rightarrow> (Inr (foundry_events events, map_option handle_error broken), s'))"

definition foundry_embed :: "('c, 'w) foundry \<Rightarrow> embed_request \<Rightarrow> (('c, 'w) sdk, embed_response) eff" where
  "foundry_embed fd request =
     (let model = str_or (emb_model request) (fd_embedding_model fd) in
      bind_e (get_client (fd_make fd)) (\<lambda>client s.
        case on_sdk (fd_embed fd client model (emb_inputs request)) s of
          (Inl f, s') \<Rightarrow> (Inl (handle_error f), s')
        | (Inr (vectors, prompt_tokens), s') \<Rightarrow>
            (valid_embedding (fd_pydantic fd) ''foundry'' model
               \<lparr>input_tokens = (case prompt_tokens of None \<Rightarrow> 0 | Some n \<Rightarrow> n), output_tokens = 0\<rparr> vectors, s')))"

definition foundry_health :: "('c, 'w) foundry \<Rightarrow> (('c, 'w) sdk, bool) eff" where
  "foundry_health fd s =
     (case get_client (fd_make fd) s of
        (Inl e, s') \<Rightarrow> (Inr False, s')
      | (Inr client, s') \<Rightarrow>
          (case on_sdk (fd_list_models fd client 3) s' of
             (Inl f, s'') \<Rightarrow> (Inr False, s'')
           | (Inr _, s'') \<Rightarrow> (Inr True, s'')))"

section \<open>Properties\<close>

lemma handled_openai_errors:
  "is_provider_error (handle_error f)"
  "is_auth_error (handle_error f) \<longleftrightarrow> (\<exists>m. f = AuthenticationError m)"
  by (cases f; simp)+

text \<open>
  Foundry is sent nothing that ties a tool result to its call: the request is the same
  whatever the \<open>tool_call_id\<close> and the name of a message are, and no message of it has a member
  besides role and content, though the API asks a message of role \<open>tool\<close> for its call.
\<close>

theorem foundry_drops_call_ids:
  "openai_kwargs (rq\<lparr>req_messages := ms\<rparr>) =
     openai_kwargs (rq\<lparr>req_messages := map (\<lambda>m. m\<lparr>msg_tool_call_id := None, msg_name := None\<rparr>) ms\<rparr>) \<and>
   to_openai_messages ms = JList (map (\<lambda>m. JObj [(''role'', JStr (role_value (msg_role m))),
     (''content'', JStr (msg_content m))]) ms)"
proof -
  have "role_map r = role_value r" for r by (cases r) simp_all
  then show ?thesis by (simp add: openai_kwargs_def to_openai_messages_def)
qed

end
