(* ===== verification/Adapters.thy ===== *)
theory Adapters
  imports Router Local_Provider Bedrock_Provider Foundry_Provider
begin

text \<open>
  The three adapters together in the router that \<open>build_router\<close> of \<open>main.py\<close> makes, with the
  shipped policy, and what the gateway promises of real providers: which of them a request
  reaches, which failures the next one makes up for, and which not.
\<close>

section \<open>\<open>build_router\<close>\<close>

text \<open>The outside world with the two clients that are made on first use.\<close>

record ('b, 'f, 'w) cloud =
  bedrock_client :: "'b option"
  foundry_client :: "'f option"
  outer :: 'w

definition chat_local :: "('w, 'e) ollama_scheme \<Rightarrow> ('b, 'f, 'w) cloud provider" where
  "chat_local ol = \<lparr>prov_name = ''local'', prov_chat = (\<lambda>request s.
     let (r, w) = local_chat ol request (outer s) in (r, s\<lparr>outer := w\<rparr>))\<rparr>"

definition chat_bedrock :: "('b, 'w) bedrock \<Rightarrow> ('b, 'f, 'w) cloud provider" where
  "chat_bedrock br = \<lparr>prov_name = ''bedrock'', prov_chat = (\<lambda>request s.
     let (r, k) = bedrock_chat br request \<lparr>sdk_client = bedrock_client s, sdk_world = outer s\<rparr>
     in (r, s\<lparr>bedrock_client := sdk_client k, outer := sdk_world k\<rparr>))\<rparr>"

definition chat_foundry :: "('f, 'w) foundry \<Rightarrow> ('b, 'f, 'w) cloud provider" where
  "chat_foundry fd = \<lparr>prov_name = ''foundry'', prov_chat = (\<lambda>request s.
     let (r, k) = foundry_chat fd request \<lparr>sdk_client = foundry_client s, sdk_world = outer s\<rparr>
     in (r, s\<lparr>foundry_client := sdk_client k, outer := sdk_world k\<rparr>))\<rparr>"

definition build_router :: "('w, 'e) ollama_scheme \<Rightarrow> ('b, 'w) bedrock \<Rightarrow> ('f, 'w) foundry \<Rightarrow>
    ('b, 'f, 'w) cloud router" where
  "build_router ol br fd =
     \<lparr>rt_policy = routing_yaml,
      rt_providers = [''local'' \<mapsto> chat_local ol, ''bedrock'' \<mapsto> chat_bedrock br,
                      ''foundry'' \<mapsto> chat_foundry fd]\<rparr>"

section \<open>Outages\<close>

text \<open>The server is away or answers with an error that is not about the credentials.\<close>

definition local_down :: "('w, 'e) ollama_scheme \<Rightarrow> bool" where
  "local_down ol \<longleftrightarrow> (\<forall>t u p w. case fst (ol_post ol t u p w) of
     Reply status body \<Rightarrow> 400 \<le> status \<and> status \<notin> {401, 403}
   | Failed f \<Rightarrow> f \<in> {TimedOut, CannotConnect})"

definition bedrock_down :: "('b, 'w) bedrock \<Rightarrow> bool" where
  "bedrock_down br \<longleftrightarrow> (\<forall>w. \<exists>c. fst (br_make br w) = Inr c) \<and>
     (\<forall>c k w. \<exists>f. fst (br_converse br c k w) = Inl f \<and> \<not> is_auth_error (handle_client_error f))"

definition foundry_up :: "('f, 'w) foundry \<Rightarrow> bool" where
  "foundry_up fd \<longleftrightarrow> (\<forall>w. \<exists>c. fst (fd_make fd w) = Inr c) \<and>
     (\<forall>c k w. \<exists>cp. fst (fd_create fd c k w) = Inr cp \<and>
        (\<forall>m. \<exists>resp. foundry_response fd m cp = Inr resp))"

lemma on_sdk_fst [simp]: "fst (on_sdk f s) = fst (f (sdk_world s))"
  by (simp add: on_sdk_def split: prod.splits)

lemma get_client_Inr:
  "(\<And>w. \<exists>c. fst (build w) = Inr c) \<Longrightarrow> \<exists>c s'. get_client build s = (Inr c, s')"
  by (auto simp: get_client_def split: option.splits prod.splits sum.splits) (metis Inl_Inr_False fst_conv)

lemma local_down_fails:
  assumes "local_down ol"
  shows "\<exists>e w'. local_chat ol request w = (Inl e, w') \<and> is_provider_error e \<and> \<not> is_auth_error e"
proof -
  obtain out w' where post:
    "ol_post ol (ol_timeout_s ol) (ol_base_url ol @ ''/api/chat'') (ollama_payload request) w = (out, w')"
    by fastforce
  have "case out of Reply status body \<Rightarrow> 400 \<le> status \<and> status \<notin> {401, 403}
      | Failed f \<Rightarrow> f \<in> {TimedOut, CannotConnect}"
    using assms [unfolded local_down_def, rule_format, of "ol_timeout_s ol" "ol_base_url ol @ ''/api/chat''"
      "ollama_payload request" w] by (simp add: post)
  note ok = this
  show ?thesis
  proof (cases out)
    case (Reply status body)
    then show ?thesis using post ok
      by (simp add: local_chat_def raise_for_ollama_status_def)
  next
    case (Failed f)
    then show ?thesis using post ok by (auto simp: local_chat_def)
  qed
qed

lemma bedrock_down_fails:
  assumes "bedrock_down br"
  shows "\<exists>e s'. bedrock_chat br request s = (Inl e, s') \<and> is_provider_error e \<and> \<not> is_auth_error e"
proof -
  from assms obtain c s1 where "get_client (br_make br) s = (Inr c, s1)"
    using get_client_Inr [of "br_make br" s] by (auto simp: bedrock_down_def)
  moreover obtain r s2 where call: "on_sdk (br_converse br c (bedrock_kwargs request)) s1 = (r, s2)"
    by fastforce
  moreover have "\<exists>f. r = Inl f \<and> \<not> is_auth_error (handle_client_error f)"
    using assms call on_sdk_fst [of "br_converse br c (bedrock_kwargs request)" s1]
    unfolding bedrock_down_def by (metis fst_conv)
  ultimately show ?thesis by (auto simp: bedrock_chat_def bind_e_def handled_errors)
qed

lemma foundry_up_answers:
  assumes "foundry_up fd"
  shows "\<exists>resp s'. foundry_chat fd request s = (Inr resp, s')"
proof -
  from assms obtain c s1 where "get_client (fd_make fd) s = (Inr c, s1)"
    using get_client_Inr [of "fd_make fd" s] by (auto simp: foundry_up_def)
  moreover obtain r s2 where call:
    "on_sdk (fd_create fd c (openai_kwargs request @ tools_kwarg request)) s1 = (r, s2)"
    by fastforce
  moreover have "\<exists>cp. r = Inr cp \<and> (\<forall>m. \<exists>resp. foundry_response fd m cp = Inr resp)"
    using assms call on_sdk_fst [of "fd_create fd c (openai_kwargs request @ tools_kwarg request)" s1]
    unfolding foundry_up_def by (metis fst_conv)
  ultimately show ?thesis by (auto simp: foundry_chat_def bind_e_def)
qed

lemma foundry_names_itself:
  "foundry_chat fd request s = (Inr resp, s') \<Longrightarrow> resp_provider_name resp = ''foundry''"
  by (auto simp: foundry_chat_def bind_e_def foundry_response_def bind_r_def
      split: prod.splits sum.splits list.splits)

section \<open>Concrete providers\<close>

text \<open>No server, and one behind a proxy that answers with a page.\<close>

definition away_ollama :: "nat ollama" where
  "away_ollama =
     \<lparr>ol_base_url = ''http://localhost:11434'', ol_timeout_s = 30,
      ol_post = (\<lambda>t u p w. (Failed CannotConnect, w + 1)), ol_get = (\<lambda>t u w. (Failed CannotConnect, w)),
      ol_stream = (\<lambda>t u p w. (NoStream CannotConnect, w)), ol_stream_text = Inr [],
      ol_loads = (\<lambda>t. Inl (ValueError ''Expecting value'')), ol_float = (\<lambda>x. ''30.0''),
      ol_pydantic = plain_pydantic\<rparr>"

definition html_ollama :: "nat ollama" where
  "html_ollama = away_ollama\<lparr>ol_post := (\<lambda>t u p w. (Reply 200 ''<html>'', w))\<rparr>"

definition throttled_bedrock :: "(unit, nat) bedrock" where
  "throttled_bedrock =
     \<lparr>br_make = (\<lambda>w. (Inr (), w)),
      br_converse = (\<lambda>c k w. (Inl (ClientError (Some ''ThrottlingException'') ''slow down''), w + 1)),
      br_converse_stream = (\<lambda>c k w. (Inl (OtherFailure ''closed''), w)),
      br_invoke_all = (\<lambda>c k w. (Inl (OtherFailure ''closed''), w)),
      br_list_models = (\<lambda>c w. (Inl (OtherFailure ''closed''), w)), br_embedding_model = [],
      br_sum = (\<lambda>vs. Inr (JInt 0)), br_pydantic = plain_pydantic\<rparr>"

definition refusing_bedrock :: "(unit, nat) bedrock" where
  "refusing_bedrock = throttled_bedrock
     \<lparr>br_converse := (\<lambda>c k w. (Inl (ClientError (Some ''AccessDeniedException'') ''no''), w + 7))\<rparr>"

definition hello_foundry :: "(unit, nat) foundry" where
  "hello_foundry =
     \<lparr>fd_make = (\<lambda>w. (Inr (), w)),
      fd_create = (\<lambda>c k w. (Inr \<lparr>cp_choices = [\<lparr>ch_content = Some ''hello'', ch_tool_calls = None,
         ch_finish_reason = Some ''stop''\<rparr>], cp_usage = Some \<lparr>input_tokens = 4, output_tokens = 1\<rparr>,
         cp_dump = []\<rparr>, w + 1)),
      fd_create_stream = (\<lambda>c k w. (Inl (OtherApiError ''closed''), w)),
      fd_embed = (\<lambda>c m ts w. (Inl (OtherApiError ''closed''), w)),
      fd_list_models = (\<lambda>c t w. (Inl (OtherApiError ''closed''), w)), fd_embedding_model = [],
      fd_loads = (\<lambda>t. Inl (JSONDecodeError t)), fd_pydantic = plain_pydantic\<rparr>"

definition idle_clock :: "(unit, unit, nat) cloud env" where
  "idle_clock = \<lparr>monotonic = (\<lambda>w. (0, w))\<rparr>"

definition cloud_start :: "(unit, unit, nat) cloud gateway" where
  "cloud_start = \<lparr>breakers = new_registry 5 30,
     world = \<lparr>bedrock_client = None, foundry_client = None, outer = 0\<rparr>, obs = []\<rparr>"

section \<open>Properties\<close>

lemma internal_chain:
  "ctx_data_classification c = ''internal'' \<Longrightarrow>
     route_candidates routing_yaml c = [''local'', ''bedrock'', ''foundry'']"
  by (simp add: route_candidates_def candidates_for_def routing_yaml_def matches_def
      context_dump_def slice_to_def)

lemma build_router_simps [simp]:
  "rt_policy (build_router ol br fd) = routing_yaml"
  "rt_providers (build_router ol br fd) ''local'' = Some (chat_local ol)"
  "rt_providers (build_router ol br fd) ''bedrock'' = Some (chat_bedrock br)"
  "rt_providers (build_router ol br fd) ''foundry'' = Some (chat_foundry fd)"
  by (simp_all add: build_router_def)

lemma down_retryable:
  "local_down ol \<Longrightarrow> retryable_only (chat_local ol)"
  "bedrock_down br \<Longrightarrow> retryable_only (chat_bedrock br)"
proof -
  assume "local_down ol"
  then show "retryable_only (chat_local ol)"
    using local_down_fails [of ol] by (auto simp: retryable_only_def chat_local_def split: prod.splits) (metis Inl_inject prod.inject)+
next
  assume "bedrock_down br"
  then show "retryable_only (chat_bedrock br)"
    using bedrock_down_fails [of br] by (auto simp: retryable_only_def chat_bedrock_def split: prod.splits) (metis Inl_inject prod.inject)+
qed

lemma down_never_answers:
  "local_down ol \<Longrightarrow> prov_chat (chat_local ol) rq w \<noteq> (Inr resp, w')"
  "bedrock_down br \<Longrightarrow> prov_chat (chat_bedrock br) rq w \<noteq> (Inr resp, w')"
  using local_down_fails [of ol rq "outer w"]
    bedrock_down_fails [of br rq "\<lparr>sdk_client = bedrock_client w, sdk_world = outer w\<rparr>"]
  by (auto simp: chat_local_def chat_bedrock_def)

lemma never_retryable: "never_fails prov \<Longrightarrow> retryable_only prov"
  by (simp add: never_fails_def retryable_only_def)

text \<open>
  C8. An outage of two providers is made up for by the third: while every request to the local server
  times out, does not connect or is answered with a status from 400 on that is not about
  the credentials, and Bedrock's client fails every request with anything but an authentication
  error, and Foundry's client can be made and answers every request with a completion of the
  expected shape, a request classified internal is answered by Foundry if Foundry's circuit is not
  open, whatever the request, its cost tier and the state of the other circuits are.
\<close>

theorem outage_answered_by_foundry:
  assumes "local_down ol" and "bedrock_down br" and "foundry_up fd"
    and "ctx_data_classification c = ''internal''" and "cb_state (peek ''foundry'' s) \<noteq> OPEN"
  shows "\<exists>resp. fst (route env (build_router ol br fd) request c s) = Inr resp \<and>
    resp_provider_name resp = ''foundry''"
proof -
  let ?rt = "build_router ol br fd"
  have never: "never_fails (chat_foundry fd)"
    using foundry_up_answers [OF assms(3)]
    by (auto simp: never_fails_def chat_foundry_def split: prod.splits) (metis Inl_Inr_False prod.inject)
  have soft: "retryable_only prov \<and> map_of (rp_providers (rt_policy ?rt)) q \<noteq> None"
    if "q \<in> set (route_candidates (rt_policy ?rt) c)" "rt_providers ?rt q = Some prov" for q prov
  proof -
    have q: "q \<in> {''local'', ''bedrock'', ''foundry''}" using that(1) assms(4) by (simp add: internal_chain)
    then have "prov \<in> {chat_local ol, chat_bedrock br, chat_foundry fd}" using that(2) by auto
    with down_retryable(1) [OF assms(1)] down_retryable(2) [OF assms(2)] never_retryable [OF never]
    have "retryable_only prov" by blast
    moreover have "map_of (rp_providers (rt_policy ?rt)) q \<noteq> None" using q by (auto simp: routing_yaml_def)
    ultimately show ?thesis ..
  qed
  have "\<exists>resp. fst (route env ?rt request c s) = Inr resp"
  proof (rule route_finds_healthy [OF _ _ never assms(5) soft])
    show "''foundry'' \<in> set (route_candidates (rt_policy ?rt) c)" using assms(4) by (simp add: internal_chain)
  qed simp_all
  then obtain resp s' where run: "route env ?rt request c s = (Inr resp, s')" by (metis prod.collapse)
  have cand: "set (route_candidates (rt_policy ?rt) c) = {''local'', ''bedrock'', ''foundry''}"
    using assms(4) by (simp add: internal_chain)
  from route_result [where env = env and rt = ?rt and request = request and c = c and s = s]
  have "\<exists>p \<in> {''local'', ''bedrock'', ''foundry''}. \<exists>prov cfg w w'. rt_providers ?rt p = Some prov \<and>
      map_of (rp_providers (rt_policy ?rt)) p = Some cfg \<and>
      prov_chat prov (request\<lparr>req_model := str_or (req_model request) (pc_model cfg)\<rparr>) w = (Inr resp, w') \<and>
      cb_state (peek p s') = CLOSED \<and> consecutive_failures (peek p s') = 0"
    unfolding run prod.case sum.case cand .
  then obtain p prov rq w w' where p: "p \<in> {''local'', ''bedrock'', ''foundry''}"
      "rt_providers ?rt p = Some prov" "prov_chat prov rq w = (Inr resp, w')" by meson
  with down_never_answers(1) [OF assms(1), of rq w resp w'] down_never_answers(2) [OF assms(2), of rq w resp w']
  have "prov = chat_foundry fd" by auto
  with p(3) have "resp_provider_name resp = ''foundry''"
    by (auto simp: chat_foundry_def intro: foundry_names_itself split: prod.splits)
  with run show ?thesis by simp
qed

theorem outage_answered_by_foundry_witness:
  "\<exists>resp. fst (route idle_clock (build_router away_ollama throttled_bedrock hello_foundry) demo_request
     (ctx_of ''internal'' ''standard'') cloud_start) = Inr resp \<and> resp_provider_name resp = ''foundry''"
proof (rule outage_answered_by_foundry)
  show "local_down away_ollama" by (simp add: local_down_def away_ollama_def)
  show "bedrock_down throttled_bedrock"
    by (simp add: bedrock_down_def throttled_bedrock_def auth_error_codes_def retryable_error_codes_def)
  show "foundry_up hello_foundry" by (simp add: foundry_up_def hello_foundry_def foundry_response_def)
qed (simp_all add: ctx_of_def cloud_start_def peek_def new_registry_def new_entry_def)

text \<open>
  A confidential or restricted request cannot depend on the clouds: its result and the
  whole state after it are the same with any other Bedrock and Foundry, reachable or not,
  answering or not, so neither is asked.
\<close>

theorem confidential_never_leaves:
  assumes "ctx_data_classification c \<in> {''confidential'', ''restricted''}"
  shows "route env (build_router ol br fd) request c s = route env (build_router ol br' fd') request c s"
proof -
  have "(build_router ol br fd)\<lparr>rt_providers := rt_providers (build_router ol br fd) |` {''local''}\<rparr> =
      (build_router ol br' fd')\<lparr>rt_providers := rt_providers (build_router ol br' fd') |` {''local''}\<rparr>"
    by (simp add: build_router_def restrict_map_def fun_eq_iff)
  moreover have "route env ((build_router ol br fd)\<lparr>rt_providers := rt_providers (build_router ol br fd) |` {''local''}\<rparr>)
      request c s = route env (build_router ol br fd) request c s" for br fd
    by (rule conjunct1 [OF confidential_stays_local [OF assms]]) simp
  ultimately show ?thesis by metis
qed

theorem confidential_never_leaves_witness:
  "route idle_clock (build_router away_ollama throttled_bedrock hello_foundry) demo_request
     (ctx_of ''restricted'' ''premium'') cloud_start =
   route idle_clock (build_router away_ollama refusing_bedrock hello_foundry) demo_request
     (ctx_of ''restricted'' ''premium'') cloud_start"
  by (rule confidential_never_leaves) (simp add: ctx_of_def)

text \<open>The local server answers with success, but what it sends does not parse.\<close>

definition local_garbled :: "('w, 'e) ollama_scheme \<Rightarrow> exn \<Rightarrow> bool" where
  "local_garbled ol e \<longleftrightarrow> (\<forall>t u p w. case fst (ol_post ol t u p w) of
     Reply status body \<Rightarrow> status < 400 \<and> ol_loads ol body = Inl e
   | Failed f \<Rightarrow> False)"

lemma local_garbled_raises:
  assumes "local_garbled ol e"
  shows "\<exists>w'. local_chat ol request w = (Inl e, w')"
proof -
  obtain out w' where post:
    "ol_post ol (ol_timeout_s ol) (ol_base_url ol @ ''/api/chat'') (ollama_payload request) w = (out, w')"
    by fastforce
  show ?thesis
    using assms [unfolded local_garbled_def, rule_format, of "ol_timeout_s ol" "ol_base_url ol @ ''/api/chat''"
      "ollama_payload request" w] post
    by (cases out) (simp_all add: local_chat_def raise_for_ollama_status_def)
qed

lemma before_call_closed:
  "cb_state (peek p s) = CLOSED \<Longrightarrow> peek q (snd (before_call env p s)) = peek q s"
  by (simp add: breaker_defs split: option.splits prod.splits)

lemma call_provider_peek [simp]: "peek q (snd (call_provider prov rq s)) = peek q s"
  by (simp add: call_provider_def peek_def split: prod.splits)

text \<open>
  A garbled answer is not made up for: when the local server answers with success and a
  body that is not JSON, the parser's exception ends the request, though two more providers
  are candidates, and no circuit counts a failure, so the next request ends the same way.
\<close>

theorem garbled_answer_not_failed_over:
  assumes "local_garbled ol e" and "\<not> is_provider_error e"
    and "ctx_data_classification c = ''internal''" and "cb_state (peek ''local'' s) = CLOSED"
  shows "fst (route env (build_router ol br fd) request c s) = Inl e \<and>
    (\<forall>q. peek q (snd (route env (build_router ol br fd) request c s)) = peek q s)"
proof -
  let ?rt = "build_router ol br fd"
  obtain t s' where a: "attempt env ?rt request ''local'' s = (t, s')" by fastforce
  have raises: "fst (call_provider (chat_local ol) rq s1) = Inl e" for rq s1
    using local_garbled_raises [OF assms(1)]
    by (auto simp: call_provider_def chat_local_def split: prod.splits) (metis prod.inject)
  have called: "r = Inl e" if "rt_providers ?rt ''local'' = Some prov" "call_provider prov rq s1 = (r, s4)"
    for prov rq s1 s4 r
    using that raises [of rq s1] by simp
  have "t = Raise e \<and> (\<forall>q. peek q s' = peek q s)"
    using a
  proof (cases rule: attempt_cases)
    case (refused prov x s1)
    then show ?thesis using before_call_refused [of env "''local''" s x] assms(4) by simp
  next
    case (other prov cfg s1 u s2 x s4)
    have "peek q s1 = peek q s" for q using before_call_closed [OF assms(4), of q env] other(2) by simp
    moreover have "peek q s4 = peek q s2" for q
      using call_provider_peek other(5) by (metis emit_breakers peek_def snd_conv)
    moreover have "peek q s2 = peek q s1" for q using read_clock_breakers [of env s1] other(4) by (simp add: peek_def)
    moreover have "x = e" using called [OF other(1,5)] by simp
    ultimately show ?thesis using other(7,8) by simp
  next
    case (auth prov cfg s1 u s2 x s4)
    then show ?thesis using called [OF auth(1,5)] assms(2) auth_error_is_provider_error by auto
  next
    case (failed prov cfg s1 u s2 x s4)
    then show ?thesis using called [OF failed(1,5)] assms(2) by auto
  next
    case (success prov cfg s1 u s2 resp s4)
    then show ?thesis using called [OF success(1,5)] by auto
  qed (auto simp: routing_yaml_def)
  with a show ?thesis
    by (simp add: route_def internal_chain [OF assms(3)])
qed

theorem garbled_answer_not_failed_over_witness:
  "fst (route idle_clock (build_router html_ollama throttled_bedrock hello_foundry) demo_request
     (ctx_of ''internal'' ''standard'') cloud_start) = Inl (ValueError ''Expecting value'')"
proof (rule conjunct1 [OF garbled_answer_not_failed_over])
  show "local_garbled html_ollama (ValueError ''Expecting value'')"
    by (simp add: local_garbled_def html_ollama_def away_ollama_def)
qed (simp_all add: ctx_of_def cloud_start_def peek_def new_registry_def new_entry_def)

end
