(* ===== verification/Policy_Files.thy ===== *)
theory Policy_Files
  imports Startup "HOL-Library.AList"
begin

text \<open>
  The four policy files: the \<open>from_yaml\<close> constructors on the document that \<open>yaml.safe_load\<close> makes of
  a file, a value of type \<open>json\<close>, and the start of the gateway on them. What pydantic makes of a
  value for a field of a given type is a parameter.
\<close>

section \<open>Fields\<close>

record field_types =
  as_str :: "json \<Rightarrow> string option"
  as_int :: "json \<Rightarrow> int option"
  as_bool :: "json \<Rightarrow> bool option"
  as_float :: "json \<Rightarrow> real option"
  refusal :: "string \<Rightarrow> jdict \<Rightarrow> string"

text \<open>Values of the type of the field are taken as they are, and an integer is a float.\<close>

definition takes_exact :: "field_types \<Rightarrow> bool" where
  "takes_exact ft \<longleftrightarrow> (\<forall>s. as_str ft (JStr s) = Some s) \<and> (\<forall>n. as_int ft (JInt n) = Some n) \<and>
     (\<forall>b. as_bool ft (JBool b) = Some b) \<and> (\<forall>x. as_float ft (JFloat x) = Some x) \<and>
     (\<forall>n. as_float ft (JInt n) = Some (of_int n))"

text \<open>A field of a model that has to be given, and one with a default.\<close>

definition required :: "jdict \<Rightarrow> string \<Rightarrow> (json \<Rightarrow> 'a option) \<Rightarrow> 'a option" where
  "required d k f = Option.bind (map_of d k) f"

definition defaulted :: "jdict \<Rightarrow> string \<Rightarrow> (json \<Rightarrow> 'a option) \<Rightarrow> 'a \<Rightarrow> 'a option" where
  "defaulted d k f v = (case map_of d k of None \<Rightarrow> Some v | Some x \<Rightarrow> f x)"

text \<open>Fields of type \<open>dict[str, ...]\<close> and \<open>list[...]\<close>, and nested models.\<close>

definition as_model :: "(jdict \<Rightarrow> 'a option) \<Rightarrow> json \<Rightarrow> 'a option" where
  "as_model f v = (case v of JObj d \<Rightarrow> f d | _ \<Rightarrow> None)"

definition as_dict :: "(json \<Rightarrow> 'a option) \<Rightarrow> json \<Rightarrow> (string \<times> 'a) list option" where
  "as_dict f = as_model (\<lambda>d. those (map (\<lambda>(k, v). map_option (Pair k) (f v)) d))"

definition as_list :: "(json \<Rightarrow> 'a option) \<Rightarrow> json \<Rightarrow> 'a list option" where
  "as_list f v = (case v of JList xs \<Rightarrow> those (map f xs) | _ \<Rightarrow> None)"

text \<open>The end of a constructor call: an instance, or the \<open>ValidationError\<close> for the class.\<close>

definition validated :: "field_types \<Rightarrow> string \<Rightarrow> jdict \<Rightarrow> 'a option \<Rightarrow> 'a result" where
  "validated ft cls args x =
     (case x of None \<Rightarrow> Inl (ValidationError (refusal ft cls args)) | Some y \<Rightarrow> Inr y)"

section \<open>\<open>policies/routing.yaml\<close>\<close>

definition ProviderConfig :: "field_types \<Rightarrow> jdict \<Rightarrow> provider_config option" where
  "ProviderConfig ft d =
     Option.bind (required d ''model'' (as_str ft)) (\<lambda>m.
     Option.bind (required d ''region'' (as_str ft)) (\<lambda>r.
     Option.bind (required d ''cost_per_1k_input_tokens'' (as_float ft)) (\<lambda>i.
     Option.bind (required d ''cost_per_1k_output_tokens'' (as_float ft)) (\<lambda>out.
     Some \<lparr>pc_model = m, pc_region = r, pc_cost_per_1k_input_tokens = i, pc_cost_per_1k_output_tokens = out\<rparr>))))"

definition RoutingRule :: "field_types \<Rightarrow> jdict \<Rightarrow> routing_rule option" where
  "RoutingRule ft d =
     Option.bind (required d ''name'' (as_str ft)) (\<lambda>n.
     Option.bind (required d ''when'' (as_dict (as_list (as_str ft)))) (\<lambda>w.
     Option.bind (required d ''allow'' (as_list (as_str ft))) (\<lambda>a.
     Some \<lparr>rule_name = n, rule_when = w, rule_allow = a\<rparr>)))"

text \<open>\<open>FailoverConfig(**flat)\<close>: fields it does not know are ignored.\<close>

definition FailoverConfig :: "field_types \<Rightarrow> jdict \<Rightarrow> failover_config result" where
  "FailoverConfig ft flat =
     (let given = (\<lambda>k f. case map_of flat k of None \<Rightarrow> Some None | Some v \<Rightarrow> map_option Some (f v))
      in case (given ''max_attempts'' (as_int ft), given ''failure_threshold'' (as_int ft),
               case map_of flat ''reset_timeout_s'' of None \<Rightarrow> Some None | Some v \<Rightarrow> map_option Some (as_float ft v)) of
           (Some attempts, Some threshold, Some timeout) \<Rightarrow> failover_config attempts threshold timeout
         | _ \<Rightarrow> Inl (ValidationError (refusal ft ''FailoverConfig'' flat)))"

text \<open>\<open>{"max_attempts": ..., **circuit_breaker}\<close>.\<close>

definition flat_failover :: "json \<Rightarrow> json \<Rightarrow> jdict result" where
  "flat_failover attempts breaker =
     (case breaker of
        JObj d \<Rightarrow> Inr (AList.merge [(''max_attempts'', attempts)] d)
      | v \<Rightarrow> Inl (OtherError (py_repr (type_name v) @ '' object is not a mapping'')))"

definition RoutingPolicy_from_yaml :: "field_types \<Rightarrow> json \<Rightarrow> routing_policy result" where
  "RoutingPolicy_from_yaml ft raw =
     bind_r (py_get raw ''failover'' (JObj [])) (\<lambda>failover_raw.
     bind_r (py_get failover_raw ''max_attempts'' (JInt 3)) (\<lambda>attempts.
     bind_r (py_get failover_raw ''circuit_breaker'' (JObj [])) (\<lambda>breaker.
     bind_r (flat_failover attempts breaker) (\<lambda>flat.
     bind_r (py_item raw ''version'') (\<lambda>version.
     bind_r (py_item raw ''default_provider'') (\<lambda>provider.
     bind_r (py_item raw ''providers'') (\<lambda>providers.
     bind_r (py_item raw ''rules'') (\<lambda>rules.
     bind_r (FailoverConfig ft flat) (\<lambda>failover.
     validated ft ''RoutingPolicy''
       [(''version'', version), (''default_provider'', provider), (''providers'', providers), (''rules'', rules)]
       (Option.bind (as_int ft version) (\<lambda>v.
        Option.bind (as_str ft provider) (\<lambda>p.
        Option.bind (as_dict (as_model (ProviderConfig ft)) providers) (\<lambda>ps.
        Option.bind (as_list (as_model (RoutingRule ft)) rules) (\<lambda>rs.
        Some \<lparr>rp_version = v, rp_default_provider = p, rp_providers = ps, rp_rules = rs,
              rp_failover = failover\<rparr>))))))))))))))"

section \<open>\<open>policies/guardrails.yaml\<close>\<close>

definition PiiConfig :: "field_types \<Rightarrow> jdict \<Rightarrow> pii_config option" where
  "PiiConfig ft d =
     Option.bind (defaulted d ''enabled'' (as_bool ft) True) (\<lambda>e.
     Option.bind (defaulted d ''action'' (as_str ft) ''redact'') (\<lambda>a.
     Option.bind (defaulted d ''entities'' (as_list (as_str ft)) []) (\<lambda>es.
     Some \<lparr>pii_enabled = e, pii_action = a, pii_entities = es\<rparr>)))"

definition PromptInjectionConfig :: "field_types \<Rightarrow> jdict \<Rightarrow> prompt_injection_config option" where
  "PromptInjectionConfig ft d =
     Option.bind (defaulted d ''enabled'' (as_bool ft) True) (\<lambda>e.
     Option.bind (defaulted d ''action'' (as_str ft) ''block'') (\<lambda>a.
     Some \<lparr>inj_enabled = e, inj_action = a\<rparr>))"

definition SecretLeakConfig :: "field_types \<Rightarrow> jdict \<Rightarrow> secret_leak_config option" where
  "SecretLeakConfig ft d =
     Option.bind (defaulted d ''enabled'' (as_bool ft) True) (\<lambda>e.
     Option.bind (defaulted d ''action'' (as_str ft) ''block'') (\<lambda>a.
     Some \<lparr>leak_enabled = e, leak_action = a\<rparr>))"

definition TenantGuardrailPolicy :: "field_types \<Rightarrow> jdict \<Rightarrow> guardrail_policy option" where
  "TenantGuardrailPolicy ft d =
     Option.bind (required d ''pii'' (as_model (PiiConfig ft))) (\<lambda>p.
     Option.bind (required d ''prompt_injection'' (as_model (PromptInjectionConfig ft))) (\<lambda>i.
     Option.bind (defaulted d ''max_input_chars'' (as_int ft) 20000) (\<lambda>n.
     Option.bind (required d ''output_validation''
       (as_model (\<lambda>v. defaulted v ''enabled'' (as_bool ft) True))) (\<lambda>ov.
     Option.bind (required d ''secret_leak'' (as_model (SecretLeakConfig ft))) (\<lambda>sl.
     Some \<lparr>gp_pii = p, gp_prompt_injection = i, gp_max_input_chars = n,
           gp_output_validation_enabled = ov, gp_secret_leak = sl\<rparr>)))))"

definition GuardrailPolicySet_from_yaml :: "field_types \<Rightarrow> json \<Rightarrow> policy_set result" where
  "GuardrailPolicySet_from_yaml ft raw =
     bind_r (py_item raw ''version'') (\<lambda>version.
     bind_r (py_item raw ''default_tenant_policy'') (\<lambda>policy.
     bind_r (py_item raw ''tenants'') (\<lambda>tenants.
     validated ft ''GuardrailPolicySet''
       [(''version'', version), (''default_tenant_policy'', policy), (''tenants'', tenants)]
       (Option.bind (as_int ft version) (\<lambda>v.
        Option.bind (as_str ft policy) (\<lambda>p.
        Option.bind (as_dict (as_model (TenantGuardrailPolicy ft)) tenants) (\<lambda>ts.
        Some \<lparr>ps_version = v, ps_default = p, ps_tenants = ts\<rparr>)))))))"

section \<open>\<open>policies/pricing.yaml\<close> and \<open>policies/tenants.yaml\<close>\<close>

definition ModelPricing :: "field_types \<Rightarrow> jdict \<Rightarrow> model_pricing option" where
  "ModelPricing ft d =
     Option.bind (required d ''input_per_1k_usd'' (as_float ft)) (\<lambda>i.
     Option.bind (required d ''output_per_1k_usd'' (as_float ft)) (\<lambda>out.
     Some \<lparr>mp_input_per_1k_usd = i, mp_output_per_1k_usd = out\<rparr>))"

definition PricingTable_from_yaml :: "field_types \<Rightarrow> json \<Rightarrow> pricing_table result" where
  "PricingTable_from_yaml ft raw =
     bind_r (py_item raw ''version'') (\<lambda>version.
     bind_r (py_get raw ''default_currency'' (JStr ''USD'')) (\<lambda>currency.
     bind_r (py_item raw ''providers'') (\<lambda>providers.
     bind_r (py_item raw ''fallback'') (\<lambda>fallback.
     validated ft ''PricingTable''
       [(''version'', version), (''default_currency'', currency), (''providers'', providers), (''fallback'', fallback)]
       (Option.bind (as_int ft version) (\<lambda>v.
        Option.bind (as_str ft currency) (\<lambda>c.
        Option.bind (as_dict (as_dict (as_model (ModelPricing ft))) providers) (\<lambda>ps.
        Option.bind (as_model (ModelPricing ft) fallback) (\<lambda>fb.
        Some \<lparr>pt_version = v, pt_default_currency = c, pt_providers = ps, pt_fallback = fb\<rparr>)))))))))"

definition Tenant :: "field_types \<Rightarrow> jdict \<Rightarrow> tenant option" where
  "Tenant ft d =
     Option.bind (required d ''id'' (as_str ft)) (\<lambda>i.
     Option.bind (required d ''display_name'' (as_str ft)) (\<lambda>n.
     Option.bind (defaulted d ''guardrail_policy'' (as_str ft) ''standard'') (\<lambda>g.
     Option.bind (required d ''monthly_budget_usd'' (as_float ft)) (\<lambda>b.
     Some \<lparr>tn_id = i, tn_display_name = n, tn_guardrail_policy = g, tn_monthly_budget_usd = b\<rparr>))))"

definition TenantRegistry_from_yaml :: "field_types \<Rightarrow> json \<Rightarrow> tenant_registry result" where
  "TenantRegistry_from_yaml ft raw =
     bind_r (py_item raw ''version'') (\<lambda>version.
     bind_r (py_item raw ''tenants'') (\<lambda>tenants.
     validated ft ''TenantRegistry'' [(''version'', version), (''tenants'', tenants)]
       (Option.bind (as_int ft version) (\<lambda>v.
        Option.bind (as_list (as_model (Tenant ft)) tenants) (\<lambda>ts.
        Some \<lparr>tr_version = v, tr_tenants = ts\<rparr>)))))"

section \<open>The shipped files\<close>

text \<open>The documents that \<open>yaml.safe_load\<close> makes of the four files under \<open>policies/\<close>.\<close>

definition texts :: "string list \<Rightarrow> json" where
  "texts xs = JList (map JStr xs)"

definition routing_file :: json where
  "routing_file = JObj
     [(''version'', JInt 1), (''default_provider'', JStr ''local''),
      (''providers'', JObj
        [(''local'', JObj [(''model'', JStr ''llama3.1:8b''), (''region'', JStr ''local''),
           (''cost_per_1k_input_tokens'', JFloat 0), (''cost_per_1k_output_tokens'', JFloat 0)]),
         (''bedrock'', JObj [(''model'', JStr ''anthropic.claude-3-5-sonnet-20241022-v2:0''), (''region'', JStr ''us-east-1''),
           (''cost_per_1k_input_tokens'', JFloat (3 / 1000)), (''cost_per_1k_output_tokens'', JFloat (15 / 1000))]),
         (''foundry'', JObj [(''model'', JStr ''gpt-4o''), (''region'', JStr ''eastus''),
           (''cost_per_1k_input_tokens'', JFloat (25 / 10000)), (''cost_per_1k_output_tokens'', JFloat (1 / 100))])]),
      (''rules'', JList
        [JObj [(''name'', JStr ''confidential-and-restricted-never-leave-org''),
           (''when'', JObj [(''data_classification'', texts [''confidential'', ''restricted''])]),
           (''allow'', texts [''local''])],
         JObj [(''name'', JStr ''internal-prefers-local-falls-back-to-cloud''),
           (''when'', JObj [(''data_classification'', texts [''internal''])]),
           (''allow'', texts [''local'', ''bedrock'', ''foundry''])],
         JObj [(''name'', JStr ''public-cost-optimized''),
           (''when'', JObj [(''data_classification'', texts [''public'']), (''cost_tier'', texts [''economy''])]),
           (''allow'', texts [''local''])],
         JObj [(''name'', JStr ''public-quality-optimized''),
           (''when'', JObj [(''data_classification'', texts [''public'']), (''cost_tier'', texts [''standard'', ''premium''])]),
           (''allow'', texts [''bedrock'', ''foundry'', ''local''])]]),
      (''failover'', JObj
        [(''max_attempts'', JInt 3),
         (''circuit_breaker'', JObj [(''failure_threshold'', JInt 5), (''reset_timeout_s'', JInt 30)])])]"

definition profile_file :: "string \<Rightarrow> int \<Rightarrow> json" where
  "profile_file action n = JObj
     [(''pii'', JObj [(''enabled'', JBool True), (''action'', JStr action),
        (''entities'', texts [''email'', ''phone'', ''credit_card'', ''ssn_like''])]),
      (''prompt_injection'', JObj [(''enabled'', JBool True), (''action'', JStr ''block'')]),
      (''max_input_chars'', JInt n),
      (''output_validation'', JObj [(''enabled'', JBool True)]),
      (''secret_leak'', JObj [(''enabled'', JBool True), (''action'', JStr ''block'')])]"

definition guardrails_file :: json where
  "guardrails_file = JObj
     [(''version'', JInt 1), (''default_tenant_policy'', JStr ''standard''),
      (''tenants'', JObj [(''standard'', profile_file ''redact'' 20000), (''legal_hold'', profile_file ''block'' 8000)])]"

definition price_file :: "real \<Rightarrow> real \<Rightarrow> json" where
  "price_file i out = JObj [(''input_per_1k_usd'', JFloat i), (''output_per_1k_usd'', JFloat out)]"

definition pricing_file :: json where
  "pricing_file = JObj
     [(''version'', JInt 1), (''default_currency'', JStr ''USD''),
      (''providers'', JObj
        [(''local'', JObj [(''llama3.1:8b'', price_file 0 0)]),
         (''bedrock'', JObj [(''anthropic.claude-3-5-sonnet-20241022-v2:0'', price_file (3 / 1000) (15 / 1000))]),
         (''foundry'', JObj [(''gpt-4o'', price_file (25 / 10000) (1 / 100))])]),
      (''fallback'', price_file 0 0)]"

definition tenants_file :: json where
  "tenants_file = JObj
     [(''version'', JInt 1),
      (''tenants'', JList
        [JObj [(''id'', JStr ''acme-support''), (''display_name'', JStr ''Acme Support Team''),
           (''guardrail_policy'', JStr ''standard''), (''monthly_budget_usd'', JFloat 500)],
         JObj [(''id'', JStr ''acme-legal''), (''display_name'', JStr ''Acme Legal Team''),
           (''guardrail_policy'', JStr ''legal_hold''), (''monthly_budget_usd'', JFloat 200)]])]"

lemmas reading_defs = bind_r_def py_item_def py_get_def jget_or_def validated_def required_def defaulted_def
  as_model_def as_dict_def as_list_def takes_exact_def

lemma those_Some [simp]: "those (map Some xs) = Some xs"
  by (induction xs) simp_all

lemma as_list_texts [simp]: "takes_exact ft \<Longrightarrow> as_list (as_str ft) (texts xs) = Some xs"
  by (simp add: as_list_def texts_def takes_exact_def comp_def)

lemma routing_file_loads:
  assumes "takes_exact ft"
  shows "RoutingPolicy_from_yaml ft routing_file = Inr routing_yaml"
  using assms
  by (simp add: RoutingPolicy_from_yaml_def routing_file_def flat_failover_def AList.merge_def
      FailoverConfig_def failover_config_def ProviderConfig_def RoutingRule_def routing_yaml_def
      as_list_texts reading_defs texts_def)

lemma guardrails_file_loads:
  assumes "takes_exact ft"
  shows "GuardrailPolicySet_from_yaml ft guardrails_file = Inr guardrails_yaml"
  using assms
  by (simp add: GuardrailPolicySet_from_yaml_def guardrails_file_def profile_file_def TenantGuardrailPolicy_def
      PiiConfig_def PromptInjectionConfig_def SecretLeakConfig_def guardrails_yaml_def standard_policy_def
      legal_hold_policy_def shipped_entities_def reading_defs texts_def)

lemma pricing_file_loads:
  assumes "takes_exact ft"
  shows "PricingTable_from_yaml ft pricing_file = Inr pricing_yaml"
  using assms
  by (simp add: PricingTable_from_yaml_def pricing_file_def price_file_def ModelPricing_def pricing_yaml_def reading_defs)

lemma tenants_file_loads:
  assumes "takes_exact ft"
  shows "TenantRegistry_from_yaml ft tenants_file = Inr tenants_yaml"
  using assms
  by (simp add: TenantRegistry_from_yaml_def tenants_file_def Tenant_def tenants_yaml_def reading_defs)

section \<open>Starting on the files\<close>

text \<open>
  \<open>lifespan\<close> with its four loads, in order: what reading or checking a file raises ends the start.
  \<open>read\<close> is \<open>yaml.safe_load(Path(path).read_text())\<close>.
\<close>

definition start_up :: "field_types \<Rightarrow> (string \<Rightarrow> json result) \<Rightarrow> settings \<Rightarrow> ('b, 'f, 'w, 'n, 's) platform \<Rightarrow>
    (('b, 'f, 'w) cloud, 'n, 's) app result" where
  "start_up ft read st pl =
     bind_r (bind_r (read (routing_policy_path st)) (RoutingPolicy_from_yaml ft)) (\<lambda>routing.
     bind_r (bind_r (read (guardrails_policy_path st)) (GuardrailPolicySet_from_yaml ft)) (\<lambda>guardrails.
     bind_r (bind_r (read (pricing_policy_path st)) (PricingTable_from_yaml ft)) (\<lambda>pricing.
     bind_r (bind_r (read (tenants_policy_path st)) (TenantRegistry_from_yaml ft)) (\<lambda>tenants.
     Inr (lifespan st (pl\<lparr>pl_routing := (\<lambda>_. routing), pl_guardrails := (\<lambda>_. guardrails),
       pl_pricing := (\<lambda>_. pricing), pl_tenants := (\<lambda>_. tenants)\<rparr>))))))"

section \<open>Policies as files\<close>

definition provider_document :: "provider_config \<Rightarrow> json" where
  "provider_document c = JObj [(''model'', JStr (pc_model c)), (''region'', JStr (pc_region c)),
     (''cost_per_1k_input_tokens'', JFloat (pc_cost_per_1k_input_tokens c)),
     (''cost_per_1k_output_tokens'', JFloat (pc_cost_per_1k_output_tokens c))]"

definition rule_document :: "routing_rule \<Rightarrow> json" where
  "rule_document r = JObj [(''name'', JStr (rule_name r)),
     (''when'', JObj (map (\<lambda>(k, vs). (k, texts vs)) (rule_when r))), (''allow'', texts (rule_allow r))]"

definition routing_document :: "routing_policy \<Rightarrow> json" where
  "routing_document pol = JObj
     [(''version'', JInt (rp_version pol)), (''default_provider'', JStr (rp_default_provider pol)),
      (''providers'', JObj (map (\<lambda>(n, c). (n, provider_document c)) (rp_providers pol))),
      (''rules'', JList (map rule_document (rp_rules pol))),
      (''failover'', JObj [(''max_attempts'', JInt (fo_max_attempts (rp_failover pol))),
         (''circuit_breaker'', JObj [(''failure_threshold'', JInt (fo_failure_threshold (rp_failover pol))),
            (''reset_timeout_s'', JFloat (fo_reset_timeout_s (rp_failover pol)))])])]"

definition profile_document :: "guardrail_policy \<Rightarrow> json" where
  "profile_document p = JObj
     [(''pii'', JObj [(''enabled'', JBool (pii_enabled (gp_pii p))), (''action'', JStr (pii_action (gp_pii p))),
        (''entities'', texts (pii_entities (gp_pii p)))]),
      (''prompt_injection'', JObj [(''enabled'', JBool (inj_enabled (gp_prompt_injection p))),
        (''action'', JStr (inj_action (gp_prompt_injection p)))]),
      (''max_input_chars'', JInt (gp_max_input_chars p)),
      (''output_validation'', JObj [(''enabled'', JBool (gp_output_validation_enabled p))]),
      (''secret_leak'', JObj [(''enabled'', JBool (leak_enabled (gp_secret_leak p))),
        (''action'', JStr (leak_action (gp_secret_leak p)))])]"

definition guardrails_document :: "policy_set \<Rightarrow> json" where
  "guardrails_document ps = JObj [(''version'', JInt (ps_version ps)), (''default_tenant_policy'', JStr (ps_default ps)),
     (''tenants'', JObj (map (\<lambda>(n, p). (n, profile_document p)) (ps_tenants ps)))]"

definition price_document :: "model_pricing \<Rightarrow> json" where
  "price_document m = price_file (mp_input_per_1k_usd m) (mp_output_per_1k_usd m)"

definition pricing_document :: "pricing_table \<Rightarrow> json" where
  "pricing_document pt = JObj [(''version'', JInt (pt_version pt)), (''default_currency'', JStr (pt_default_currency pt)),
     (''providers'', JObj (map (\<lambda>(n, ms). (n, JObj (map (\<lambda>(m, p). (m, price_document p)) ms))) (pt_providers pt))),
     (''fallback'', price_document (pt_fallback pt))]"

definition tenant_document :: "tenant \<Rightarrow> json" where
  "tenant_document t = JObj [(''id'', JStr (tn_id t)), (''display_name'', JStr (tn_display_name t)),
     (''guardrail_policy'', JStr (tn_guardrail_policy t)), (''monthly_budget_usd'', JFloat (tn_monthly_budget_usd t))]"

definition tenants_document :: "tenant_registry \<Rightarrow> json" where
  "tenants_document tr = JObj [(''version'', JInt (tr_version tr)), (''tenants'', JList (map tenant_document (tr_tenants tr)))]"

text \<open>A reader of single values that undoes their writer reads lists and dictionaries of them.\<close>

lemma as_list_map:
  "(\<And>x. f (g x) = Some x) \<Longrightarrow> as_list f (JList (map g xs)) = Some xs"
  by (simp add: as_list_def comp_def)

lemma as_dict_map:
  "(\<And>x. f (g x) = Some x) \<Longrightarrow> as_dict f (JObj (map (\<lambda>(k, x). (k, g x)) xs)) = Some xs"
  by (simp add: as_dict_def as_model_def comp_def case_prod_unfold)

lemma as_model_JObj [simp]: "as_model f (JObj d) = f d"
  by (simp add: as_model_def)

lemma required_Some: "map_of d k = Some v \<Longrightarrow> required d k f = f v"
  by (simp add: required_def)

lemma defaulted_Some: "map_of d k = Some v \<Longrightarrow> defaulted d k f x = f v"
  by (simp add: defaulted_def)

lemma exact_fields:
  assumes "takes_exact ft"
  shows "as_str ft (JStr s) = Some s" "as_int ft (JInt n) = Some n" "as_bool ft (JBool b) = Some b"
    "as_float ft (JFloat x) = Some x"
  using assms by (simp_all add: takes_exact_def)

lemmas reading = required_Some defaulted_Some exact_fields as_list_texts

lemma provider_reads: "takes_exact ft \<Longrightarrow> as_model (ProviderConfig ft) (provider_document c) = Some c"
  by (simp add: provider_document_def ProviderConfig_def reading)

lemma rule_reads: "takes_exact ft \<Longrightarrow> as_model (RoutingRule ft) (rule_document r) = Some r"
  by (simp add: rule_document_def RoutingRule_def reading as_dict_map)

lemma profile_reads: "takes_exact ft \<Longrightarrow> as_model (TenantGuardrailPolicy ft) (profile_document p) = Some p"
  by (simp add: profile_document_def TenantGuardrailPolicy_def PiiConfig_def PromptInjectionConfig_def
      SecretLeakConfig_def reading)

lemma price_reads: "takes_exact ft \<Longrightarrow> as_model (ModelPricing ft) (price_document m) = Some m"
  by (simp add: price_document_def price_file_def ModelPricing_def reading)

lemma tenant_reads: "takes_exact ft \<Longrightarrow> as_model (Tenant ft) (tenant_document t) = Some t"
  by (simp add: tenant_document_def Tenant_def reading)

section \<open>Documents for the witnesses\<close>

text \<open>A validation that converts nothing but integers to floats, and a disk with the shipped files.\<close>

definition exact_types :: field_types where
  "exact_types =
     \<lparr>as_str = (\<lambda>v. case v of JStr s \<Rightarrow> Some s | _ \<Rightarrow> None),
      as_int = (\<lambda>v. case v of JInt n \<Rightarrow> Some n | _ \<Rightarrow> None),
      as_bool = (\<lambda>v. case v of JBool b \<Rightarrow> Some b | _ \<Rightarrow> None),
      as_float = (\<lambda>v. case v of JFloat x \<Rightarrow> Some x | JInt n \<Rightarrow> Some (of_int n) | _ \<Rightarrow> None),
      refusal = (\<lambda>cls d. cls)\<rparr>"

lemma exact_types_exact: "takes_exact exact_types"
  by (simp add: takes_exact_def exact_types_def)

definition shipped_disk :: "string \<Rightarrow> json result" where
  "shipped_disk path =
     (case map_of [(''/app/policies/routing.yaml'', routing_file), (''/app/policies/guardrails.yaml'', guardrails_file),
        (''/app/policies/pricing.yaml'', pricing_file), (''/app/policies/tenants.yaml'', tenants_file)] path of
        None \<Rightarrow> Inl (OtherError path)
      | Some v \<Rightarrow> Inr v)"

lemma loaded_attempts:
  assumes "RoutingPolicy_from_yaml ft raw = Inr pol"
  shows "1 \<le> fo_max_attempts (rp_failover pol)"
proof -
  have "1 \<le> fo_max_attempts fo" if "failover_config a b c = Inr fo" for a b c fo
    using that by (auto simp: failover_config_def Let_def split: if_splits)
  then have "1 \<le> fo_max_attempts fo" if "FailoverConfig ft flat = Inr fo" for flat fo
    using that by (auto simp: FailoverConfig_def Let_def split: option.splits prod.splits)
  with assms show ?thesis
    by (auto simp: RoutingPolicy_from_yaml_def bind_r_def validated_def Option.bind_eq_Some_conv
        split: sum.splits option.splits)
qed

lemma first_match_split:
  assumes "list_all (\<lambda>r. \<not> matches r c) earlier" and "matches rule c"
  shows "first_match (earlier @ rule # later) c = Some (rule_allow rule)"
  using assms by (induction earlier) auto

section \<open>The gateway on the shipped files\<close>

text \<open>The policies that the other theories run on are those of the shipped files.\<close>

lemma starts_on_shipped_files:
  assumes "takes_exact ft"
    and "read (routing_policy_path st) = Inr routing_file" "read (guardrails_policy_path st) = Inr guardrails_file"
    and "read (pricing_policy_path st) = Inr pricing_file" "read (tenants_policy_path st) = Inr tenants_file"
  shows "start_up ft read st pl = Inr (lifespan st (pl\<lparr>pl_routing := (\<lambda>_. routing_yaml),
    pl_guardrails := (\<lambda>_. guardrails_yaml), pl_pricing := (\<lambda>_. pricing_yaml), pl_tenants := (\<lambda>_. tenants_yaml)\<rparr>))"
  using assms
  by (simp add: start_up_def bind_r_def routing_file_loads guardrails_file_loads pricing_file_loads tenants_file_loads)

section \<open>Rules that keep data local\<close>

lemma route_agree:
  assumes "rt_policy rt' = rt_policy rt"
    and "\<And>p. p \<in> set (route_candidates (rt_policy rt) c) \<Longrightarrow> rt_providers rt' p = rt_providers rt p"
  shows "route env rt' rq c s = route env rt rq c s"
proof -
  let ?cs = "set (route_candidates (rt_policy rt) c)"
  have "rt_providers rt' |` ?cs = rt_providers rt |` ?cs"
    using assms(2) by (auto simp: restrict_map_def fun_eq_iff)
  then have "rt'\<lparr>rt_providers := rt_providers rt' |` ?cs\<rparr> = rt\<lparr>rt_providers := rt_providers rt |` ?cs\<rparr>"
    using assms(1) by simp
  with route_restrict [of env rt' c rq s] route_restrict [of env rt c rq s] assms(1) show ?thesis by simp
qed

text \<open>
  A rule that decides on the classification alone and allows the local provider at most, after
  rules that allow no other provider either.
\<close>

definition pins_local :: "routing_policy \<Rightarrow> string list \<Rightarrow> bool" where
  "pins_local pol ds \<longleftrightarrow> list_ex (\<lambda>n.
     rule_when (rp_rules pol ! n) = [(''data_classification'', ds)] \<and>
     list_all (\<lambda>rule. set (rule_allow rule) \<subseteq> {''local''}) (take (Suc n) (rp_rules pol)))
     [0..<length (rp_rules pol)]"

definition classified_in :: "string list \<Rightarrow> api_request \<Rightarrow> bool" where
  "classified_in ds req \<longleftrightarrow> (case asked_classification req of None \<Rightarrow> True | Some d \<Rightarrow> d \<in> set ds)"

lemma first_match_local:
  assumes "list_all (\<lambda>rule. set (rule_allow rule) \<subseteq> L) (take (Suc n) rules)"
    and "n < length rules" and "matches (rules ! n) c"
  shows "\<exists>allow. first_match rules c = Some allow \<and> set allow \<subseteq> L"
  using assms
proof (induction rules arbitrary: n)
  case (Cons rule rules)
  then show ?case by (cases n) auto
qed simp

lemma pinned_candidates:
  assumes "pins_local pol ds" and "ctx_data_classification c \<in> set ds"
  shows "set (route_candidates pol c) \<subseteq> {''local''}"
proof -
  obtain n where n: "n < length (rp_rules pol)"
      "rule_when (rp_rules pol ! n) = [(''data_classification'', ds)]"
      "list_all (\<lambda>rule. set (rule_allow rule) \<subseteq> {''local''}) (take (Suc n) (rp_rules pol))"
    using assms(1) by (auto simp: pins_local_def list_ex_iff)
  have "matches (rp_rules pol ! n) c" using n(2) assms(2) by (simp add: matches_def context_dump_def)
  from first_match_local [OF n(3,1) this]
  obtain allow where "first_match (rp_rules pol) c = Some allow" "set allow \<subseteq> {''local''}" by blast
  moreover have "set (slice_to k xs) \<subseteq> set xs" for k and xs :: "string list"
    by (auto simp: slice_to_def dest: in_set_takeD)
  ultimately show ?thesis by (fastforce simp: route_candidates_def candidates_for_def)
qed

lemma serve_pinned:
  assumes pin: "pins_local (pl_routing pl (routing_policy_path st)) ds" and req: "classified_in ds req"
  shows "serve env (lifespan st (other_clouds br fd pl)) auth req = serve env (lifespan st pl) auth req"
  unfolding lifespan_other_clouds
proof (rule serve_router)
  fix rq and c :: routing_context and s :: "(_, _) gw_state_scheme"
  assume "asked_classification req = Some (ctx_data_classification c)"
  with req have "ctx_data_classification c \<in> set ds" by (simp add: classified_in_def)
  note cands = pinned_candidates [OF pin this]
  show "route env (build_router_from st (other_clouds br fd pl)) rq c s = route env (app_router (lifespan st pl)) rq c s"
    by (rule route_agree) (use cands in \<open>auto simp: lifespan_def build_router_from_def other_clouds_def\<close>)
qed

section \<open>Properties\<close>

text \<open>
  C23. A routing file can keep data in the organisation, whatever else it says: let the file that
  the settings name load, with a rule that decides on some data classifications alone and allows
  the local provider at most, after rules that allow no other provider either. Then a gateway that
  starts from the settings and the four files starts with any other Bedrock and Foundry as well, and
  over every history of requests in which each chat completion and each agent run has one of those
  classifications it behaves the same with them, in each answer and in the state it leaves, so
  neither of the two is ever asked.
\<close>

theorem started_gateway_pins_local:
  assumes start: "start_up ft read st pl = Inr app"
    and loads: "bind_r (read (routing_policy_path st)) (RoutingPolicy_from_yaml ft) = Inr pol"
    and pin: "pins_local pol ds" and reqs: "list_all (\<lambda>(auth, req). classified_in ds req) reqs"
  shows "\<exists>app'. start_up ft read st (other_clouds br fd pl) = Inr app' \<and>
    serve_all env app' reqs s = serve_all env app reqs s \<and>
    list_all (\<lambda>(auth, req). serve env app' auth req = serve env app auth req) reqs"
proof -
  obtain gs pt tr where "app = lifespan st (pl\<lparr>pl_routing := (\<lambda>_. pol), pl_guardrails := (\<lambda>_. gs),
        pl_pricing := (\<lambda>_. pt), pl_tenants := (\<lambda>_. tr)\<rparr>)"
      "start_up ft read st (other_clouds br fd pl) = Inr (lifespan st ((other_clouds br fd pl)\<lparr>pl_routing := (\<lambda>_. pol),
        pl_guardrails := (\<lambda>_. gs), pl_pricing := (\<lambda>_. pt), pl_tenants := (\<lambda>_. tr)\<rparr>))"
    using start loads by (auto simp: start_up_def bind_r_def split: sum.splits)
  moreover have "(other_clouds br fd pl)\<lparr>pl_routing := a, pl_guardrails := b, pl_pricing := c, pl_tenants := d\<rparr> =
      other_clouds br fd (pl\<lparr>pl_routing := a, pl_guardrails := b, pl_pricing := c, pl_tenants := d\<rparr>)" for a b c d
    by (simp add: other_clouds_def)
  ultimately obtain pl' where app: "app = lifespan st pl'" "pl_routing pl' (routing_policy_path st) = pol"
    and other: "start_up ft read st (other_clouds br fd pl) = Inr (lifespan st (other_clouds br fd pl'))"
    by fastforce
  have each: "serve env (lifespan st (other_clouds br fd pl')) auth req = serve env app auth req"
    if "classified_in ds req" for auth req
    using serve_pinned [of pl' st ds req env br fd auth] pin that app by simp
  have "serve_all env (lifespan st (other_clouds br fd pl')) reqs s = serve_all env app reqs s"
    using reqs by (induction reqs arbitrary: s) (auto simp: each)
  moreover have "list_all (\<lambda>(auth, req). serve env (lifespan st (other_clouds br fd pl')) auth req =
      serve env app auth req) reqs"
    using reqs each by (auto simp: list_all_iff)
  ultimately show ?thesis using other by blast
qed

theorem started_gateway_pins_local_witness:
  "\<forall>env tools s. \<exists>app app'.
     start_up exact_types shipped_disk (Settings (\<lambda>_. None) ''/app'') (shipped_platform tools) = Inr app \<and>
     start_up exact_types shipped_disk (Settings (\<lambda>_. None) ''/app'')
       (other_clouds (\<lambda>_. refusing_bedrock) (\<lambda>_ _. hello_foundry) (shipped_platform tools)) = Inr app' \<and>
     serve_all env app' [(Some ''Bearer k.s'', PostChat ((ask ''hi'')\<lparr>ci_data_classification := ''confidential''\<rparr>))] s =
     serve_all env app [(Some ''Bearer k.s'', PostChat ((ask ''hi'')\<lparr>ci_data_classification := ''confidential''\<rparr>))] s"
proof (intro allI)
  fix env tools s
  let ?st = "Settings (\<lambda>_. None) ''/app''"
  let ?reqs = "[(Some ''Bearer k.s'', PostChat ((ask ''hi'')\<lparr>ci_data_classification := ''confidential''\<rparr>))]"
  have disk: "shipped_disk (routing_policy_path ?st) = Inr routing_file"
    "shipped_disk (guardrails_policy_path ?st) = Inr guardrails_file"
    "shipped_disk (pricing_policy_path ?st) = Inr pricing_file"
    "shipped_disk (tenants_policy_path ?st) = Inr tenants_file"
    by (simp_all add: Settings_def shipped_disk_def)
  note start = starts_on_shipped_files [OF exact_types_exact disk, of "shipped_platform tools"]
  have loads: "bind_r (shipped_disk (routing_policy_path ?st)) (RoutingPolicy_from_yaml exact_types) = Inr routing_yaml"
    by (simp add: disk bind_r_def routing_file_loads exact_types_exact)
  have pin: "pins_local routing_yaml [''confidential'', ''restricted'']"
    by (simp add: pins_local_def routing_yaml_def)
  have "list_all (\<lambda>(auth, req). classified_in [''confidential'', ''restricted''] req) ?reqs"
    by (simp add: classified_in_def)
  from started_gateway_pins_local [OF start loads pin this, of "\<lambda>_. refusing_bedrock" "\<lambda>_ _. hello_foundry" env s] start
  show "\<exists>app app'. start_up exact_types shipped_disk ?st (shipped_platform tools) = Inr app \<and>
     start_up exact_types shipped_disk ?st
       (other_clouds (\<lambda>_. refusing_bedrock) (\<lambda>_ _. hello_foundry) (shipped_platform tools)) = Inr app' \<and>
     serve_all env app' ?reqs s = serve_all env app ?reqs s" by blast
qed

text \<open>
  C22. Every policy can be written down and is read back as it was: the loaders are left inverses
  of the plain way to write a routing policy, a set of guardrail profiles, a price table and a
  tenant registry as a file; nothing is dropped, reordered or defaulted on the way. A routing
  policy needs one attempt at least, which is what the validator asks.
\<close>

theorem policy_files_round_trip:
  assumes "takes_exact ft" and "1 \<le> fo_max_attempts (rp_failover pol)"
  shows "RoutingPolicy_from_yaml ft (routing_document pol) = Inr pol \<and>
    GuardrailPolicySet_from_yaml ft (guardrails_document ps) = Inr ps \<and>
    PricingTable_from_yaml ft (pricing_document pt) = Inr pt \<and>
    TenantRegistry_from_yaml ft (tenants_document tr) = Inr tr"
proof (intro conjI)
  note item = bind_r_def py_item_def py_get_def jget_or_def validated_def
  show "RoutingPolicy_from_yaml ft (routing_document pol) = Inr pol"
    using assms by (simp add: RoutingPolicy_from_yaml_def routing_document_def item flat_failover_def AList.merge_def
        FailoverConfig_def failover_config_def exact_fields as_list_map as_dict_map provider_reads rule_reads)
  show "GuardrailPolicySet_from_yaml ft (guardrails_document ps) = Inr ps"
    using assms(1) by (simp add: GuardrailPolicySet_from_yaml_def guardrails_document_def item exact_fields
        as_dict_map profile_reads)
  show "PricingTable_from_yaml ft (pricing_document pt) = Inr pt"
    using assms(1) by (simp add: PricingTable_from_yaml_def pricing_document_def item exact_fields as_dict_map price_reads)
  show "TenantRegistry_from_yaml ft (tenants_document tr) = Inr tr"
    using assms(1) by (simp add: TenantRegistry_from_yaml_def tenants_document_def item exact_fields as_list_map tenant_reads)
qed


theorem policy_files_round_trip_witness:
  "RoutingPolicy_from_yaml exact_types (routing_document routing_yaml) = Inr routing_yaml \<and>
   TenantRegistry_from_yaml exact_types (tenants_document tenants_yaml) = Inr tenants_yaml"
proof -
  have "1 \<le> fo_max_attempts (rp_failover routing_yaml)" by (simp add: routing_yaml_def)
  from policy_files_round_trip [OF exact_types_exact this] show ?thesis by blast
qed

text \<open>
  C21. Rules are decided top to bottom, the first match wins, and something is always left to try:
  of any routing policy that loads, a request whose first matching rule allows providers gets a
  non-empty beginning of that list, whatever the rules after it say, so a rule at the top, such
  as the one for confidential data, cannot be weakened by what follows.
\<close>

theorem loaded_policy_decides:
  assumes "RoutingPolicy_from_yaml ft raw = Inr pol" and "rp_rules pol = earlier @ rule # later"
    and "list_all (\<lambda>r. \<not> matches r c) earlier" and "matches rule c" and "rule_allow rule \<noteq> []"
  shows "route_candidates pol c \<noteq> [] \<and> prefix (route_candidates pol c) (rule_allow rule)"
  using loaded_attempts [OF assms(1)] first_match_split [OF assms(3,4), of later] assms(2,5)
  by (simp add: route_candidates_def candidates_for_def slice_to_def take_is_prefix)

theorem loaded_policy_decides_witness:
  "prefix (route_candidates routing_yaml (ctx_of ''restricted'' ''premium'')) [''local'']"
proof -
  let ?rule = "\<lparr>rule_name = ''confidential-and-restricted-never-leave-org'',
    rule_when = [(''data_classification'', [''confidential'', ''restricted''])], rule_allow = [''local'']\<rparr>"
  have "rp_rules routing_yaml = [] @ ?rule # tl (rp_rules routing_yaml)" by (simp add: routing_yaml_def)
  moreover have "matches ?rule (ctx_of ''restricted'' ''premium'')"
    by (simp add: matches_def context_dump_def ctx_of_def)
  ultimately show ?thesis
    using loaded_policy_decides [OF routing_file_loads [OF exact_types_exact]] by fastforce
qed

end
