(* ===== verification/Schema.thy ===== *)
theory Schema
  imports Prelude "HOL-Library.Multiset"
begin

text \<open>
  The database schema, twice: as the mapped classes of \<open>db/models.py\<close> declare it, which is what
  \<open>Base.metadata.create_all\<close> builds for the tests and the evaluation runner, and as the Alembic
  revisions of \<open>db/migrations/versions\<close> build it for a deployment. The statements are data; the
  engine that executes them is a parameter, constrained by \<open>ddl_engine\<close>.
\<close>

section \<open>Tables and indexes\<close>

datatype sql_type = SqlUuid | SqlString | SqlText | SqlInteger | SqlFloat | SqlJson | SqlTimestamp

text \<open>A column: its type, whether it may be null, and whether the server fills it in with \<open>now()\<close>.\<close>

record sql_column =
  cl_name :: string
  cl_type :: sql_type
  cl_nullable :: bool
  cl_now :: bool

record sql_table =
  tb_name :: string
  tb_columns :: "sql_column list"
  tb_primary_key :: "string list"
  tb_foreign_keys :: "(string \<times> string \<times> string) list"

record sql_index =
  ix_name :: string
  ix_table :: string
  ix_columns :: "string list"
  ix_unique :: bool

record schema =
  tables :: "sql_table list"
  indexes :: "sql_index list"

definition empty_schema :: schema where
  "empty_schema = \<lparr>tables = [], indexes = []\<rparr>"

text \<open>The statements of \<open>alembic.op\<close> that the revisions use.\<close>

datatype ddl =
    CreateTable sql_table
  | CreateIndex sql_index
  | DropIndex string string
  | DropTable string

section \<open>What the statements do\<close>

text \<open>
  The behaviour the code relies on, where it is sure to be that of every engine: a table or an index
  can be created when its name is free and what it refers to is there; a table can be dropped when
  no foreign key of another refers to it, and its indexes go with it. Where this gives \<open>None\<close>,
  engines differ or fail, and nothing is promised.
\<close>

definition find_table :: "string \<Rightarrow> schema \<Rightarrow> sql_table option" where
  "find_table n s = find (\<lambda>t. tb_name t = n) (tables s)"

definition has_column :: "string \<Rightarrow> sql_table \<Rightarrow> bool" where
  "has_column c t \<longleftrightarrow> c \<in> set (map cl_name (tb_columns t))"

definition table_ok :: "sql_table \<Rightarrow> schema \<Rightarrow> bool" where
  "table_ok t s \<longleftrightarrow> find_table (tb_name t) s = None \<and> distinct (map cl_name (tb_columns t)) \<and>
     list_all (\<lambda>c. has_column c t) (tb_primary_key t) \<and>
     list_all (\<lambda>(c, target, tc). has_column c t \<and>
        (case find_table target s of None \<Rightarrow> False | Some t' \<Rightarrow> has_column tc t')) (tb_foreign_keys t)"

definition index_ok :: "sql_index \<Rightarrow> schema \<Rightarrow> bool" where
  "index_ok i s \<longleftrightarrow> ix_name i \<notin> set (map ix_name (indexes s)) \<and>
     (case find_table (ix_table i) s of None \<Rightarrow> False | Some t \<Rightarrow> list_all (\<lambda>c. has_column c t) (ix_columns i))"

definition refers_to :: "string \<Rightarrow> sql_table \<Rightarrow> bool" where
  "refers_to n t \<longleftrightarrow> tb_name t \<noteq> n \<and> n \<in> set (map (\<lambda>(c, target, tc). target) (tb_foreign_keys t))"

fun run_ddl :: "ddl \<Rightarrow> schema \<Rightarrow> schema option" where
  "run_ddl (CreateTable t) s =
     (if table_ok t s then Some (s\<lparr>tables := tables s @ [t]\<rparr>) else None)"
| "run_ddl (CreateIndex i) s =
     (if index_ok i s then Some (s\<lparr>indexes := indexes s @ [i]\<rparr>) else None)"
| "run_ddl (DropIndex n t) s =
     (if (n, t) \<in> set (map (\<lambda>i. (ix_name i, ix_table i)) (indexes s))
      then Some (s\<lparr>indexes := filter (\<lambda>i. ix_name i \<noteq> n) (indexes s)\<rparr>) else None)"
| "run_ddl (DropTable n) s =
     (if find_table n s \<noteq> None \<and> \<not> list_ex (refers_to n) (tables s)
      then Some (s\<lparr>tables := filter (\<lambda>t. tb_name t \<noteq> n) (tables s),
                   indexes := filter (\<lambda>i. ix_table i \<noteq> n) (indexes s)\<rparr>) else None)"

fun run_all :: "('c \<Rightarrow> 'd \<Rightarrow> 'd option) \<Rightarrow> 'c list \<Rightarrow> 'd \<Rightarrow> 'd option" where
  "run_all run [] d = Some d"
| "run_all run (c # cs) d = (case run c d of None \<Rightarrow> None | Some d' \<Rightarrow> run_all run cs d')"

lemma run_all_append:
  "run_all run (cs @ ds) d = (case run_all run cs d of None \<Rightarrow> None | Some d' \<Rightarrow> run_all run ds d')"
  by (induction cs arbitrary: d) (auto split: option.split)

section \<open>The mapped classes\<close>

text \<open>
  An attribute as a class declares it: its annotation \<open>Mapped[...]\<close> and the arguments of
  \<open>mapped_column\<close>. Values that Python fills in (\<open>default=\<close>) are not part of the schema.
\<close>

datatype py_type = PyUuid | PyStr | PyInt | PyFloat | PyDict | PyDatetime

datatype annotation = Required py_type | Optional_of py_type

record attribute =
  at_name :: string
  at_annotation :: annotation
  at_type :: "sql_type option"
  at_primary_key :: bool
  at_foreign_key :: "(string \<times> string) option"
  at_now :: bool
  at_unique :: bool
  at_index :: bool

definition mapped :: "string \<Rightarrow> annotation \<Rightarrow> attribute" where
  "mapped n a = \<lparr>at_name = n, at_annotation = a, at_type = None, at_primary_key = False,
     at_foreign_key = None, at_now = False, at_unique = False, at_index = False\<rparr>"

type_synonym mapped_class = "string \<times> attribute list"

definition AgentRun_class :: mapped_class where
  "AgentRun_class = (''agent_runs'',
     [(mapped ''id'' (Required PyUuid))\<lparr>at_primary_key := True\<rparr>,
      (mapped ''tenant_id'' (Required PyStr))\<lparr>at_index := True\<rparr>,
      mapped ''agent_name'' (Required PyStr), mapped ''status'' (Required PyStr),
      mapped ''data_classification'' (Required PyStr), mapped ''cost_tier'' (Required PyStr),
      mapped ''max_steps'' (Required PyInt), mapped ''token_budget'' (Required PyInt),
      mapped ''total_input_tokens'' (Required PyInt),
      mapped ''total_output_tokens'' (Required PyInt), mapped ''step_count'' (Required PyInt),
      (mapped ''final_output'' (Optional_of PyStr))\<lparr>at_type := Some SqlText\<rparr>,
      (mapped ''error'' (Optional_of PyStr))\<lparr>at_type := Some SqlText\<rparr>,
      (mapped ''created_at'' (Required PyDatetime))\<lparr>at_type := Some SqlTimestamp, at_now := True\<rparr>,
      (mapped ''completed_at'' (Optional_of PyDatetime))\<lparr>at_type := Some SqlTimestamp\<rparr>])"

definition AgentStep_class :: mapped_class where
  "AgentStep_class = (''agent_steps'',
     [(mapped ''id'' (Required PyUuid))\<lparr>at_primary_key := True\<rparr>,
      (mapped ''run_id'' (Required PyUuid))\<lparr>at_foreign_key := Some (''agent_runs'', ''id''), at_index := True\<rparr>,
      mapped ''step_index'' (Required PyInt), mapped ''step_type'' (Required PyStr),
      mapped ''provider_name'' (Optional_of PyStr), mapped ''model'' (Optional_of PyStr),
      mapped ''tool_name'' (Optional_of PyStr),
      (mapped ''input'' (Required PyDict))\<lparr>at_type := Some SqlJson\<rparr>,
      (mapped ''output'' (Optional_of PyDict))\<lparr>at_type := Some SqlJson\<rparr>,
      (mapped ''error'' (Optional_of PyStr))\<lparr>at_type := Some SqlText\<rparr>,
      mapped ''input_tokens'' (Required PyInt), mapped ''output_tokens'' (Required PyInt),
      mapped ''retry_count'' (Required PyInt),
      (mapped ''started_at'' (Required PyDatetime))\<lparr>at_type := Some SqlTimestamp, at_now := True\<rparr>,
      (mapped ''finished_at'' (Optional_of PyDatetime))\<lparr>at_type := Some SqlTimestamp\<rparr>,
      mapped ''duration_ms'' (Optional_of PyInt)])"

definition AuditLogEntry_class :: mapped_class where
  "AuditLogEntry_class = (''audit_log'',
     [(mapped ''id'' (Required PyUuid))\<lparr>at_primary_key := True\<rparr>,
      (mapped ''tenant_id'' (Required PyStr))\<lparr>at_index := True\<rparr>,
      mapped ''run_id'' (Optional_of PyUuid), mapped ''actor'' (Required PyStr),
      mapped ''action'' (Required PyStr), mapped ''provider_name'' (Optional_of PyStr),
      mapped ''model'' (Optional_of PyStr), mapped ''input_tokens'' (Required PyInt),
      mapped ''output_tokens'' (Required PyInt), mapped ''policy_rule'' (Optional_of PyStr),
      mapped ''policy_action'' (Optional_of PyStr),
      (mapped ''detail'' (Optional_of PyDict))\<lparr>at_type := Some SqlJson\<rparr>,
      (mapped ''created_at'' (Required PyDatetime))\<lparr>at_type := Some SqlTimestamp, at_now := True, at_index := True\<rparr>])"

definition CostEntry_class :: mapped_class where
  "CostEntry_class = (''cost_entries'',
     [(mapped ''id'' (Required PyUuid))\<lparr>at_primary_key := True\<rparr>,
      (mapped ''tenant_id'' (Required PyStr))\<lparr>at_index := True\<rparr>,
      mapped ''run_id'' (Optional_of PyUuid), mapped ''provider_name'' (Required PyStr),
      mapped ''model'' (Required PyStr), mapped ''input_tokens'' (Required PyInt),
      mapped ''output_tokens'' (Required PyInt), mapped ''cost_usd'' (Required PyFloat),
      (mapped ''created_at'' (Required PyDatetime))\<lparr>at_type := Some SqlTimestamp, at_now := True, at_index := True\<rparr>])"

definition ApiKey_class :: mapped_class where
  "ApiKey_class = (''api_keys'',
     [(mapped ''id'' (Required PyUuid))\<lparr>at_primary_key := True\<rparr>,
      (mapped ''key_id'' (Required PyStr))\<lparr>at_unique := True, at_index := True\<rparr>,
      (mapped ''tenant_id'' (Required PyStr))\<lparr>at_index := True\<rparr>,
      mapped ''role'' (Required PyStr), mapped ''hashed_secret'' (Required PyStr),
      mapped ''rotated_from'' (Optional_of PyUuid),
      (mapped ''created_at'' (Required PyDatetime))\<lparr>at_type := Some SqlTimestamp, at_now := True\<rparr>,
      (mapped ''revoked_at'' (Optional_of PyDatetime))\<lparr>at_type := Some SqlTimestamp\<rparr>])"

definition models :: "mapped_class list" where
  "models = [AgentRun_class, AgentStep_class, AuditLogEntry_class, CostEntry_class, ApiKey_class]"

section \<open>Their tables\<close>

text \<open>
  The declarative mapping: the type of a column is the one given, otherwise the one of the
  annotation; it may be null when the annotation is optional; an indexed attribute has an index of
  its own, named after table and column, and unique when the attribute is.
\<close>

fun python_type :: "annotation \<Rightarrow> py_type" where
  "python_type (Required p) = p"
| "python_type (Optional_of p) = p"

fun default_type :: "py_type \<Rightarrow> sql_type option" where
  "default_type PyUuid = Some SqlUuid"
| "default_type PyStr = Some SqlString"
| "default_type PyInt = Some SqlInteger"
| "default_type PyFloat = Some SqlFloat"
| "default_type PyDatetime = Some SqlTimestamp"
| "default_type PyDict = None"

definition column_of :: "attribute \<Rightarrow> sql_column option" where
  "column_of a =
     map_option (\<lambda>ty. \<lparr>cl_name = at_name a, cl_type = ty,
         cl_nullable = (case at_annotation a of Required _ \<Rightarrow> False | Optional_of _ \<Rightarrow> \<not> at_primary_key a),
         cl_now = at_now a\<rparr>)
       (case at_type a of Some ty \<Rightarrow> Some ty | None \<Rightarrow> default_type (python_type (at_annotation a)))"

definition class_table :: "mapped_class \<Rightarrow> sql_table" where
  "class_table = (\<lambda>(n, as). \<lparr>tb_name = n, tb_columns = List.map_filter column_of as,
     tb_primary_key = map at_name (filter at_primary_key as),
     tb_foreign_keys = List.map_filter (\<lambda>a. map_option (\<lambda>(t, c). (at_name a, t, c)) (at_foreign_key a)) as\<rparr>)"

definition class_indexes :: "mapped_class \<Rightarrow> sql_index list" where
  "class_indexes = (\<lambda>(n, as). map (\<lambda>a. \<lparr>ix_name = ''ix_'' @ n @ ''_'' @ at_name a, ix_table = n,
     ix_columns = [at_name a], ix_unique = at_unique a\<rparr>) (filter at_index as))"

definition metadata :: schema where
  "metadata = \<lparr>tables = map class_table models, indexes = concat (map class_indexes models)\<rparr>"

text \<open>
  \<open>Base.metadata.create_all\<close> is the library's: it issues one statement for every table and index, in
  an order of its own. All that is assumed of that order is that a table comes after the tables its
  foreign keys refer to, and an index after its table.
\<close>

fun created :: "ddl \<Rightarrow> string set" where
  "created (CreateTable t) = {tb_name t}"
| "created _ = {}"

fun needed :: "ddl \<Rightarrow> string set" where
  "needed (CreateTable t) = set (map (\<lambda>(c, target, tc). target) (tb_foreign_keys t))"
| "needed (CreateIndex i) = {ix_table i}"
| "needed _ = {}"

fun in_order :: "string set \<Rightarrow> ddl list \<Rightarrow> bool" where
  "in_order seen [] = True"
| "in_order seen (c # cs) = (needed c \<subseteq> seen \<and> in_order (seen \<union> created c) cs)"

definition model_statements :: "ddl list" where
  "model_statements = map CreateTable (tables metadata) @ map CreateIndex (indexes metadata)"

definition creation_order :: "ddl list \<Rightarrow> bool" where
  "creation_order cs \<longleftrightarrow> mset cs = mset model_statements \<and> in_order {} cs"

text \<open>Two schemas are the same when they have the same tables and the same indexes.\<close>

definition same_schema :: "schema \<Rightarrow> schema \<Rightarrow> bool" where
  "same_schema s s' \<longleftrightarrow> mset (tables s) = mset (tables s') \<and> mset (indexes s) = mset (indexes s')"

section \<open>The revisions\<close>

text \<open>\<open>sa.Column(name, type, nullable=False)\<close>, the same with \<open>nullable=True\<close>, and a timestamp of the server.\<close>

definition column :: "string \<Rightarrow> sql_type \<Rightarrow> sql_column" where
  "column n ty = \<lparr>cl_name = n, cl_type = ty, cl_nullable = False, cl_now = False\<rparr>"

definition nullable :: "string \<Rightarrow> sql_type \<Rightarrow> sql_column" where
  "nullable n ty = \<lparr>cl_name = n, cl_type = ty, cl_nullable = True, cl_now = False\<rparr>"

definition now_column :: "string \<Rightarrow> sql_column" where
  "now_column n = \<lparr>cl_name = n, cl_type = SqlTimestamp, cl_nullable = False, cl_now = True\<rparr>"

record revision =
  rv_id :: string
  rv_down :: "string option"
  rv_upgrade :: "ddl list"
  rv_downgrade :: "ddl list"

definition agent_runs_table :: sql_table where
  "agent_runs_table = \<lparr>tb_name = ''agent_runs'',
     tb_columns =
       [column ''id'' SqlUuid, column ''tenant_id'' SqlString,
        column ''agent_name'' SqlString, column ''status'' SqlString,
        column ''data_classification'' SqlString, column ''cost_tier'' SqlString,
        column ''max_steps'' SqlInteger, column ''token_budget'' SqlInteger,
        column ''total_input_tokens'' SqlInteger,
        column ''total_output_tokens'' SqlInteger, column ''step_count'' SqlInteger,
        nullable ''final_output'' SqlText, nullable ''error'' SqlText,
        now_column ''created_at'', nullable ''completed_at'' SqlTimestamp],
     tb_primary_key = [''id''], tb_foreign_keys = []\<rparr>"

definition agent_steps_table :: sql_table where
  "agent_steps_table = \<lparr>tb_name = ''agent_steps'',
     tb_columns =
       [column ''id'' SqlUuid, column ''run_id'' SqlUuid,
        column ''step_index'' SqlInteger, column ''step_type'' SqlString,
        nullable ''provider_name'' SqlString, nullable ''model'' SqlString,
        nullable ''tool_name'' SqlString, column ''input'' SqlJson,
        nullable ''output'' SqlJson, nullable ''error'' SqlText,
        column ''input_tokens'' SqlInteger, column ''output_tokens'' SqlInteger,
        column ''retry_count'' SqlInteger, now_column ''started_at'',
        nullable ''finished_at'' SqlTimestamp, nullable ''duration_ms'' SqlInteger],
     tb_primary_key = [''id''], tb_foreign_keys = [(''run_id'', ''agent_runs'', ''id'')]\<rparr>"

definition upgrade_0001 :: "ddl list" where
  "upgrade_0001 = [
     CreateTable agent_runs_table,
     CreateIndex \<lparr>ix_name = ''ix_agent_runs_tenant_id'', ix_table = ''agent_runs'',
       ix_columns = [''tenant_id''], ix_unique = False\<rparr>,
     CreateTable agent_steps_table,
     CreateIndex \<lparr>ix_name = ''ix_agent_steps_run_id'', ix_table = ''agent_steps'',
       ix_columns = [''run_id''], ix_unique = False\<rparr>]"

definition downgrade_0001 :: "ddl list" where
  "downgrade_0001 = [
     DropIndex ''ix_agent_steps_run_id'' ''agent_steps'',
     DropTable ''agent_steps'',
     DropIndex ''ix_agent_runs_tenant_id'' ''agent_runs'',
     DropTable ''agent_runs'']"

definition revision_0001 :: revision where
  "revision_0001 = \<lparr>rv_id = ''0001'', rv_down = None,
     rv_upgrade = upgrade_0001, rv_downgrade = downgrade_0001\<rparr>"

definition audit_log_table :: sql_table where
  "audit_log_table = \<lparr>tb_name = ''audit_log'',
     tb_columns =
       [column ''id'' SqlUuid, column ''tenant_id'' SqlString,
        nullable ''run_id'' SqlUuid, column ''actor'' SqlString,
        column ''action'' SqlString, nullable ''provider_name'' SqlString,
        nullable ''model'' SqlString, column ''input_tokens'' SqlInteger,
        column ''output_tokens'' SqlInteger, nullable ''policy_rule'' SqlString,
        nullable ''policy_action'' SqlString, nullable ''detail'' SqlJson,
        now_column ''created_at''],
     tb_primary_key = [''id''], tb_foreign_keys = []\<rparr>"

definition cost_entries_table :: sql_table where
  "cost_entries_table = \<lparr>tb_name = ''cost_entries'',
     tb_columns =
       [column ''id'' SqlUuid, column ''tenant_id'' SqlString,
        nullable ''run_id'' SqlUuid, column ''provider_name'' SqlString,
        column ''model'' SqlString, column ''input_tokens'' SqlInteger,
        column ''output_tokens'' SqlInteger, column ''cost_usd'' SqlFloat,
        now_column ''created_at''],
     tb_primary_key = [''id''], tb_foreign_keys = []\<rparr>"

definition api_keys_table :: sql_table where
  "api_keys_table = \<lparr>tb_name = ''api_keys'',
     tb_columns =
       [column ''id'' SqlUuid, column ''key_id'' SqlString,
        column ''tenant_id'' SqlString, column ''role'' SqlString,
        column ''hashed_secret'' SqlString, nullable ''rotated_from'' SqlUuid,
        now_column ''created_at'', nullable ''revoked_at'' SqlTimestamp],
     tb_primary_key = [''id''], tb_foreign_keys = []\<rparr>"

definition upgrade_0002 :: "ddl list" where
  "upgrade_0002 = [
     CreateTable audit_log_table,
     CreateIndex \<lparr>ix_name = ''ix_audit_log_tenant_id'', ix_table = ''audit_log'',
       ix_columns = [''tenant_id''], ix_unique = False\<rparr>,
     CreateIndex \<lparr>ix_name = ''ix_audit_log_created_at'', ix_table = ''audit_log'',
       ix_columns = [''created_at''], ix_unique = False\<rparr>,
     CreateTable cost_entries_table,
     CreateIndex \<lparr>ix_name = ''ix_cost_entries_tenant_id'', ix_table = ''cost_entries'',
       ix_columns = [''tenant_id''], ix_unique = False\<rparr>,
     CreateIndex \<lparr>ix_name = ''ix_cost_entries_created_at'', ix_table = ''cost_entries'',
       ix_columns = [''created_at''], ix_unique = False\<rparr>,
     CreateTable api_keys_table,
     CreateIndex \<lparr>ix_name = ''ix_api_keys_key_id'', ix_table = ''api_keys'',
       ix_columns = [''key_id''], ix_unique = True\<rparr>,
     CreateIndex \<lparr>ix_name = ''ix_api_keys_tenant_id'', ix_table = ''api_keys'',
       ix_columns = [''tenant_id''], ix_unique = False\<rparr>]"

definition downgrade_0002 :: "ddl list" where
  "downgrade_0002 = [
     DropIndex ''ix_api_keys_tenant_id'' ''api_keys'',
     DropIndex ''ix_api_keys_key_id'' ''api_keys'',
     DropTable ''api_keys'',
     DropIndex ''ix_cost_entries_created_at'' ''cost_entries'',
     DropIndex ''ix_cost_entries_tenant_id'' ''cost_entries'',
     DropTable ''cost_entries'',
     DropIndex ''ix_audit_log_created_at'' ''audit_log'',
     DropIndex ''ix_audit_log_tenant_id'' ''audit_log'',
     DropTable ''audit_log'']"

definition revision_0002 :: revision where
  "revision_0002 = \<lparr>rv_id = ''0002'', rv_down = Some ''0001'',
     rv_upgrade = upgrade_0002, rv_downgrade = downgrade_0002\<rparr>"

definition versions :: "revision list" where
  "versions = [revision_0001, revision_0002]"

section \<open>\<open>alembic upgrade\<close> and \<open>alembic downgrade\<close>\<close>

text \<open>
  The database carries the id of its revision. Upgrading applies the revision whose
  \<open>down_revision\<close> that is, and so on to the head; downgrading takes the current one back.
\<close>

definition next_revision :: "revision list \<Rightarrow> string option \<Rightarrow> revision option" where
  "next_revision rs cur = find (\<lambda>r. rv_down r = cur) rs"

function upgrade_head :: "(ddl \<Rightarrow> 'd \<Rightarrow> 'd option) \<Rightarrow> revision list \<Rightarrow> string option \<times> 'd \<Rightarrow>
    (string option \<times> 'd) option" where
  "upgrade_head exec rs (cur, d) =
     (case next_revision rs cur of
        None \<Rightarrow> Some (cur, d)
      | Some r \<Rightarrow>
          (case run_all exec (rv_upgrade r) d of
             None \<Rightarrow> None
           | Some d' \<Rightarrow> upgrade_head exec (remove1 r rs) (Some (rv_id r), d')))"
  by pat_completeness auto
termination
  by (relation "measure (\<lambda>(_, rs, _). length rs)")
    (auto simp: next_revision_def find_Some_iff length_remove1 intro: nth_mem dest: length_pos_if_in_set)

declare upgrade_head.simps [simp del]

fun downgrade_one :: "(ddl \<Rightarrow> 'd \<Rightarrow> 'd option) \<Rightarrow> revision list \<Rightarrow> string option \<times> 'd \<Rightarrow>
    (string option \<times> 'd) option" where
  "downgrade_one exec rs (cur, d) =
     (case find (\<lambda>r. Some (rv_id r) = cur) rs of
        None \<Rightarrow> None
      | Some r \<Rightarrow> map_option (\<lambda>d'. (rv_down r, d')) (run_all exec (rv_downgrade r) d))"

section \<open>Any engine\<close>

text \<open>
  An engine executes statements on its own state; \<open>view\<close> reads the schema out of that state. It
  does what \<open>run_ddl\<close> promises, where that promises anything.
\<close>

locale ddl_engine =
  fixes exec :: "ddl \<Rightarrow> 'd \<Rightarrow> 'd option" and view :: "'d \<Rightarrow> schema"
  assumes exec_view: "run_ddl c (view d) = Some v \<Longrightarrow> \<exists>d'. exec c d = Some d' \<and> view d' = v"
begin

lemma run_all_view:
  "run_all run_ddl cs (view d) = Some v \<Longrightarrow> \<exists>d'. run_all exec cs d = Some d' \<and> view d' = v"
proof (induction cs arbitrary: d)
  case (Cons c cs)
  then obtain v1 where v1: "run_ddl c (view d) = Some v1" "run_all run_ddl cs v1 = Some v"
    by (auto split: option.splits)
  obtain d1 where d1: "exec c d = Some d1" "view d1 = v1" using exec_view [OF v1(1)] by blast
  from Cons.IH [of d1] v1(2) d1 show ?case by simp
qed simp

lemma upgrade_view:
  "upgrade_head run_ddl rs (cur, view d) = Some (h, v) \<Longrightarrow>
     \<exists>d'. upgrade_head exec rs (cur, d) = Some (h, d') \<and> view d' = v"
proof (induction "length rs" arbitrary: rs cur d)
  case 0
  then show ?case by (simp add: upgrade_head.simps [of _ "[]"] next_revision_def)
next
  case (Suc k)
  show ?case
  proof (cases "next_revision rs cur")
    case None
    with Suc.prems show ?thesis by (simp add: upgrade_head.simps [of _ rs])
  next
    case (Some r)
    with Suc.prems obtain v1 where v1: "run_all run_ddl (rv_upgrade r) (view d) = Some v1"
        "upgrade_head run_ddl (remove1 r rs) (Some (rv_id r), v1) = Some (h, v)"
      by (auto simp: upgrade_head.simps [of _ rs] split: option.splits)
    obtain d1 where d1: "run_all exec (rv_upgrade r) d = Some d1" "view d1 = v1"
      using run_all_view [OF v1(1)] by blast
    have "r \<in> set rs" using Some by (auto simp: next_revision_def find_Some_iff)
    then have "k = length (remove1 r rs)" using Suc.hyps(2) by (simp add: length_remove1)
    from Suc.hyps(1) [OF this, of "Some (rv_id r)" d1] v1(2) d1 Some show ?thesis
      by (auto simp: upgrade_head.simps [of _ rs])
  qed
qed

lemma downgrade_view:
  "downgrade_one run_ddl rs (cur, view d) = Some (h, v) \<Longrightarrow>
     \<exists>d'. downgrade_one exec rs (cur, d) = Some (h, d') \<and> view d' = v"
  by (auto split: option.splits dest: run_all_view)

end

text \<open>The promise itself is one.\<close>

interpretation reference_engine: ddl_engine run_ddl "\<lambda>s. s"
  by unfold_locales simp

section \<open>The revisions on the schema\<close>

lemmas revision_defs = upgrade_0001_def upgrade_0002_def downgrade_0001_def downgrade_0002_def

lemmas table_defs = agent_runs_table_def agent_steps_table_def audit_log_table_def
  cost_entries_table_def api_keys_table_def column_def nullable_def now_column_def

lemmas class_defs = AgentRun_class_def AgentStep_class_def AuditLogEntry_class_def CostEntry_class_def
  ApiKey_class_def mapped_def column_of_def

lemma class_tables:
  "class_table AgentRun_class = agent_runs_table"
  "class_table AgentStep_class = agent_steps_table"
  "class_table AuditLogEntry_class = audit_log_table"
  "class_table CostEntry_class = cost_entries_table"
  "class_table ApiKey_class = api_keys_table"
  by (simp_all add: class_table_def class_defs table_defs map_filter_simps)

lemma find_append:
  "find P (xs @ ys) = (case find P xs of None \<Rightarrow> find P ys | Some x \<Rightarrow> Some x)"
  by (induction xs) auto

text \<open>What a list of statements creates, and when a schema has nothing to do with it.\<close>

definition created_tables :: "ddl list \<Rightarrow> string list" where
  "created_tables cs = List.map_filter (\<lambda>c. case c of CreateTable t \<Rightarrow> Some (tb_name t) | _ \<Rightarrow> None) cs"

definition created_indexes :: "ddl list \<Rightarrow> string list" where
  "created_indexes cs = List.map_filter (\<lambda>c. case c of CreateIndex i \<Rightarrow> Some (ix_name i) | _ \<Rightarrow> None) cs"

definition apart :: "ddl list \<Rightarrow> schema \<Rightarrow> bool" where
  "apart cs s \<longleftrightarrow>
     list_all (\<lambda>t. tb_name t \<notin> set (created_tables cs) \<and>
       list_all (\<lambda>(c, target, tc). target \<notin> set (created_tables cs)) (tb_foreign_keys t)) (tables s) \<and>
     list_all (\<lambda>i. ix_name i \<notin> set (created_indexes cs) \<and> ix_table i \<notin> set (created_tables cs)) (indexes s)"

lemma apart_D:
  assumes "apart cs s"
  shows "n \<in> set (created_tables cs) \<Longrightarrow> find (\<lambda>t. tb_name t = n) (tables s) = None"
    and "n \<in> set (created_indexes cs) \<Longrightarrow> n \<notin> ix_name ` set (indexes s)"
    and "n \<in> set (created_tables cs) \<Longrightarrow> filter (\<lambda>t. tb_name t \<noteq> n) (tables s) = tables s"
    and "n \<in> set (created_tables cs) \<Longrightarrow> filter (\<lambda>i. ix_table i \<noteq> n) (indexes s) = indexes s"
    and "n \<in> set (created_indexes cs) \<Longrightarrow> filter (\<lambda>i. ix_name i \<noteq> n) (indexes s) = indexes s"
    and "n \<in> set (created_tables cs) \<Longrightarrow> \<not> list_ex (refers_to n) (tables s)"
  using assms
  by (fastforce simp: apart_def list_all_iff find_None_iff filter_id_conv list_ex_iff refers_to_def)+

lemmas ddl_simps = table_ok_def index_ok_def has_column_def find_table_def find_append refers_to_def

lemma created_0001:
  "set (created_tables upgrade_0001) = {''agent_runs'', ''agent_steps''}"
  "set (created_indexes upgrade_0001) = {''ix_agent_runs_tenant_id'', ''ix_agent_steps_run_id''}"
  by (simp_all add: created_tables_def created_indexes_def upgrade_0001_def map_filter_simps
      agent_runs_table_def agent_steps_table_def)

lemma created_0002:
  "set (created_tables upgrade_0002) = {''audit_log'', ''cost_entries'', ''api_keys''}"
  "set (created_indexes upgrade_0002) = {''ix_audit_log_tenant_id'', ''ix_audit_log_created_at'',
     ''ix_cost_entries_tenant_id'', ''ix_cost_entries_created_at'', ''ix_api_keys_key_id'', ''ix_api_keys_tenant_id''}"
  by (auto simp: created_tables_def created_indexes_def upgrade_0002_def map_filter_simps
      audit_log_table_def cost_entries_table_def api_keys_table_def)

lemma run_0001:
  assumes "apart upgrade_0001 s"
  shows "run_all run_ddl upgrade_0001 s = Some (s\<lparr>tables := tables s @ [agent_runs_table, agent_steps_table],
     indexes := indexes s @ class_indexes AgentRun_class @ class_indexes AgentStep_class\<rparr>)"
  by (simp add: upgrade_0001_def table_defs ddl_simps class_indexes_def class_defs
      apart_D [OF assms, unfolded created_0001])

lemma run_0002:
  assumes "apart upgrade_0002 s"
  shows "run_all run_ddl upgrade_0002 s = Some
    (s\<lparr>tables := tables s @ [audit_log_table, cost_entries_table, api_keys_table],
       indexes := indexes s @ class_indexes AuditLogEntry_class @ class_indexes CostEntry_class @
         class_indexes ApiKey_class\<rparr>)"
  by (simp add: upgrade_0002_def table_defs ddl_simps class_indexes_def class_defs
      apart_D [OF assms, unfolded created_0002])

lemma undo_0001:
  assumes "apart upgrade_0001 s"
  shows "run_all run_ddl downgrade_0001 (s\<lparr>tables := tables s @ [agent_runs_table, agent_steps_table],
     indexes := indexes s @ class_indexes AgentRun_class @ class_indexes AgentStep_class\<rparr>) = Some s"
  by (simp add: downgrade_0001_def table_defs ddl_simps class_indexes_def class_defs
      apart_D [OF assms, unfolded created_0001])

lemma undo_0002:
  assumes "apart upgrade_0002 s"
  shows "run_all run_ddl downgrade_0002
    (s\<lparr>tables := tables s @ [audit_log_table, cost_entries_table, api_keys_table],
       indexes := indexes s @ class_indexes AuditLogEntry_class @ class_indexes CostEntry_class @
         class_indexes ApiKey_class\<rparr>) = Some s"
  by (simp add: downgrade_0002_def table_defs ddl_simps class_indexes_def class_defs
      apart_D [OF assms, unfolded created_0002])

lemma undo_revision:
  assumes "r \<in> set versions" and "apart (rv_upgrade r) s"
  shows "\<exists>s1. run_all run_ddl (rv_upgrade r) s = Some s1 \<and> run_all run_ddl (rv_downgrade r) s1 = Some s"
  using assms run_0001 [of s] run_0002 [of s] undo_0001 [of s] undo_0002 [of s]
  by (auto simp: versions_def revision_0001_def revision_0002_def)

lemma empty_apart: "apart cs empty_schema"
  by (simp add: apart_def empty_schema_def)

lemma second_apart:
  "apart upgrade_0002 \<lparr>tables = [agent_runs_table, agent_steps_table],
     indexes = class_indexes AgentRun_class @ class_indexes AgentStep_class\<rparr>"
  by (simp add: apart_def created_0002 table_defs class_indexes_def class_defs)

lemma head_schema: "upgrade_head run_ddl versions (None, empty_schema) = Some (Some ''0002'', metadata)"
proof -
  have one: "run_all run_ddl upgrade_0001 empty_schema =
      Some \<lparr>tables = [agent_runs_table, agent_steps_table],
        indexes = class_indexes AgentRun_class @ class_indexes AgentStep_class\<rparr>"
    using run_0001 [OF empty_apart] by (simp add: empty_schema_def)
  show ?thesis
    using one run_0002 [OF second_apart]
    by (simp add: upgrade_head.simps next_revision_def versions_def revision_0001_def revision_0002_def
        metadata_def models_def class_tables)
qed

section \<open>The statements of the models in any order\<close>

definition table_in :: "ddl \<Rightarrow> sql_table option" where
  "table_in c = (case c of CreateTable t \<Rightarrow> Some t | _ \<Rightarrow> None)"

definition index_in :: "ddl \<Rightarrow> sql_index option" where
  "index_in c = (case c of CreateIndex i \<Rightarrow> Some i | _ \<Rightarrow> None)"

definition schema_of :: "ddl list \<Rightarrow> schema" where
  "schema_of cs = \<lparr>tables = List.map_filter table_in cs, indexes = List.map_filter index_in cs\<rparr>"

lemma map_filter_snoc: "List.map_filter f (xs @ ys) = List.map_filter f xs @ List.map_filter f ys"
  by (simp add: List.map_filter_def)

lemma mset_map_filter: "mset xs = mset ys \<Longrightarrow> mset (List.map_filter f xs) = mset (List.map_filter f ys)"
  by (simp add: List.map_filter_def)

lemma in_order_append:
  "in_order seen (cs @ ds) \<longleftrightarrow> in_order seen cs \<and> in_order (seen \<union> (\<Union>c \<in> set cs. created c)) ds"
  by (induction cs arbitrary: seen) (auto simp: Un_assoc)

lemma created_schema_of: "(\<Union>c \<in> set cs. created c) = tb_name ` set (tables (schema_of cs))"
  by (induction cs) (auto simp: schema_of_def table_in_def List.map_filter_simps split: ddl.splits)

text \<open>
  What makes a set of statements run in every such order: names are used once, and the columns that
  keys and indexes name are there.
\<close>

definition column_in :: "sql_table list \<Rightarrow> string \<Rightarrow> string \<Rightarrow> bool" where
  "column_in ts n c \<longleftrightarrow> list_all (\<lambda>t. tb_name t = n \<longrightarrow> has_column c t) ts"

definition statement_ok :: "sql_table list \<Rightarrow> ddl \<Rightarrow> bool" where
  "statement_ok ts c =
     (case c of
        CreateTable t \<Rightarrow> distinct (map cl_name (tb_columns t)) \<and>
          list_all (\<lambda>k. has_column k t) (tb_primary_key t) \<and>
          list_all (\<lambda>(k, n, c). has_column k t \<and> column_in ts n c) (tb_foreign_keys t)
      | CreateIndex i \<Rightarrow> list_all (column_in ts (ix_table i)) (ix_columns i)
      | _ \<Rightarrow> False)"

lemma found_column:
  assumes "n \<in> tb_name ` set (tables s)" and "list_all (column_in ts n) cs"
    and "set (tables s) \<subseteq> set ts"
  shows "\<exists>t. find_table n s = Some t \<and> list_all (\<lambda>c. has_column c t) cs"
proof -
  from assms(1) obtain t where t: "find_table n s = Some t"
    by (cases "find_table n s") (auto simp: find_table_def find_None_iff)
  then have "t \<in> set (tables s)" "tb_name t = n" by (auto simp: find_table_def find_Some_iff)
  with t assms(2,3) show ?thesis by (auto simp: column_in_def list_all_iff)
qed

lemma run_in_order:
  assumes "in_order {} cs" and "list_all (statement_ok ts) cs"
    and "set (tables (schema_of cs)) \<subseteq> set ts"
    and "distinct (map tb_name (tables (schema_of cs)))" and "distinct (map ix_name (indexes (schema_of cs)))"
  shows "run_all run_ddl cs empty_schema = Some (schema_of cs)"
  using assms
proof (induction cs rule: rev_induct)
  case Nil
  then show ?case by (simp add: schema_of_def empty_schema_def List.map_filter_simps)
next
  case (snoc c cs)
  let ?s = "schema_of cs"
  have ord: "in_order {} cs" "needed c \<subseteq> tb_name ` set (tables ?s)"
    using snoc.prems(1) by (simp_all add: in_order_append created_schema_of)
  have sub: "set (tables ?s) \<subseteq> set ts"
    using snoc.prems(3) by (auto simp: schema_of_def map_filter_snoc)
  have "run_all run_ddl cs empty_schema = Some ?s"
    using snoc.prems ord(1) by (intro snoc.IH) (auto simp: schema_of_def map_filter_snoc)
  moreover have "run_ddl c ?s = Some (schema_of (cs @ [c]))"
  proof (cases c)
    case (CreateTable t)
    have "tb_name t \<notin> tb_name ` set (tables ?s)"
      using snoc.prems(4) CreateTable
      by (simp add: schema_of_def map_filter_snoc table_in_def List.map_filter_simps)
    then have new: "find_table (tb_name t) ?s = None"
      unfolding find_table_def find_None_iff by (metis image_eqI)
    have "\<exists>t'. find_table n ?s = Some t' \<and> has_column c' t'" if "(k, n, c') \<in> set (tb_foreign_keys t)" for k n c'
    proof -
      have "n \<in> tb_name ` set (tables ?s)" using ord(2) CreateTable that by force
      moreover have "list_all (column_in ts n) [c']"
        using snoc.prems(2) CreateTable that by (auto simp: statement_ok_def list_all_iff)
      ultimately show ?thesis using found_column [of n ?s ts "[c']"] sub by simp
    qed
    then have "table_ok t ?s"
      using new snoc.prems(2) CreateTable
      by (fastforce simp: table_ok_def statement_ok_def list_all_iff)
    then show ?thesis using CreateTable
      by (simp add: schema_of_def map_filter_snoc table_in_def index_in_def List.map_filter_simps)
  next
    case (CreateIndex i)
    have "\<exists>t. find_table (ix_table i) ?s = Some t \<and> list_all (\<lambda>c. has_column c t) (ix_columns i)"
      using ord(2) snoc.prems(2) CreateIndex sub by (intro found_column) (auto simp: statement_ok_def)
    moreover have "ix_name i \<notin> set (map ix_name (indexes ?s))"
      using snoc.prems(5) CreateIndex
      by (auto simp: schema_of_def map_filter_snoc index_in_def List.map_filter_simps)
    ultimately have "index_ok i ?s" by (auto simp: index_ok_def)
    then show ?thesis using CreateIndex
      by (simp add: schema_of_def map_filter_snoc table_in_def index_in_def List.map_filter_simps)
  qed (use snoc.prems(2) in \<open>simp_all add: statement_ok_def\<close>)
  ultimately show ?case by (simp add: run_all_append)
qed

lemma schema_of_models: "schema_of model_statements = metadata"
  by (simp add: schema_of_def model_statements_def List.map_filter_def table_in_def index_in_def comp_def)

lemma models_ok:
  "list_all (statement_ok (tables metadata)) model_statements"
  "distinct (map tb_name (tables metadata))" "distinct (map ix_name (indexes metadata))"
  by code_simp+

lemma creation_order_builds:
  assumes "creation_order cs"
  shows "\<exists>s. run_all run_ddl cs empty_schema = Some s \<and> same_schema s metadata"
proof -
  have m: "mset cs = mset model_statements" and ord: "in_order {} cs"
    using assms by (simp_all add: creation_order_def)
  have "same_schema (schema_of cs) (schema_of model_statements)"
    using mset_map_filter [OF m, of table_in] mset_map_filter [OF m, of index_in]
    by (simp add: same_schema_def schema_of_def)
  then have same: "same_schema (schema_of cs) metadata" by (simp add: schema_of_models)
  then have perm: "mset (tables (schema_of cs)) = mset (tables metadata)"
      "mset (indexes (schema_of cs)) = mset (indexes metadata)"
    by (simp_all add: same_schema_def)
  have "run_all run_ddl cs empty_schema = Some (schema_of cs)"
  proof (rule run_in_order [OF ord])
    show "list_all (statement_ok (tables metadata)) cs"
      using models_ok(1) mset_eq_setD [OF m] by (simp add: list_all_iff)
    show "set (tables (schema_of cs)) \<subseteq> set (tables metadata)"
      using mset_eq_setD [OF perm(1)] by simp
    show "distinct (map tb_name (tables (schema_of cs)))"
      using models_ok(2) perm(1) by (metis mset_map mset_eq_imp_distinct_iff)
    show "distinct (map ix_name (indexes (schema_of cs)))"
      using models_ok(3) perm(2) by (metis mset_map mset_eq_imp_distinct_iff)
  qed
  with same show ?thesis by blast
qed

section \<open>Properties\<close>

text \<open>
  C24. A deployment and the tests have the same schema: on every engine, \<open>alembic upgrade head\<close> from
  the empty database runs through and ends at revision 0002; so does creating every table and index
  of the mapped classes, in whatever order puts a table after those it refers to and an index after
  its table; and both leave exactly the tables, columns, keys and indexes that the mapped classes
  declare.
\<close>

theorem migrations_build_models:
  assumes "ddl_engine exec view" and "view d = empty_schema" and "creation_order cs"
  shows "\<exists>d1 d2. upgrade_head exec versions (None, d) = Some (Some ''0002'', d1) \<and>
    run_all exec cs d = Some d2 \<and>
    same_schema (view d1) metadata \<and> same_schema (view d2) metadata"
proof -
  have "upgrade_head run_ddl versions (None, view d) = Some (Some ''0002'', metadata)"
    using assms(2) head_schema by simp
  from ddl_engine.upgrade_view [OF assms(1) this]
  obtain d1 where "upgrade_head exec versions (None, d) = Some (Some ''0002'', d1)" "view d1 = metadata" by blast
  moreover obtain s where s: "run_all run_ddl cs (view d) = Some s" "same_schema s metadata"
    using creation_order_builds [OF assms(3)] assms(2) by auto
  from ddl_engine.run_all_view [OF assms(1) s(1)]
  obtain d2 where "run_all exec cs d = Some d2" "view d2 = s" by blast
  ultimately show ?thesis using s(2) by (auto simp: same_schema_def)
qed

text \<open>An order in which the table with the foreign key comes last and an index before other tables.\<close>

theorem migrations_build_models_witness:
  "\<exists>d1 d2. upgrade_head (\<lambda>c (n, s). map_option (Pair (Suc n)) (run_ddl c s)) versions (None, (0 :: nat, empty_schema)) =
      Some (Some ''0002'', d1) \<and>
    run_all (\<lambda>c (n, s). map_option (Pair (Suc n)) (run_ddl c s)) (upgrade_0002 @ upgrade_0001) (0, empty_schema) = Some d2 \<and>
    same_schema (snd d1) metadata \<and> same_schema (snd d2) metadata"
proof (rule migrations_build_models)
  show "ddl_engine (\<lambda>c (n :: nat, s). map_option (Pair (Suc n)) (run_ddl c s)) snd"
    by unfold_locales (auto split: prod.split)
  show "creation_order (upgrade_0002 @ upgrade_0001)"
    by code_simp
qed simp

text \<open>
  C39. Taking a revision back undoes it: applied to any schema that has nothing of what the revision
  creates, and does not refer to it, \<open>upgrade\<close> runs through and \<open>downgrade\<close> after it gives the schema
  back, on every engine; nothing is left behind and nothing else is dropped.
\<close>

theorem downgrade_undoes_upgrade:
  assumes "ddl_engine exec view" and "r \<in> set versions" and "apart (rv_upgrade r) (view d)"
  shows "\<exists>d1 d2. run_all exec (rv_upgrade r) d = Some d1 \<and> run_all exec (rv_downgrade r) d1 = Some d2 \<and>
    view d2 = view d"
proof -
  obtain s1 where s1: "run_all run_ddl (rv_upgrade r) (view d) = Some s1"
      "run_all run_ddl (rv_downgrade r) s1 = Some (view d)"
    using undo_revision [OF assms(2,3)] by blast
  obtain d1 where d1: "run_all exec (rv_upgrade r) d = Some d1" "view d1 = s1"
    using ddl_engine.run_all_view [OF assms(1) s1(1)] by blast
  from ddl_engine.run_all_view [OF assms(1)] s1(2) d1 show ?thesis by blast
qed

theorem downgrade_undoes_upgrade_witness:
  "\<exists>d1 d2. run_all run_ddl upgrade_0002 \<lparr>tables = [agent_runs_table, agent_steps_table], indexes = []\<rparr> = Some d1 \<and>
    run_all run_ddl downgrade_0002 d1 = Some d2 \<and>
    d2 = \<lparr>tables = [agent_runs_table, agent_steps_table], indexes = []\<rparr>"
proof -
  have "apart (rv_upgrade revision_0002) \<lparr>tables = [agent_runs_table, agent_steps_table], indexes = []\<rparr>"
    by (simp add: apart_def revision_0002_def created_0002 table_defs)
  from downgrade_undoes_upgrade [OF reference_engine.ddl_engine_axioms _ this] show ?thesis
    by (simp add: versions_def revision_0002_def)
qed

end
