(* ===== verification/Spec2Isabelle.thy ===== *)
theory Spec2Isabelle
  imports Guardrails Output_Validation Runtime_Bounds Api_Properties Api_Results Seed Eval_Results Router_Concurrency Telemetry
    Policy_Files Schema Smoke_Test
begin

text \<open>
  The Aegis gateway, a service between applications and language-model providers: it
  authenticates a caller by API key, screens prompts and answers, routes a request to a provider
  with failover, runs agents that call tools, records every step, call and decision, and stops a
  tenant at its monthly budget. File names below are those under \<open>src/src/aegis/\<close>.

  \<^bold>\<open>Conventions.\<close> An operation of the program is a function of type \<open>('s, 'a) eff\<close>
  (theory \<open>Prelude\<close>): from a state to a result, \<open>Inl\<close> an exception of the datatype \<open>exn\<close> or
  \<open>Inr\<close> a value, and the state after it; \<open>bind_e\<close>, \<open>catch_e\<close> and \<open>for_e\<close> are sequence, \<open>try\<close> and
  \<open>for\<close>. The state of the gateway, \<open>gw_state\<close> of theory \<open>Database\<close>, has the circuit breakers, the
  log of spans and metrics, the outside world, the tables as the session sees them (\<open>db\<close>) and as
  committed (\<open>committed\<close>). Clocks, random identifiers, provider calls, hashing and the order a
  database gives to rows with equal sort keys are functions in an environment record
  (\<open>route_env\<close>, \<open>gw_env\<close>, \<open>key_env\<close>) on the outside world, a type variable. Texts are lists of
  characters of code 0 to 255, Python's integers are \<open>int\<close>, floats are reals with a rounding
  parameter \<open>fl\<close> where the source computes with them, IP addresses are 32 and 128 bit words. Where
  an answer from outside has no fixed shape, it is a \<open>json\<close> value, and Python's operations on it
  (theory \<open>Provider_Wire\<close>) raise what they raise there.

  \<^bold>\<open>Components and theories.\<close>
  \<^item> \<open>Prelude\<close>: effects, exceptions, the contract \<open>effect_rel\<close> of operations that keep a relation
    between the states before and after, shared facts on lists and maps. \<open>Json\<close>: JSON values.
  \<^item> \<open>Provider_Base\<close>: the data exchanged with providers (\<open>providers/base.py\<close>).
  \<^item> \<open>Circuit_Breaker\<close>: the breaker registry (\<open>providers/circuit_breaker.py\<close>), with the
    machine that \<open>docs/adr/0006\<close> draws, its threshold and its timeout included; its counters tell
    the history of a provider.
  \<^item> \<open>Router\<close>: policies, candidate choice and the failover loop (\<open>providers/router.py\<close>,
    \<open>policies/routing.yaml\<close>); each turn of the loop is a step of the machine of its provider.
    \<open>Router_Concurrency\<close>: the same loop cut at its \<open>await\<close>, as the steps of many requests in
    flight on the same breakers; the loop of theory \<open>Router\<close> is the schedule that nothing
    interrupts.
  \<^item> \<open>Provider_Wire\<close>, \<open>Local_Provider\<close>, \<open>Bedrock_Provider\<close>, \<open>Foundry_Provider\<close>: the adapters to the
    three providers (\<open>providers/\<close>), with the requests they send, the answers they read, and which
    failures they turn into provider errors; \<open>Adapters\<close>: the router that \<open>main.py\<close> builds of them,
    where failover, error conversion and routing policy meet.
  \<^item> \<open>Regex\<close>: a backtracking matcher for the regular expressions of the program with its meaning
    as a relation; \<open>Pii\<close>, \<open>Screening\<close>, \<open>Guardrails\<close>: the patterns, the Luhn check, redaction, the
    policies and the two screens (\<open>governance/\<close>); \<open>Output_Validation\<close>: the checks of structured
    output, which nothing calls.
  \<^item> \<open>Database\<close>, \<open>Trace_Store\<close>, \<open>Audit_Log\<close>, \<open>Cost\<close>, \<open>Tenancy\<close>: the tables (\<open>db/models.py\<close>) and
    the stores on them (\<open>agent/trace.py\<close>, \<open>governance/audit.py\<close>, \<open>cost/\<close>, \<open>tenancy/\<close>).
  \<^item> \<open>Runtime\<close>: the agent loop with tool calls, retries and replay (\<open>agent/runtime.py\<close>);
    \<open>Runtime_Properties\<close> and \<open>Runtime_Results\<close>: what a run does and never does;
    \<open>Runtime_Bounds\<close>: how often it may ask a provider.
  \<^item> \<open>Calculator\<close>, \<open>Sql_Tool\<close>, \<open>Http_Tool\<close>, \<open>Knowledge_Base\<close>, \<open>Toolbox\<close>: the tools of
    \<open>agent/tools/\<close>, and the registry built for a request.
  \<^item> \<open>Api\<close>: the routes of \<open>api/\<close> and the life of a request, with its session and role check;
    \<open>Api_Properties\<close> and \<open>Api_Results\<close>: what any history of requests keeps, and what each route
    promises. These are the properties of the composed system. \<open>Seed\<close>: the script
    \<open>scripts/seed.py\<close> that makes the first key.
  \<^item> \<open>Startup\<close>: the settings, the application that \<open>main.py\<close> makes of them, and where tracing sends
    spans (\<open>config.py\<close>, \<open>main.py\<close>, \<open>observability/tracing.py\<close>). A request depends on the router
    only through what it does in the routing context of the request (\<open>serve_router\<close>), and on the
    tools only through the registry (\<open>serve_all_tools\<close>); so what a policy or a setting rules out for
    one call is ruled out for every history of requests. \<open>Telemetry\<close>: the metrics as what the events
    of the log add up to (\<open>observability/metrics.py\<close>).
    \<open>Policy_Files\<close>: the \<open>from_yaml\<close> constructors on the documents of the files under \<open>policies/\<close>;
    the policies that the other theories define are what they make of the shipped files, and a rule
    that keeps data local does so for whatever file a deployment loads.
  \<^item> \<open>Schema\<close>: the mapped classes and the migrations (\<open>db/models.py\<close>, \<open>db/migrations/versions/\<close>) as
    lists of statements; both build the same schema on every engine that does what \<open>run_ddl\<close>
    promises. The library's \<open>create_all\<close> is any order of the statements of the classes in which a
    table comes after the tables it refers to and an index after its table.
  \<^item> \<open>Smoke_Test\<close>: the script \<open>scripts/smoke_test_local_provider.py\<close>.
  \<^item> \<open>Eval_Harness\<close>, \<open>Eval_Report\<close>, \<open>Eval_Results\<close>: the evaluation cases, their runner on the agent
    runtime with a scripted provider, the report and the merge gate (\<open>eval/\<close>); the tags of a case,
    which nothing reads, are left out.

  \<^bold>\<open>Interfaces.\<close> The locale \<open>effect_rel\<close> (a preorder on states that operations keep) is
  interpreted for the tables of a run (\<open>ledgers\<close>), the keys, a session and others; \<open>step_effects\<close>
  extends it to everything that a turn of an agent does besides routing, and \<open>run_effects\<close> to a
  whole run, interpreted for the ledgers, for what a run does not touch, and for the providers it
  asks. \<open>registry_invariant\<close> is what every operation of the breakers keeps, and with it every
  schedule of requests; \<open>ddl_engine\<close> is a database engine, which does at least what \<open>run_ddl\<close> does.

  \<^bold>\<open>Loops.\<close> The failover loop recurses on the candidates, the agent loop on \<open>range(max_steps)\<close>,
  the retry loop on the attempts left; the matcher of theory \<open>Regex\<close> recurses on the length of
  the text; an upgrade recurses on the revisions not yet applied. There is no fuel: each number is
  the one that the source counts to. A request in flight has at most one turn more than it has
  candidates (\<open>turns_left\<close>). A stream is read to its end, as a list of chunks and the exception it ends with.

  \<^bold>\<open>Not modelled.\<close> YAML and JSON parsing, what pydantic makes of a single value, FastAPI's dispatch
  and the HTTP and provider clients, which are library code; the interleaving
  of requests outside the router, whose sessions are served one after the other, and of the
  embeddings that the Bedrock adapter gathers; the exporters of OpenTelemetry and the text format of
  Prometheus, whose counters are taken to accept every amount; failures of the database itself, among
  them the transaction that PostgreSQL aborts when the statement of the SQL tool fails, so that a
  statement fails in the model only where a key is taken or a row is missing; the cancellation of a
  request by the server, which is no \<open>Exception\<close> in Python and passes every handler; the creation of the
  database engine and Alembic's environment, which hand a connection on.
\<close>

end
